(* ===== verification/Dobby_Prelude.thy ===== *)
theory Dobby_Prelude
  imports Main "HOL-Library.Word"
begin

unbundle bit_operations_syntax

text \<open>
  Shared vocabulary of the development: the C integer types of
  \<^verbatim>\<open>source/include/type_macro.h\<close> as machine words, the ways the C code stops
  (\<^verbatim>\<open>UNREACHABLE\<close>, \<^verbatim>\<open>UNIMPLEMENTED\<close>, \<^verbatim>\<open>CHECK\<close>, a bad access), the bit
  macros of \<^verbatim>\<open>source/include/utility_macro.h\<close>, the little-endian view of memory that
  every \<^verbatim>\<open>*reinterpret_cast<T *>(p)\<close> of the code relies on, and the lemmas on bit
  fields and byte lists that the components share. The collection \<open>fields\<close> holds the
  rewrite rules that compute a field of an assembled instruction word; \<open>bytes\<close> holds
  those for loads and stores in a byte list.
\<close>

named_theorems fields \<open>extraction of bit fields from assembled instruction words\<close>
named_theorems bytes \<open>loads and stores in little-endian byte lists\<close>

section \<open>Types of the C code\<close>

type_synonym u8 = "8 word"
type_synonym u16 = "16 word"
type_synonym u32 = "32 word"
type_synonym u64 = "64 word"
type_synonym addr = "64 word"
type_synonym bytes = "8 word list"

text \<open>
  A run of the C code that does not return normally ends in one of these: the
  \<^verbatim>\<open>abort()\<close> of \<^verbatim>\<open>FATAL\<close> reached through one of the logging macros, an
  access outside an allocated object, or the use of a null pointer.
\<close>

datatype fault = Unreachable | Unimplemented | Fatal | CheckFailed | OutOfBounds | NullPointer

type_synonym 'a res = "fault + 'a"

definition bindr :: "'a res \<Rightarrow> ('a \<Rightarrow> 'b res) \<Rightarrow> 'b res" where
  "bindr m k = (case m of Inl e \<Rightarrow> Inl e | Inr x \<Rightarrow> k x)"

lemma bindr_simps [simp]:
  "bindr (Inl e) k = Inl e"
  "bindr (Inr x) k = k x"
  by (simp_all add: bindr_def)

lemma bindr_Inr_iff: "bindr m k = Inr y \<longleftrightarrow> (\<exists>x. m = Inr x \<and> k x = Inr y)"
  by (cases m) auto

lemma bindr_assoc: "bindr (bindr m k) h = bindr m (\<lambda>x. bindr (k x) h)"
  by (cases m) auto

section \<open>The macros of utility\_macro.h\<close>

text \<open>
  \<^verbatim>\<open>LeftShift\<close>, \<^verbatim>\<open>RightShift\<close>, \<^verbatim>\<open>ALIGN_FLOOR\<close>, \<^verbatim>\<open>ALIGN_CEIL\<close>,
  \<^verbatim>\<open>submask\<close>, \<^verbatim>\<open>bits\<close>, \<^verbatim>\<open>bit\<close>, \<^verbatim>\<open>set_bit\<close> and \<^verbatim>\<open>set_bits\<close>. The macro
  \<^verbatim>\<open>bits\<close> shifts arithmetically when its object is a signed integer
  (\<open>sbits_m\<close> below) and logically when it is unsigned (\<open>bits_m\<close>); in both cases
  the mask then removes everything above the field.
\<close>

definition LeftShift :: "'a::len word \<Rightarrow> nat \<Rightarrow> nat \<Rightarrow> 'a word" where
  "LeftShift a b c = push_bit c (a AND (push_bit b 1 - 1))"

definition RightShift :: "'a::len word \<Rightarrow> nat \<Rightarrow> nat \<Rightarrow> 'a word" where
  "RightShift a b c = drop_bit c a AND (push_bit b 1 - 1)"

definition ALIGN_FLOOR :: "'a::len word \<Rightarrow> 'a word \<Rightarrow> 'a word" where
  "ALIGN_FLOOR address rng = address AND NOT (rng - 1)"

definition ALIGN_CEIL :: "'a::len word \<Rightarrow> 'a word \<Rightarrow> 'a word" where
  "ALIGN_CEIL address rng = (address + rng - 1) AND NOT (rng - 1)"

definition submask :: "nat \<Rightarrow> 'a::len word" where
  "submask x = push_bit (x + 1) 1 - 1"

definition bits_m :: "'a::len word \<Rightarrow> nat \<Rightarrow> nat \<Rightarrow> 'a word" where
  "bits_m obj st fn = drop_bit st obj AND submask (fn - st)"

definition sbits_m :: "'a::len word \<Rightarrow> nat \<Rightarrow> nat \<Rightarrow> 'a word" where
  "sbits_m obj st fn = signed_drop_bit st obj AND submask (fn - st)"

definition bit_m :: "'a::len word \<Rightarrow> nat \<Rightarrow> 'a word" where
  "bit_m obj st = drop_bit st obj AND 1"

definition set_bit_m :: "'a::len word \<Rightarrow> nat \<Rightarrow> 'a word \<Rightarrow> 'a word" where
  "set_bit_m obj st b = (NOT (push_bit st 1) AND obj) OR push_bit st b"

definition set_bits_m :: "'a::len word \<Rightarrow> nat \<Rightarrow> nat \<Rightarrow> 'a word \<Rightarrow> 'a word" where
  "set_bits_m obj st fn bs = (NOT (push_bit st (submask (fn - st))) AND obj) OR push_bit st bs"

section \<open>Bit fields\<close>

text \<open>\<open>field st m w\<close> is the \<open>m\<close>-bit field of \<open>w\<close> that starts at bit \<open>st\<close>.\<close>

definition field :: "nat \<Rightarrow> nat \<Rightarrow> 'a::len word \<Rightarrow> 'a word" where
  "field st m w = take_bit m (drop_bit st w)"

lemma mask_conv: "push_bit b 1 - 1 = (mask b :: 'a::len word)"
  by (simp add: mask_eq_exp_minus_1 push_bit_eq_mult)

lemma LeftShift_eq: "LeftShift a b c = push_bit c (take_bit b a)"
  unfolding LeftShift_def mask_conv by (simp add: take_bit_eq_mask)

lemma bits_m_eq_field: "st \<le> fn \<Longrightarrow> bits_m w st fn = field st (fn - st + 1) w"
  unfolding bits_m_def field_def submask_def mask_conv by (simp add: take_bit_eq_mask)

lemma sbits_m_eq_field:
  fixes w :: "'a::len word"
  assumes "st \<le> fn" "fn < LENGTH('a)"
  shows "sbits_m w st fn = field st (fn - st + 1) w"
  unfolding sbits_m_def field_def submask_def mask_conv
  using assms by (intro bit_word_eqI) (auto simp: bit_simps min_def)

lemma bit_m_eq_field: "bit_m w st = field st 1 w"
  unfolding bit_m_def field_def by (simp add: and_one_eq take_bit_Suc flip: mod_2_eq_odd)

lemma bit_field_iff [bit_simps]:
  fixes w :: "'a::len word"
  shows "bit (field st m w) n \<longleftrightarrow> n < m \<and> bit w (st + n)"
  by (auto simp: field_def bit_simps dest: bit_imp_le_length)

lemma field_OR [fields]: "field st m (a OR b) = field st m a OR field st m b"
  by (intro bit_word_eqI) (auto simp: bit_simps)

lemma field_AND: "field st m (a AND b) = field st m a AND field st m b"
  by (intro bit_word_eqI) (auto simp: bit_simps)

lemma field_push_same [fields]:
  fixes x :: "'a::len word"
  shows "k + l \<le> LENGTH('a) \<Longrightarrow> field k l (push_bit k (take_bit l x)) = take_bit l x"
  by (intro bit_word_eqI) (auto simp: bit_simps)

lemma field_push_disjoint [fields]:
  fixes x :: "'a::len word"
  shows "k + l \<le> st \<or> st + m \<le> k \<Longrightarrow> field st m (push_bit k (take_bit l x)) = 0"
  by (intro bit_word_eqI) (auto simp: bit_simps)

lemma field_take_disjoint [fields]:
  fixes x :: "'a::len word"
  shows "l \<le> st \<Longrightarrow> field st m (take_bit l x) = 0"
  by (intro bit_word_eqI) (auto simp: bit_simps)

lemma field_take_same [fields]:
  fixes x :: "'a::len word"
  shows "field 0 l (take_bit l x) = take_bit l x"
  by (intro bit_word_eqI) (auto simp: bit_simps)

lemma field_zero [fields]: "field st m 0 = 0"
  by (simp add: field_def)

lemma field_numeral [fields]:
  "field st m (numeral k :: 'a::len word) = take_bit m (drop_bit st (numeral k))"
  by (simp add: field_def)

lemma and_push_field [fields]:
  fixes x :: "'a::len word"
  shows "push_bit k (take_bit l x) AND M = push_bit k (x AND take_bit l (drop_bit k M))"
  by (intro bit_word_eqI) (auto simp: bit_simps)

lemma and_take_field [fields]:
  fixes x :: "'a::len word"
  shows "take_bit l x AND M = x AND take_bit l M"
  by (intro bit_word_eqI) (auto simp: bit_simps)

lemma and_OR_distrib [fields]:
  fixes a b :: "'a::len word"
  shows "(a OR b) AND M = (a AND M) OR (b AND M)"
  by (rule bit.conj_disj_distrib2)

text \<open>
  A word whose bits under one mask are known fails every mask test that contradicts them.
\<close>

lemma and_clash:
  fixes w :: "'a::len word"
  assumes "w AND M = C"
  shows "C AND M' \<noteq> C' AND M \<Longrightarrow> w AND M' = C' \<longleftrightarrow> False"
  using assms by (metis and.assoc and.commute)

lemma and_weaken:
  fixes w :: "'a::len word"
  assumes "w AND M = C" "M AND M' = M'"
  shows "w AND M' = C AND M'"
  using assms by (metis and.assoc)

lemma and_push_one: "w AND push_bit k 1 = (if bit w k then push_bit k 1 else (0 :: 'a::len word))"
  by (intro bit_word_eqI) (auto simp: bit_simps bit_1_iff)

lemma field_of_masked:
  fixes w :: "'a::len word"
  assumes "field st k M = mask k"
  shows "field st k (w AND M) = field st k w"
proof -
  have "field st k (w AND M) = field st k w AND mask k"
    by (simp add: field_AND assms)
  also have "\<dots> = field st k w"
    by (simp add: field_def flip: take_bit_eq_mask)
  finally show ?thesis .
qed

lemma take_bit_small:
  fixes n :: "'a::len word"
  assumes "unat n < 2 ^ k"
  shows "take_bit k n = n"
  using assms by (simp add: word_unat_eq_iff unsigned_take_bit_eq take_bit_nat_eq_self)

lemma bit_small:
  fixes x :: "'a::len word"
  assumes "unat x < 2 ^ k" "bit x n"
  shows "n < k"
  using take_bit_small [OF assms(1)] assms(2) by (metis bit_take_bit_iff)

text \<open>The macros \<^verbatim>\<open>set_bit\<close> and \<^verbatim>\<open>set_bits\<close>, bit by bit.\<close>

lemma bit_set_bits_m:
  fixes w :: "'a::len word"
  assumes "unat v < 2 ^ (fn - st + 1)" "st \<le> fn"
  shows "bit (set_bits_m w st fn v) n \<longleftrightarrow> n < LENGTH('a) \<and> (if st \<le> n \<and> n \<le> fn then bit v (n - st) else bit w n)"
proof -
  have v: "\<not> bit v (n - st)" if "fn < n"
    using bit_small [OF assms(1), of "n - st"] that assms(2) by linarith
  show ?thesis
    unfolding set_bits_m_def submask_def mask_conv
    using assms(2) v by (auto simp: bit_simps)
qed

lemma bit_set_bit_m:
  fixes w :: "'a::len word"
  assumes "b = 0 \<or> b = 1"
  shows "bit (set_bit_m w k b) n \<longleftrightarrow> n < LENGTH('a) \<and> (if n = k then b = 1 else bit w n)"
  using assms unfolding set_bit_m_def by (auto simp: bit_simps bit_1_iff)

lemma and_set_bits_m:
  fixes w :: "'a::len word"
  assumes "unat v < 2 ^ (fn - st + 1)" "st \<le> fn" "M AND push_bit st (mask (fn - st + 1)) = 0"
  shows "set_bits_m w st fn v AND M = w AND M"
proof (intro bit_word_eqI)
  fix n assume "n < LENGTH('a)"
  then show "bit (set_bits_m w st fn v AND M) n \<longleftrightarrow> bit (w AND M) n"
    using arg_cong [OF assms(3), of "\<lambda>x. bit x n"] by (auto simp: bit_simps bit_set_bits_m [OF assms(1,2)])
qed

lemma and_set_bit_m:
  fixes w :: "'a::len word"
  assumes "b = 0 \<or> b = 1" "\<not> bit M k"
  shows "set_bit_m w k b AND M = w AND M"
  using assms(2) by (intro bit_word_eqI) (auto simp: bit_simps bit_set_bit_m [OF assms(1)])

lemma field_set_bits_same:
  fixes w :: "'a::len word"
  assumes "unat v < 2 ^ (fn - st + 1)" "st \<le> fn" "fn < LENGTH('a)" "k = fn - st + 1"
  shows "field st k (set_bits_m w st fn v) = v"
proof (intro bit_word_eqI)
  fix n
  show "bit (field st k (set_bits_m w st fn v)) n \<longleftrightarrow> bit v n"
    using bit_small [OF assms(1), of n] assms(2-4)
    by (auto simp: bit_simps bit_set_bits_m [OF assms(1,2)])
qed

lemma field_set_bits_other:
  fixes w :: "'a::len word"
  assumes "unat v < 2 ^ (fn - st + 1)" "st \<le> fn" "a + k \<le> st \<or> fn < a"
  shows "field a k (set_bits_m w st fn v) = field a k w"
  using assms(2,3)
  by (intro bit_word_eqI) (auto simp: bit_simps bit_set_bits_m [OF assms(1,2)] dest: bit_imp_le_length)

lemma field_set_bit_other:
  fixes w :: "'a::len word"
  assumes "b = 0 \<or> b = 1" "a + k \<le> i \<or> i < a"
  shows "field a k (set_bit_m w i b) = field a k w"
  using assms(2)
  by (intro bit_word_eqI) (auto simp: bit_simps bit_set_bit_m [OF assms(1)] dest: bit_imp_le_length)

lemma unat_less_half_iff:
  fixes w :: "'a::len word"
  shows "unat w < 2 ^ (LENGTH('a) - 1) \<longleftrightarrow> \<not> bit w (LENGTH('a) - 1)"
proof -
  have "unat w < 2 ^ (LENGTH('a) - 1) \<longleftrightarrow> take_bit (LENGTH('a) - 1) w = w"
    by (metis take_bit_nat_eq_self_iff unsigned_take_bit_eq word_unat_eq_iff)
  also have "\<dots> \<longleftrightarrow> \<not> bit w (LENGTH('a) - 1)"
    using bit_imp_le_length [of w] by (auto simp: bit_eq_iff bit_simps)
      (metis One_nat_def Suc_pred len_gt_0 not_less_less_Suc_eq)
  finally show ?thesis .
qed

lemma ALIGN_FLOOR_pow2:
  fixes w :: "'a::len word"
  shows "ALIGN_FLOOR w (2 ^ k) = w - take_bit k w"
proof -
  have "ALIGN_FLOOR w (2 ^ k) = w AND NOT (mask k)"
    by (simp add: ALIGN_FLOOR_def mask_eq_exp_minus_1)
  also have "\<dots> = push_bit k (drop_bit k w)"
    by (intro bit_word_eqI) (auto simp: bit_simps)
  also have "\<dots> = w - take_bit k w"
    by (metis add_diff_cancel_right' bits_ident)
  finally show ?thesis .
qed

lemma unat_ALIGN_FLOOR_pow2:
  fixes w :: "'a::len word"
  shows "unat (ALIGN_FLOOR w (2 ^ k)) = unat w - unat w mod 2 ^ k"
proof -
  have eq: "unat (take_bit k w) = unat w mod 2 ^ k"
    unfolding unsigned_take_bit_eq by (rule take_bit_eq_mod)
  moreover have "take_bit k w \<le> w"
    unfolding word_le_nat_alt eq by simp
  ultimately show ?thesis
    by (simp add: ALIGN_FLOOR_pow2 unat_sub)
qed

section \<open>Little-endian memory\<close>

definition byte_of :: "nat \<Rightarrow> 'a::len word \<Rightarrow> u8" where
  "byte_of i w = ucast (drop_bit (8 * i) w)"

definition le_bytes :: "nat \<Rightarrow> 'a::len word \<Rightarrow> bytes" where
  "le_bytes n w = map (\<lambda>i. byte_of i w) [0..<n]"

fun le_word :: "bytes \<Rightarrow> 'a::len word" where
  "le_word [] = 0"
| "le_word (b # bs) = ucast b OR push_bit 8 (le_word bs)"

definition load_bytes :: "bytes \<Rightarrow> nat \<Rightarrow> nat \<Rightarrow> bytes" where
  "load_bytes buf off n = take n (drop off buf)"

definition store_bytes :: "bytes \<Rightarrow> nat \<Rightarrow> bytes \<Rightarrow> bytes" where
  "store_bytes buf off bs = take off buf @ bs @ drop (off + length bs) buf"

lemma length_le_bytes [simp]: "length (le_bytes n w) = n"
  by (simp add: le_bytes_def)

lemma le_bytes_0 [simp]: "le_bytes 0 w = []"
  by (simp add: le_bytes_def)

lemma le_bytes_Suc: "le_bytes (Suc n) w = ucast w # le_bytes n (drop_bit 8 w)"
  by (auto simp: le_bytes_def byte_of_def map_upt_Suc drop_bit_drop_bit ac_simps simp del: upt_Suc)

lemma bit_le_word:
  "bit (le_word bs :: 'a::len word) k \<longleftrightarrow> k < LENGTH('a) \<and> k < 8 * length bs \<and> bit (bs ! (k div 8)) (k mod 8)"
proof (induction bs arbitrary: k)
  case (Cons b bs)
  show ?case
  proof (cases "k < 8")
    case True
    then show ?thesis by (auto simp: bit_simps)
  next
    case False
    then have "k div 8 = Suc ((k - 8) div 8)" "k mod 8 = (k - 8) mod 8"
      by (simp_all add: div_if le_mod_geq)
    then show ?thesis
      using False Cons.IH [of "k - 8"] bit_imp_le_length [of b k] by (auto simp: bit_simps)
  qed
qed simp

lemma ucast_le_word:
  "8 * length bs \<le> LENGTH('a) \<Longrightarrow> ucast (le_word bs :: 'a::len word) = (le_word bs :: 'b::len word)"
  by (rule bit_word_eqI) (auto simp: bit_simps bit_le_word)

lemma le_word_bytes:
  fixes w :: "'a::len word"
  shows "le_word (le_bytes n w) = take_bit (8 * n) w"
proof (induction n arbitrary: w)
  case 0
  then show ?case by simp
next
  case (Suc n)
  have "ucast (ucast w :: u8) OR push_bit 8 (take_bit (8 * n) (drop_bit 8 w)) = take_bit (8 * Suc n) w"
    by (intro bit_word_eqI) (auto simp: bit_simps)
  with Suc show ?case by (simp add: le_bytes_Suc)
qed

lemma le_word_bytes_32 [bytes]: "le_word (le_bytes 4 (w :: u32)) = w"
  by (simp add: le_word_bytes take_bit_word_eq_self)

lemma le_word_bytes_64 [bytes]: "le_word (le_bytes 8 (w :: u64)) = w"
  by (simp add: le_word_bytes take_bit_word_eq_self)

lemma length_store_bytes [simp]:
  "off + length bs \<le> length buf \<Longrightarrow> length (store_bytes buf off bs) = length buf"
  by (simp add: store_bytes_def)

lemma load_store_same [bytes]:
  "off + length bs \<le> length buf \<Longrightarrow> n = length bs \<Longrightarrow> load_bytes (store_bytes buf off bs) off n = bs"
  by (simp add: load_bytes_def store_bytes_def)

lemma nth_store_bytes:
  assumes "off + length bs \<le> length buf" "i < length buf"
  shows "store_bytes buf off bs ! i = (if off \<le> i \<and> i < off + length bs then bs ! (i - off) else buf ! i)"
  using assms by (auto simp: store_bytes_def nth_append min_def)

lemma load_bytes_nth:
  "off + n \<le> length buf \<Longrightarrow> load_bytes buf off n = map (\<lambda>i. buf ! (off + i)) [0..<n]"
  by (auto simp: load_bytes_def intro: nth_equalityI)

lemma load_store_disjoint [bytes]:
  assumes "off + length bs \<le> length buf" "p + n \<le> length buf" "p + n \<le> off \<or> off + length bs \<le> p"
  shows "load_bytes (store_bytes buf off bs) p n = load_bytes buf p n"
  using assms by (auto simp: load_bytes_nth nth_store_bytes)

lemma load_bytes_append_left [bytes]:
  "off + n \<le> length xs \<Longrightarrow> load_bytes (xs @ ys) off n = load_bytes xs off n"
  by (simp add: load_bytes_def)

lemma load_bytes_append_right [bytes]:
  "length xs \<le> off \<Longrightarrow> load_bytes (xs @ ys) off n = load_bytes ys (off - length xs) n"
  by (simp add: load_bytes_def)

lemma load_bytes_all [bytes]: "n = length xs \<Longrightarrow> load_bytes (xs @ ys) 0 n = xs"
  by (simp add: load_bytes_def)

lemma store_bytes_append_left [bytes]:
  "off + length bs \<le> length xs \<Longrightarrow> store_bytes (xs @ ys) off bs = store_bytes xs off bs @ ys"
  by (simp add: store_bytes_def)

lemma take_store_bytes:
  assumes "off + length bs \<le> k" "k \<le> length buf"
  shows "take k (store_bytes buf off bs) = store_bytes (take k buf) off bs"
proof -
  have "store_bytes (take k buf @ drop k buf) off bs = store_bytes (take k buf) off bs @ drop k buf"
    using assms by (intro store_bytes_append_left) simp
  then show ?thesis
    using assms by simp
qed

section \<open>Code in memory\<close>

text \<open>
  The memory of a machine is a function from addresses to bytes; \<open>ld n m a\<close> are the \<open>n\<close> bytes from
  address \<open>a\<close> on.
\<close>

definition ld :: "nat \<Rightarrow> (u64 \<Rightarrow> u8) \<Rightarrow> u64 \<Rightarrow> bytes" where
  "ld n m a = map (\<lambda>i. m (a + word_of_nat i)) [0..<n]"

text \<open>\<open>loaded m a bs\<close>: the bytes \<open>bs\<close> are in memory from address \<open>a\<close> on.\<close>

definition loaded :: "(u64 \<Rightarrow> u8) \<Rightarrow> u64 \<Rightarrow> bytes \<Rightarrow> bool" where
  "loaded m a bs \<longleftrightarrow> (\<forall>i < length bs. m (a + word_of_nat i) = bs ! i)"

lemma loaded_iff_ld: "loaded m a bs \<longleftrightarrow> ld (length bs) m a = bs"
  unfolding loaded_def ld_def list_eq_iff_nth_eq by simp

lemma loaded_ld: "loaded m a bs \<Longrightarrow> length bs = n \<Longrightarrow> ld n m a = bs"
  by (simp add: loaded_iff_ld)

lemma ld_add: "ld (n + k) m a = ld n m a @ ld k m (a + word_of_nat n)"
proof -
  have "[0..<n + k] = [0..<n] @ map (\<lambda>i. i + n) [0..<k]"
    unfolding map_add_upt using upt_add_eq_append [of 0 n k] by (simp add: add.commute [of k])
  then show ?thesis
    by (simp add: ld_def ac_simps)
qed

lemma loaded_append:
  "loaded m a (xs @ ys) \<longleftrightarrow> loaded m a xs \<and> loaded m (a + word_of_nat (length xs)) ys"
proof -
  have "length (ld n m a) = n" for n
    by (simp add: ld_def)
  then show ?thesis
    by (simp add: loaded_iff_ld ld_add append_eq_append_conv)
qed

lemma loaded_Nil [simp]: "loaded m a []"
  by (simp add: loaded_def)

text \<open>\<^verbatim>\<open>llabs\<close>, whose result the code compares with unsigned numbers.\<close>

definition llabs :: "u64 \<Rightarrow> u64" where
  "llabs x = (if sint x < 0 then - x else x)"

end
