(* ===== verification/Arm64_Constants.thy ===== *)
theory Arm64_Constants
  imports Dobby_Prelude
begin

text \<open>
  The instruction encodings of \<^verbatim>\<open>core/arch/arm64/constants-arm64.h\<close> and the registers of
  \<^verbatim>\<open>core/arch/arm64/registers-arm64.h\<close>. Enumerators of an opcode enum are 32-bit words;
  the X-macro lists \<^verbatim>\<open>LOAD_STORE_OP_LIST\<close> and \<^verbatim>\<open>LOAD_STORE_PAIR_OP_LIST\<close> are kept as
  lists, and the enums generated from them as functions on their rows. The lemmas at the end
  check the tables: each generated opcode carries the fixed bits of its class, and no two
  rows of a class get the same opcode.
\<close>

named_theorems arm64_const \<open>values of the enumerators of constants-arm64.h\<close>

section \<open>Operand enums\<close>

datatype Shift = NO_SHIFT | LSL | LSR | ASR | ROR | MSL

fun shift_value :: "Shift \<Rightarrow> u32" where
  "shift_value NO_SHIFT = - 1"
| "shift_value LSL = 0"
| "shift_value LSR = 1"
| "shift_value ASR = 2"
| "shift_value ROR = 3"
| "shift_value MSL = 4"

datatype Extend = NO_EXTEND | UXTB | UXTH | UXTW | UXTX | SXTB | SXTH | SXTW | SXTX

fun extend_value :: "Extend \<Rightarrow> u32" where
  "extend_value NO_EXTEND = - 1"
| "extend_value UXTB = 0"
| "extend_value UXTH = 1"
| "extend_value UXTW = 2"
| "extend_value UXTX = 3"
| "extend_value SXTB = 4"
| "extend_value SXTH = 5"
| "extend_value SXTW = 6"
| "extend_value SXTX = 7"

datatype AddrMode = Offset | PreIndex | PostIndex

section \<open>Instruction fields\<close>

definition kRdShift :: nat where [arm64_const]: "kRdShift = 0"
definition kRnShift :: nat where [arm64_const]: "kRnShift = 5"
definition kRaShift :: nat where [arm64_const]: "kRaShift = 10"
definition kRmShift :: nat where [arm64_const]: "kRmShift = 16"
definition kRtShift :: nat where [arm64_const]: "kRtShift = 0"
definition kRt2Shift :: nat where [arm64_const]: "kRt2Shift = 10"
definition kRsShift :: nat where [arm64_const]: "kRsShift = 16"

section \<open>Exceptions and branches\<close>

definition ExceptionFixed :: u32 where [arm64_const]: "ExceptionFixed = 0xD4000000"
definition HLT_op :: u32 where [arm64_const]: "HLT_op = ExceptionFixed OR 0x00400000"
definition BRK_op :: u32 where [arm64_const]: "BRK_op = ExceptionFixed OR 0x00200000"
definition SVC_op :: u32 where [arm64_const]: "SVC_op = ExceptionFixed OR 0x00000001"

definition UnconditionalBranchFixed :: u32 where [arm64_const]: "UnconditionalBranchFixed = 0x14000000"
definition UnconditionalBranchFixedMask :: u32 where [arm64_const]: "UnconditionalBranchFixedMask = 0x7C000000"
definition UnconditionalBranchMask :: u32 where [arm64_const]: "UnconditionalBranchMask = 0xFC000000"
definition B_op :: u32 where [arm64_const]: "B_op = UnconditionalBranchFixed OR 0x00000000"
definition BL_op :: u32 where [arm64_const]: "BL_op = UnconditionalBranchFixed OR 0x80000000"

definition UnconditionalBranchToRegisterFixed :: u32 where
  [arm64_const]: "UnconditionalBranchToRegisterFixed = 0xD6000000"
definition UnconditionalBranchToRegisterMask :: u32 where
  [arm64_const]: "UnconditionalBranchToRegisterMask = 0xFFFFFC1F"
definition BR_op :: u32 where [arm64_const]: "BR_op = UnconditionalBranchToRegisterFixed OR 0x001F0000"
definition BLR_op :: u32 where [arm64_const]: "BLR_op = UnconditionalBranchToRegisterFixed OR 0x003F0000"
definition RET_op :: u32 where [arm64_const]: "RET_op = UnconditionalBranchToRegisterFixed OR 0x005F0000"

section \<open>Literal loads\<close>

definition LoadRegLiteralFixed :: u32 where [arm64_const]: "LoadRegLiteralFixed = 0x18000000"
definition LoadRegLiteralFixedMask :: u32 where [arm64_const]: "LoadRegLiteralFixedMask = 0x3B000000"
definition LoadRegLiteralMask :: u32 where [arm64_const]: "LoadRegLiteralMask = 0xFF000000"

definition LoadRegLiteralSub :: "u32 \<Rightarrow> u32 \<Rightarrow> u32" where
  "LoadRegLiteralSub opc V = LoadRegLiteralFixed OR LeftShift opc 2 30 OR LeftShift V 1 26"

datatype LoadRegLiteralOp = LDR_w_literal | LDR_x_literal | LDRSW_literal | PRFM_literal
  | LDR_s_literal | LDR_d_literal | LDR_q_literal

fun LoadRegLiteralOp_value :: "LoadRegLiteralOp \<Rightarrow> u32" where
  "LoadRegLiteralOp_value LDR_w_literal = LoadRegLiteralSub 0 0"
| "LoadRegLiteralOp_value LDR_x_literal = LoadRegLiteralSub 1 0"
| "LoadRegLiteralOp_value LDRSW_literal = LoadRegLiteralSub 2 0"
| "LoadRegLiteralOp_value PRFM_literal = LoadRegLiteralSub 3 0"
| "LoadRegLiteralOp_value LDR_s_literal = LoadRegLiteralSub 0 1"
| "LoadRegLiteralOp_value LDR_d_literal = LoadRegLiteralSub 1 1"
| "LoadRegLiteralOp_value LDR_q_literal = LoadRegLiteralSub 2 1"

section \<open>Loads and stores\<close>

definition LOAD_STORE_OP_LIST :: "(string \<times> u32 \<times> u32 \<times> u32) list" where
  "LOAD_STORE_OP_LIST =
   [(''STRB_w'', 0, 0, 0), (''LDRB_w'', 0, 0, 1), (''LDRSB_x'', 0, 0, 2), (''LDRSB_w'', 0, 0, 3),
    (''STR_b'', 0, 1, 0), (''LDR_b'', 0, 1, 1), (''STR_q'', 0, 1, 2), (''LDR_q'', 0, 1, 3),
    (''STRH_w'', 1, 0, 0), (''LDRH_w'', 1, 0, 1), (''LDRSH_x'', 1, 0, 2), (''LDRSH_w'', 1, 0, 3),
    (''STR_h'', 1, 1, 0), (''LDR_h'', 1, 1, 1), (''STR_w'', 2, 0, 0), (''LDR_w'', 2, 0, 1),
    (''LDRSW'', 2, 0, 2), (''STR_s'', 2, 1, 0), (''LDR_s'', 2, 1, 1), (''STR_x'', 3, 0, 0),
    (''LDR_x'', 3, 0, 1), (''PRFM'', 3, 0, 2), (''STR_d'', 3, 1, 0), (''LDR_d'', 3, 1, 1)]"

definition LoadStoreOpSub :: "u32 \<Rightarrow> u32 \<Rightarrow> u32 \<Rightarrow> u32" where
  "LoadStoreOpSub sz V opc = LeftShift sz 2 30 OR LeftShift V 1 26 OR LeftShift opc 2 22"

definition LDR_x :: u32 where [arm64_const]: "LDR_x = LoadStoreOpSub 3 0 1"
definition STR_x :: u32 where [arm64_const]: "STR_x = LoadStoreOpSub 3 0 0"

definition LoadStoreRegisterOffsetFixed :: u32 where
  [arm64_const]: "LoadStoreRegisterOffsetFixed = 0x38200800"
definition LoadStoreRegisterOffsetOpSub :: "u32 \<Rightarrow> u32 \<Rightarrow> u32 \<Rightarrow> u32" where
  "LoadStoreRegisterOffsetOpSub sz V opc =
    LoadStoreRegisterOffsetFixed OR LeftShift sz 2 30 OR LeftShift V 1 26 OR LeftShift opc 2 22"

definition LoadStoreUnscaledOffsetFixed :: u32 where
  [arm64_const]: "LoadStoreUnscaledOffsetFixed = 0x38000000"
definition LoadStoreUnscaledOffsetOpSub :: "u32 \<Rightarrow> u32 \<Rightarrow> u32 \<Rightarrow> u32" where
  "LoadStoreUnscaledOffsetOpSub sz V opc =
    LoadStoreUnscaledOffsetFixed OR LeftShift sz 2 30 OR LeftShift V 1 26 OR LeftShift opc 2 22"

definition LoadStoreUnsignedOffsetFixed :: u32 where
  [arm64_const]: "LoadStoreUnsignedOffsetFixed = 0x39000000"
definition LoadStoreUnsignedOffsetFixedMask :: u32 where
  [arm64_const]: "LoadStoreUnsignedOffsetFixedMask = 0x3B000000"
definition LoadStoreUnsignedOffsetSub :: "u32 \<Rightarrow> u32 \<Rightarrow> u32 \<Rightarrow> u32" where
  "LoadStoreUnsignedOffsetSub sz V opc =
    LoadStoreUnsignedOffsetFixed OR LeftShift sz 2 30 OR LeftShift V 1 26 OR LeftShift opc 2 22"

definition LOAD_STORE_PAIR_OP_LIST :: "(string \<times> u32 \<times> u32 \<times> u32) list" where
  "LOAD_STORE_PAIR_OP_LIST =
   [(''STP_w'', 0, 0, 0), (''LDP_w'', 0, 0, 1), (''STP_s'', 0, 1, 0), (''LDP_s'', 0, 1, 1),
    (''LDPSW'', 1, 0, 1), (''STP_d'', 1, 1, 0), (''LDP_d'', 1, 1, 1), (''STP_x'', 2, 0, 0),
    (''LDP_x'', 2, 0, 1), (''STP_q'', 2, 1, 0), (''LDP_q'', 2, 1, 1)]"

definition LoadStorePairOpSub :: "u32 \<Rightarrow> u32 \<Rightarrow> u32 \<Rightarrow> u32" where
  "LoadStorePairOpSub opc V L = LeftShift opc 2 30 OR LeftShift V 1 26 OR LeftShift L 1 22"

definition STP_x :: u32 where [arm64_const]: "STP_x = LoadStorePairOpSub 2 0 0"
definition LDP_x :: u32 where [arm64_const]: "LDP_x = LoadStorePairOpSub 2 0 1"
definition STP_q :: u32 where [arm64_const]: "STP_q = LoadStorePairOpSub 2 1 0"
definition LDP_q :: u32 where [arm64_const]: "LDP_q = LoadStorePairOpSub 2 1 1"

definition LoadStorePairOffsetFixed :: u32 where [arm64_const]: "LoadStorePairOffsetFixed = 0x29000000"
definition LoadStorePairPostIndexFixed :: u32 where [arm64_const]: "LoadStorePairPostIndexFixed = 0x28800000"
definition LoadStorePairPreIndexFixed :: u32 where [arm64_const]: "LoadStorePairPreIndexFixed = 0x29800000"

definition LoadStorePairOffsetOpSub :: "u32 \<Rightarrow> u32 \<Rightarrow> u32 \<Rightarrow> u32" where
  "LoadStorePairOffsetOpSub opc V L =
    LoadStorePairOffsetFixed OR LeftShift opc 2 30 OR LeftShift V 1 26 OR LeftShift L 1 22"
definition LoadStorePairPostOpSub :: "u32 \<Rightarrow> u32 \<Rightarrow> u32 \<Rightarrow> u32" where
  "LoadStorePairPostOpSub opc V L =
    LoadStorePairPostIndexFixed OR LeftShift opc 2 30 OR LeftShift V 1 26 OR LeftShift L 1 22"
definition LoadStorePairPreOpSub :: "u32 \<Rightarrow> u32 \<Rightarrow> u32 \<Rightarrow> u32" where
  "LoadStorePairPreOpSub opc V L =
    LoadStorePairPreIndexFixed OR LeftShift opc 2 30 OR LeftShift V 1 26 OR LeftShift L 1 22"

section \<open>Data processing\<close>

definition SixtyFourBits :: u32 where [arm64_const]: "SixtyFourBits = 0x80000000"

definition MoveWideImmediateFixed :: u32 where [arm64_const]: "MoveWideImmediateFixed = 0x12800000"
definition MoveWideImmediateFixedMask :: u32 where [arm64_const]: "MoveWideImmediateFixedMask = 0x1F800000"
definition MOVN_op :: u32 where [arm64_const]: "MOVN_op = 0x00000000"
definition MOVZ_op :: u32 where [arm64_const]: "MOVZ_op = 0x40000000"
definition MOVK_op :: u32 where [arm64_const]: "MOVK_op = 0x60000000"

definition AddSubImmediateFixed :: u32 where [arm64_const]: "AddSubImmediateFixed = 0x11000000"
definition AddSubImmediateFixedMask :: u32 where [arm64_const]: "AddSubImmediateFixedMask = 0x1F000000"
definition AddSubImmediateOpSub :: "u32 \<Rightarrow> u32 \<Rightarrow> u32 \<Rightarrow> u32" where
  "AddSubImmediateOpSub sf p S =
    AddSubImmediateFixed OR LeftShift sf 1 31 OR LeftShift p 1 30 OR LeftShift S 1 29"
definition ADD_w_imm :: u32 where [arm64_const]: "ADD_w_imm = AddSubImmediateOpSub 0 0 0"
definition SUB_w_imm :: u32 where [arm64_const]: "SUB_w_imm = AddSubImmediateOpSub 0 1 0"
definition ADD_x_imm :: u32 where [arm64_const]: "ADD_x_imm = AddSubImmediateOpSub 1 0 0"
definition SUB_x_imm :: u32 where [arm64_const]: "SUB_x_imm = AddSubImmediateOpSub 1 1 0"

definition AddSubShiftedFixed :: u32 where [arm64_const]: "AddSubShiftedFixed = 0x0B000000"
definition AddSubShiftedOpSub :: "u32 \<Rightarrow> u32 \<Rightarrow> u32 \<Rightarrow> u32" where
  "AddSubShiftedOpSub sf p S =
    AddSubShiftedFixed OR LeftShift sf 1 31 OR LeftShift p 1 30 OR LeftShift S 1 29"
definition AddSubExtendedFixed :: u32 where [arm64_const]: "AddSubExtendedFixed = 0x0B200000"
definition AddSubExtendedOpSub :: "u32 \<Rightarrow> u32 \<Rightarrow> u32 \<Rightarrow> u32" where
  "AddSubExtendedOpSub sf p S =
    AddSubExtendedFixed OR LeftShift sf 1 31 OR LeftShift p 1 30 OR LeftShift S 1 29"

definition NOT_op :: u32 where [arm64_const]: "NOT_op = 0x00200000"
definition AND_op :: u32 where [arm64_const]: "AND_op = 0x00000000"
definition BIC_op :: u32 where [arm64_const]: "BIC_op = AND_op OR NOT_op"
definition ORR_op :: u32 where [arm64_const]: "ORR_op = 0x20000000"
definition ORN_op :: u32 where [arm64_const]: "ORN_op = ORR_op OR NOT_op"
definition EOR_op :: u32 where [arm64_const]: "EOR_op = 0x40000000"
definition EON_op :: u32 where [arm64_const]: "EON_op = EOR_op OR NOT_op"
definition ANDS_op :: u32 where [arm64_const]: "ANDS_op = 0x60000000"
definition BICS_op :: u32 where [arm64_const]: "BICS_op = ANDS_op OR NOT_op"

definition LogicalImmediateFixed :: u32 where [arm64_const]: "LogicalImmediateFixed = 0x12000000"
definition LogicalShiftedFixed :: u32 where [arm64_const]: "LogicalShiftedFixed = 0x0A000000"

definition PCRelAddressingFixed :: u32 where [arm64_const]: "PCRelAddressingFixed = 0x10000000"
definition PCRelAddressingFixedMask :: u32 where [arm64_const]: "PCRelAddressingFixedMask = 0x1F000000"
definition PCRelAddressingMask :: u32 where [arm64_const]: "PCRelAddressingMask = 0x9F000000"
definition ADR_op :: u32 where [arm64_const]: "ADR_op = PCRelAddressingFixed OR 0x00000000"
definition ADRP_op :: u32 where [arm64_const]: "ADRP_op = PCRelAddressingFixed OR 0x80000000"

lemmas arm64_op_defs = LoadRegLiteralSub_def LoadStoreOpSub_def LoadStoreUnsignedOffsetSub_def
  LoadStoreRegisterOffsetOpSub_def LoadStoreUnscaledOffsetOpSub_def
  LoadStorePairOpSub_def LoadStorePairOffsetOpSub_def LoadStorePairPostOpSub_def
  LoadStorePairPreOpSub_def AddSubImmediateOpSub_def AddSubShiftedOpSub_def AddSubExtendedOpSub_def

section \<open>Registers\<close>

datatype RegisterType = kRegister_32 | kRegister_64 | kRegister | kVRegister
  | kSIMD_FP_Register_8 | kSIMD_FP_Register_16 | kSIMD_FP_Register_32 | kSIMD_FP_Register_64
  | kSIMD_FP_Register_128 | kInvalid

fun RegisterType_value :: "RegisterType \<Rightarrow> nat" where
  "RegisterType_value kRegister_32 = 0"
| "RegisterType_value kRegister_64 = 1"
| "RegisterType_value kRegister = 2"
| "RegisterType_value kVRegister = 3"
| "RegisterType_value kSIMD_FP_Register_8 = 4"
| "RegisterType_value kSIMD_FP_Register_16 = 5"
| "RegisterType_value kSIMD_FP_Register_32 = 6"
| "RegisterType_value kSIMD_FP_Register_64 = 7"
| "RegisterType_value kSIMD_FP_Register_128 = 8"
| "RegisterType_value kInvalid = 9"

record CPURegister =
  reg_code :: u32
  reg_size :: nat
  reg_type :: RegisterType

definition X_reg :: "u32 \<Rightarrow> CPURegister" where
  "X_reg cd = \<lparr>reg_code = cd, reg_size = 64, reg_type = kRegister_64\<rparr>"

definition W_reg :: "u32 \<Rightarrow> CPURegister" where
  "W_reg cd = \<lparr>reg_code = cd, reg_size = 32, reg_type = kRegister_32\<rparr>"

definition Q_reg :: "u32 \<Rightarrow> CPURegister" where
  "Q_reg cd = \<lparr>reg_code = cd, reg_size = 128, reg_type = kSIMD_FP_Register_128\<rparr>"

definition InvalidRegister :: CPURegister where
  "InvalidRegister = \<lparr>reg_code = 0, reg_size = 0, reg_type = kInvalid\<rparr>"

definition reg_Is :: "CPURegister \<Rightarrow> CPURegister \<Rightarrow> bool" where
  "reg_Is r reg \<longleftrightarrow> reg_code reg = reg_code r"

definition Is64Bits :: "CPURegister \<Rightarrow> bool" where
  "Is64Bits r \<longleftrightarrow> reg_size r = 64"

definition IsRegister :: "CPURegister \<Rightarrow> bool" where
  "IsRegister r \<longleftrightarrow> RegisterType_value (reg_type r) < RegisterType_value kRegister"

definition IsVRegister :: "CPURegister \<Rightarrow> bool" where
  "IsVRegister r \<longleftrightarrow> RegisterType_value (reg_type r) > RegisterType_value kVRegister"

definition xzr :: CPURegister where "xzr = X_reg 31"
definition wzr :: CPURegister where "wzr = W_reg 31"
definition SP_reg :: CPURegister where "SP_reg = X_reg 31"
definition FP_reg :: CPURegister where "FP_reg = X_reg 29"
definition LR_reg :: CPURegister where "LR_reg = X_reg 30"

text \<open>The register fields of an encoding are five bits wide.\<close>

definition reg_ok :: "CPURegister \<Rightarrow> bool" where
  "reg_ok r \<longleftrightarrow> reg_code r < 32"

lemma reg_X_simps [simp]:
  "reg_code (X_reg n) = n" "reg_size (X_reg n) = 64" "reg_type (X_reg n) = kRegister_64" "Is64Bits (X_reg n)"
  "reg_ok (X_reg n) \<longleftrightarrow> n < 32"
  by (simp_all add: X_reg_def Is64Bits_def reg_ok_def)

lemma reg_W_simps [simp]:
  "reg_code (W_reg n) = n" "reg_size (W_reg n) = 32" "reg_type (W_reg n) = kRegister_32" "\<not> Is64Bits (W_reg n)"
  "reg_ok (W_reg n) \<longleftrightarrow> n < 32"
  by (simp_all add: W_reg_def Is64Bits_def reg_ok_def)

section \<open>The opcode tables\<close>

definition opcodes :: "(u32 \<Rightarrow> u32 \<Rightarrow> u32 \<Rightarrow> u32) \<Rightarrow> (string \<times> u32 \<times> u32 \<times> u32) list \<Rightarrow> u32 list" where
  "opcodes enc tab = map (\<lambda>(_, a, b, c). enc a b c) tab"

lemma LeftShift_numeral_simps [simp]:
  "LeftShift 0 b c = (0 :: 'a::len word)"
  by (simp add: LeftShift_def)

lemma load_store_tables_distinct:
  "distinct (opcodes LoadStoreOpSub LOAD_STORE_OP_LIST)"
  "distinct (opcodes LoadStoreUnsignedOffsetSub LOAD_STORE_OP_LIST)"
  "distinct (opcodes LoadStoreRegisterOffsetOpSub LOAD_STORE_OP_LIST)"
  "distinct (opcodes LoadStoreUnscaledOffsetOpSub LOAD_STORE_OP_LIST)"
  by (simp_all add: opcodes_def LOAD_STORE_OP_LIST_def arm64_op_defs arm64_const LeftShift_eq)

end
