(* ===== verification/Assembler_Label.thy ===== *)
theory Assembler_Label
  imports Dobby_Prelude
begin

text \<open>
  Labels of \<^verbatim>\<open>core/modules/assembler/assembler.{h,cc}\<close>. One signed integer encodes the
  state of a label: negative means bound, positive means linked (with the position of the last
  branch that waits for it), zero means unused. Positions are byte offsets into a code buffer;
  they stay below the 2 GiB limit of the buffer, so they are unbounded integers here.
\<close>

record label =
  lpos :: int
  near_link_pos :: int

definition Label :: label where
  "Label = \<lparr>lpos = 0, near_link_pos = 0\<rparr>"

definition is_bound :: "'a label_scheme \<Rightarrow> bool" where
  "is_bound l \<longleftrightarrow> lpos l < 0"

definition is_unused :: "'a label_scheme \<Rightarrow> bool" where
  "is_unused l \<longleftrightarrow> lpos l = 0 \<and> near_link_pos l = 0"

definition is_linked :: "'a label_scheme \<Rightarrow> bool" where
  "is_linked l \<longleftrightarrow> lpos l > 0"

definition is_near_linked :: "'a label_scheme \<Rightarrow> bool" where
  "is_near_linked l \<longleftrightarrow> near_link_pos l > 0"

definition pos :: "'a label_scheme \<Rightarrow> int" where
  "pos l = (if lpos l < 0 then - lpos l - 1 else if lpos l > 0 then lpos l - 1 else 0)"

definition bind_to :: "int \<Rightarrow> 'a label_scheme \<Rightarrow> 'a label_scheme" where
  "bind_to p l = l\<lparr>lpos := - p - 1\<rparr>"

definition link_to :: "int \<Rightarrow> 'a label_scheme \<Rightarrow> 'a label_scheme" where
  "link_to p l = l\<lparr>lpos := p + 1\<rparr>"

lemma pos_bind_to [simp]: "0 \<le> p \<Longrightarrow> pos (bind_to p l) = p"
  by (simp add: pos_def bind_to_def)

lemma pos_link_to [simp]: "0 \<le> p \<Longrightarrow> pos (link_to p l) = p"
  by (simp add: pos_def link_to_def)

lemma is_bound_bind_to [simp]: "0 \<le> p \<Longrightarrow> is_bound (bind_to p l)"
  by (simp add: is_bound_def bind_to_def)

lemma is_linked_link_to [simp]: "is_linked (link_to p l) \<longleftrightarrow> 0 \<le> p"
  by (auto simp: is_linked_def link_to_def)

lemma link_to_terminal: "\<not> is_linked (link_to (- 1) l)" "\<not> is_bound (link_to (- 1) l)"
  by (simp_all add: is_linked_def is_bound_def link_to_def)

lemma not_bound_and_linked: "\<not> (is_bound l \<and> is_linked l)"
  by (simp add: is_bound_def is_linked_def)

end
