(* ===== verification/Arm64_Assembler.thy ===== *)
theory Arm64_Assembler
  imports Arm64_Constants Assembler_Label
begin

text \<open>
  The ARM64 assembler: \<^verbatim>\<open>core/modules/assembler/assembler-arm64.{h,cc}\<close> and
  \<^verbatim>\<open>core/modules/codegen/codegen-arm64.cc\<close>. The state holds the bytes of the code buffer
  (a byte list, by the contract \<open>byte_sink\<close> of the code buffers), the realized address, the
  \<^verbatim>\<open>RelocLabelEntry\<close> objects allocated so far (a heap of labels, so that the entries of
  \<^verbatim>\<open>data_labels_\<close> and the pointers of the relocation code denote the same object) and the
  array \<^verbatim>\<open>data_labels_\<close> of pointers into it. An operation that ends in
  \<^verbatim>\<open>UNREACHABLE()\<close> on some path returns a \<open>res\<close>; the others are total.
\<close>

section \<open>Labels of literal loads\<close>

datatype PseudoLabelType = kLdrLiteral

record plabel = label +
  instructions :: "(int \<times> PseudoLabelType) list"

record reloc_label = plabel +
  data :: u64

definition PseudoLabel :: plabel where
  "PseudoLabel = \<lparr>lpos = 0, near_link_pos = 0, instructions = []\<rparr>"

definition RelocLabelEntry :: "u64 \<Rightarrow> reloc_label" where
  "RelocLabelEntry d = \<lparr>lpos = 0, near_link_pos = 0, instructions = [], data = d\<rparr>"

definition has_confused_instructions :: "'a plabel_scheme \<Rightarrow> bool" where
  "has_confused_instructions l \<longleftrightarrow> length (instructions l) > 0"

definition plink_to :: "int \<Rightarrow> PseudoLabelType \<Rightarrow> 'a plabel_scheme \<Rightarrow> 'a plabel_scheme" where
  "plink_to p ty l = l\<lparr>instructions := instructions l @ [(p, ty)]\<rparr>"

text \<open>Reading and patching one instruction of the buffer (\<^verbatim>\<open>LoadInst\<close>, \<^verbatim>\<open>FixBindLabel\<close>).\<close>

definition buf_load :: "bytes \<Rightarrow> int \<Rightarrow> u32 res" where
  "buf_load b offset =
    (if 0 \<le> offset \<and> nat offset + 4 \<le> length b then Inr (le_word (load_bytes b (nat offset) 4))
     else Inl OutOfBounds)"

definition buf_fix :: "bytes \<Rightarrow> int \<Rightarrow> u32 \<Rightarrow> bytes res" where
  "buf_fix b offset instr =
    (if 0 \<le> offset \<and> nat offset + 4 \<le> length b then Inr (store_bytes b (nat offset) (le_bytes 4 instr))
     else Inl OutOfBounds)"

definition link_ldr_literal :: "u32 \<Rightarrow> int \<Rightarrow> u32" where
  "link_ldr_literal inst32 offset =
    (inst32 AND 0xFF00001F) OR LeftShift (signed_drop_bit 2 (word_of_int offset :: u32)) 19 5"

fun link_instructions :: "int \<Rightarrow> (int \<times> PseudoLabelType) list \<Rightarrow> bytes \<Rightarrow> bytes res" where
  "link_instructions p [] b = Inr b"
| "link_instructions p ((position, kLdrLiteral) # is) b =
    bindr (buf_load b position) (\<lambda>inst32.
    bindr (buf_fix b position (link_ldr_literal inst32 (p - position))) (\<lambda>b.
    link_instructions p is b))"

definition link_confused_instructions :: "'a plabel_scheme \<Rightarrow> bytes \<Rightarrow> bytes res" where
  "link_confused_instructions l b = link_instructions (pos l) (instructions l) b"

section \<open>Operands\<close>

record Operand =
  op_immediate :: u64
  op_reg :: CPURegister
  op_shift :: Shift
  op_extend :: Extend
  op_shift_extend_imm :: u32

definition Operand_imm :: "u64 \<Rightarrow> Operand" where
  "Operand_imm imm = \<lparr>op_immediate = imm, op_reg = InvalidRegister, op_shift = NO_SHIFT,
     op_extend = NO_EXTEND, op_shift_extend_imm = 0\<rparr>"

definition Operand_shifted :: "CPURegister \<Rightarrow> Shift \<Rightarrow> u32 \<Rightarrow> Operand" where
  "Operand_shifted reg shift shift_imm = \<lparr>op_immediate = 0, op_reg = reg, op_shift = shift,
     op_extend = NO_EXTEND, op_shift_extend_imm = shift_imm\<rparr>"

definition Operand_extended :: "CPURegister \<Rightarrow> Extend \<Rightarrow> u32 \<Rightarrow> Operand" where
  "Operand_extended reg ext shift_imm = \<lparr>op_immediate = 0, op_reg = reg, op_shift = NO_SHIFT,
     op_extend = ext, op_shift_extend_imm = shift_imm\<rparr>"

definition IsImmediate :: "Operand \<Rightarrow> bool" where
  "IsImmediate opr \<longleftrightarrow> reg_Is (op_reg opr) InvalidRegister"

definition IsShiftedRegister :: "Operand \<Rightarrow> bool" where
  "IsShiftedRegister opr \<longleftrightarrow> op_shift opr \<noteq> NO_SHIFT"

definition IsExtendedRegister :: "Operand \<Rightarrow> bool" where
  "IsExtendedRegister opr \<longleftrightarrow> op_extend opr \<noteq> NO_EXTEND"

record MemOperand =
  mem_base :: CPURegister
  mem_regoffset :: CPURegister
  mem_offset :: u64
  mem_addrmode :: AddrMode
  mem_shift :: Shift
  mem_extend :: Extend
  mem_shift_extend_imm :: u32

definition MemOperand_imm :: "CPURegister \<Rightarrow> u64 \<Rightarrow> AddrMode \<Rightarrow> MemOperand" where
  "MemOperand_imm base offset addrmode = \<lparr>mem_base = base, mem_regoffset = InvalidRegister,
     mem_offset = offset, mem_addrmode = addrmode, mem_shift = NO_SHIFT, mem_extend = NO_EXTEND,
     mem_shift_extend_imm = 0\<rparr>"

definition MemOperand_extended :: "CPURegister \<Rightarrow> CPURegister \<Rightarrow> Extend \<Rightarrow> u32 \<Rightarrow> MemOperand" where
  "MemOperand_extended base regoffset ext ext_imm = \<lparr>mem_base = base,
     mem_regoffset = regoffset, mem_offset = 0, mem_addrmode = Offset, mem_shift = NO_SHIFT,
     mem_extend = ext, mem_shift_extend_imm = ext_imm\<rparr>"

definition MemOperand_shifted :: "CPURegister \<Rightarrow> CPURegister \<Rightarrow> Shift \<Rightarrow> u32 \<Rightarrow> MemOperand" where
  "MemOperand_shifted base regoffset shift shift_imm = \<lparr>mem_base = base,
     mem_regoffset = regoffset, mem_offset = 0, mem_addrmode = Offset, mem_shift = shift,
     mem_extend = NO_EXTEND, mem_shift_extend_imm = shift_imm\<rparr>"

definition IsImmediateOffset :: "MemOperand \<Rightarrow> bool" where
  "IsImmediateOffset a \<longleftrightarrow> mem_addrmode a = Offset"

definition IsRegisterOffset :: "MemOperand \<Rightarrow> bool" where
  "IsRegisterOffset a \<longleftrightarrow> mem_addrmode a = Offset"

definition IsPreIndex :: "MemOperand \<Rightarrow> bool" where
  "IsPreIndex a \<longleftrightarrow> mem_addrmode a = PreIndex"

definition IsPostIndex :: "MemOperand \<Rightarrow> bool" where
  "IsPostIndex a \<longleftrightarrow> mem_addrmode a = PostIndex"

section \<open>Encoding helpers\<close>

definition Low16Bits :: "u32 \<Rightarrow> u32" where
  "Low16Bits v = v AND 0xffff"

definition High16Bits :: "u32 \<Rightarrow> u32" where
  "High16Bits v = signed_drop_bit 16 v"

definition Low32Bits :: "u64 \<Rightarrow> u32" where
  "Low32Bits v = ucast v"

definition High32Bits :: "u64 \<Rightarrow> u32" where
  "High32Bits v = ucast (signed_drop_bit 32 v)"

definition TMP_REG_0 :: CPURegister where
  "TMP_REG_0 = X_reg 17"

definition Rd :: "CPURegister \<Rightarrow> u32" where "Rd r = push_bit kRdShift (reg_code r)"
definition Rt :: "CPURegister \<Rightarrow> u32" where "Rt r = push_bit kRtShift (reg_code r)"
definition Rt2 :: "CPURegister \<Rightarrow> u32" where "Rt2 r = push_bit kRt2Shift (reg_code r)"
definition Rn :: "CPURegister \<Rightarrow> u32" where "Rn r = push_bit kRnShift (reg_code r)"
definition Rm :: "CPURegister \<Rightarrow> u32" where "Rm r = push_bit kRmShift (reg_code r)"

definition OpEncode_sf :: "CPURegister \<Rightarrow> u32" where
  "OpEncode_sf r = (if Is64Bits r then LeftShift 1 1 31 else 0)"

definition OpEncode_V :: "CPURegister \<Rightarrow> u32" where
  "OpEncode_V r = (if IsVRegister r then LeftShift 1 1 26 else 0)"

definition OpEncode_L :: "bool \<Rightarrow> u32" where
  "OpEncode_L load_or_store = (if load_or_store then LeftShift 1 1 22 else 0)"

definition OpEncode_shift :: "Shift \<Rightarrow> u32" where
  "OpEncode_shift sh = LeftShift (shift_value sh) 2 22"

definition EncodeLogicalImmediate :: "CPURegister \<Rightarrow> CPURegister \<Rightarrow> Operand \<Rightarrow> u32" where
  "EncodeLogicalImmediate rd rn opr =
    (let imm = op_immediate opr;
         immr = ucast (sbits_m imm 0 5) :: u32;
         imms = ucast (sbits_m imm 6 11) :: u32 in
     OpEncode_sf rd OR LeftShift immr 6 16 OR LeftShift imms 6 10 OR Rd rd OR Rn rn)"

definition EncodeLogicalShift :: "CPURegister \<Rightarrow> CPURegister \<Rightarrow> Operand \<Rightarrow> u32" where
  "EncodeLogicalShift rd rn opr =
    (OpEncode_sf rd OR OpEncode_shift (op_shift opr) OR Rm (op_reg opr)
     OR LeftShift (op_shift_extend_imm opr) 6 10 OR Rn rn OR Rd rd)"

definition OpEncode_LoadStorePair :: "u32 \<Rightarrow> CPURegister \<Rightarrow> CPURegister \<Rightarrow> MemOperand \<Rightarrow> u32" where
  "OpEncode_LoadStorePair opcode rt rt2 a =
    (let opc = sbits_m opcode 30 31;
         scale = (if IsRegister rt then 2 + bit_m opc 1
                  else if IsVRegister rt then 2 + opc else 2);
         imm7 = ucast (signed_drop_bit (unat scale) (mem_offset a)) :: u32 in
     LeftShift imm7 7 15)"

definition OpEncode_scale :: "u32 \<Rightarrow> u32" where
  "OpEncode_scale opcode =
    (if opcode AND LoadStoreUnsignedOffsetFixed = LoadStoreUnsignedOffsetFixed
     then sbits_m opcode 30 31 else 0)"

section \<open>Assembler\<close>

record assembler =
  buf :: bytes
  realized_address :: addr
  heap :: "reloc_label list"
  data_labels :: "nat list option"

definition TurboAssembler :: "addr \<Rightarrow> assembler" where
  "TurboAssembler a = \<lparr>buf = [], realized_address = a, heap = [], data_labels = None\<rparr>"

definition pc_offset :: "assembler \<Rightarrow> int" where
  "pc_offset s = int (length (buf s))"

definition Emit :: "u32 \<Rightarrow> assembler \<Rightarrow> assembler" where
  "Emit v s = s\<lparr>buf := buf s @ le_bytes 4 v\<rparr>"

definition EmitInt64 :: "u64 \<Rightarrow> assembler \<Rightarrow> assembler" where
  "EmitInt64 v s = s\<lparr>buf := buf s @ le_bytes 8 v\<rparr>"

definition nop :: "assembler \<Rightarrow> assembler" where
  "nop s = Emit 0xD503201F s"

definition brk :: "u32 \<Rightarrow> assembler \<Rightarrow> assembler" where
  "brk c s = Emit (BRK_op OR LeftShift c 16 5) s"

definition ret :: "assembler \<Rightarrow> assembler" where
  "ret s = Emit 0xD65F03C0 s"

definition adrp :: "CPURegister \<Rightarrow> u64 \<Rightarrow> assembler \<Rightarrow> assembler" where
  "adrp rd imm s =
    (let immlo = LeftShift (sbits_m (signed_drop_bit 12 imm) 0 1) 2 29 :: u64;
         immhi = LeftShift (sbits_m (signed_drop_bit 12 imm) 2 20) 19 5 :: u64 in
     Emit (ucast (ucast (ADRP_op OR Rd rd) OR immlo OR immhi)) s)"

definition AddSubImmediate :: "CPURegister \<Rightarrow> CPURegister \<Rightarrow> Operand \<Rightarrow> u32 \<Rightarrow> assembler \<Rightarrow> assembler res" where
  "AddSubImmediate rd rn opr opcode s =
    (if IsImmediate opr
     then (let imm12 = ucast (LeftShift (op_immediate opr) 12 10) :: u32 in
           Inr (Emit (opcode OR Rd rd OR Rn rn OR imm12) s))
     else Inl Unreachable)"

definition add :: "CPURegister \<Rightarrow> CPURegister \<Rightarrow> u64 \<Rightarrow> assembler \<Rightarrow> assembler res" where
  "add rd rn imm s =
    (if Is64Bits rd \<and> Is64Bits rn then AddSubImmediate rd rn (Operand_imm imm) ADD_x_imm s
     else AddSubImmediate rd rn (Operand_imm imm) ADD_w_imm s)"

definition sub :: "CPURegister \<Rightarrow> CPURegister \<Rightarrow> u64 \<Rightarrow> assembler \<Rightarrow> assembler res" where
  "sub rd rn imm s =
    (if Is64Bits rd \<and> Is64Bits rn then AddSubImmediate rd rn (Operand_imm imm) SUB_x_imm s
     else AddSubImmediate rd rn (Operand_imm imm) SUB_w_imm s)"

definition b_imm :: "u64 \<Rightarrow> assembler \<Rightarrow> assembler" where
  "b_imm imm s = (let imm26 = ucast (sbits_m (signed_drop_bit 2 imm) 0 25) :: u32 in Emit (B_op OR imm26) s)"

definition LinkAndGetByteOffsetTo :: "'a label_scheme \<Rightarrow> assembler \<Rightarrow> int \<times> 'a label_scheme" where
  "LinkAndGetByteOffsetTo l s =
    (if is_bound l then (pos l - pc_offset s, l)
     else ((if is_linked l then pos l - pc_offset s else 0), link_to (pc_offset s) l))"

definition b_label :: "'a label_scheme \<Rightarrow> assembler \<Rightarrow> 'a label_scheme \<times> assembler" where
  "b_label l s = (let (offset, l) = LinkAndGetByteOffsetTo l s in (l, b_imm (word_of_int offset) s))"

definition br :: "CPURegister \<Rightarrow> assembler \<Rightarrow> assembler" where
  "br rn s = Emit (BR_op OR Rn rn) s"

definition blr :: "CPURegister \<Rightarrow> assembler \<Rightarrow> assembler" where
  "blr rn s = Emit (BLR_op OR Rn rn) s"

definition EmitLoadRegLiteral :: "LoadRegLiteralOp \<Rightarrow> CPURegister \<Rightarrow> u64 \<Rightarrow> assembler \<Rightarrow> assembler" where
  "EmitLoadRegLiteral opcode rt imm s =
    Emit (LoadRegLiteralOp_value opcode OR ucast (LeftShift imm 26 5) OR Rt rt) s"

definition ldr_literal :: "CPURegister \<Rightarrow> u64 \<Rightarrow> assembler \<Rightarrow> assembler res" where
  "ldr_literal rt imm s = (case reg_type rt of
     kRegister_32 \<Rightarrow> Inr (EmitLoadRegLiteral LDR_w_literal rt imm s)
   | kRegister_64 \<Rightarrow> Inr (EmitLoadRegLiteral LDR_x_literal rt imm s)
   | kSIMD_FP_Register_32 \<Rightarrow> Inr (EmitLoadRegLiteral LDR_s_literal rt imm s)
   | kSIMD_FP_Register_64 \<Rightarrow> Inr (EmitLoadRegLiteral LDR_d_literal rt imm s)
   | kSIMD_FP_Register_128 \<Rightarrow> Inr (EmitLoadRegLiteral LDR_q_literal rt imm s)
   | _ \<Rightarrow> Inl Unreachable)"

definition LoadStore :: "u32 \<Rightarrow> CPURegister \<Rightarrow> MemOperand \<Rightarrow> assembler \<Rightarrow> assembler res" where
  "LoadStore opcode rt a s =
    (if IsImmediateOffset a
     then (let imm12 = signed_drop_bit (unat (OpEncode_scale (LoadStoreUnsignedOffsetFixed OR opcode))) (mem_offset a) in
           Inr (Emit (LoadStoreUnsignedOffsetFixed OR opcode OR ucast (LeftShift imm12 12 10)
                      OR Rn (mem_base a) OR Rt rt) s))
     else Inl Unreachable)"

definition ldr_mem :: "CPURegister \<Rightarrow> MemOperand \<Rightarrow> assembler \<Rightarrow> assembler res" where
  "ldr_mem rt src s = LoadStore LDR_x rt src s"

definition str_mem :: "CPURegister \<Rightarrow> MemOperand \<Rightarrow> assembler \<Rightarrow> assembler res" where
  "str_mem rt src s = LoadStore STR_x rt src s"

definition LoadStorePair :: "u32 \<Rightarrow> CPURegister \<Rightarrow> CPURegister \<Rightarrow> MemOperand \<Rightarrow> assembler \<Rightarrow> assembler" where
  "LoadStorePair opcode rt rt2 a s =
    (let combine_fields_op = OpEncode_LoadStorePair opcode rt rt2 a OR Rt2 rt2 OR Rn (mem_base a) OR Rt rt;
         addrmodeop = (if IsImmediateOffset a then LoadStorePairOffsetFixed
                       else if IsPreIndex a then LoadStorePairPreIndexFixed
                       else LoadStorePairPostIndexFixed) in
     Emit (opcode OR addrmodeop OR combine_fields_op) s)"

definition ldp :: "CPURegister \<Rightarrow> CPURegister \<Rightarrow> MemOperand \<Rightarrow> assembler \<Rightarrow> assembler res" where
  "ldp rt rt2 src s =
    (if reg_type rt = kSIMD_FP_Register_128 then Inr (LoadStorePair LDP_q rt rt2 src s)
     else if reg_type rt = kRegister_64 then Inr (LoadStorePair LDP_x rt rt2 src s)
     else Inl Unreachable)"

definition stp :: "CPURegister \<Rightarrow> CPURegister \<Rightarrow> MemOperand \<Rightarrow> assembler \<Rightarrow> assembler res" where
  "stp rt rt2 dst s =
    (if reg_type rt = kSIMD_FP_Register_128 then Inr (LoadStorePair STP_q rt rt2 dst s)
     else if reg_type rt = kRegister_64 then Inr (LoadStorePair STP_x rt rt2 dst s)
     else Inl Unreachable)"

definition LogicalImmediate :: "CPURegister \<Rightarrow> CPURegister \<Rightarrow> Operand \<Rightarrow> u32 \<Rightarrow> assembler \<Rightarrow> assembler" where
  "LogicalImmediate rd rn opr opcode s = Emit (opcode OR EncodeLogicalImmediate rd rn opr) s"

definition LogicalShift :: "CPURegister \<Rightarrow> CPURegister \<Rightarrow> Operand \<Rightarrow> u32 \<Rightarrow> assembler \<Rightarrow> assembler" where
  "LogicalShift rd rn opr opcode s = Emit (opcode OR LogicalShiftedFixed OR EncodeLogicalShift rd rn opr) s"

definition Logical :: "CPURegister \<Rightarrow> CPURegister \<Rightarrow> Operand \<Rightarrow> u32 \<Rightarrow> assembler \<Rightarrow> assembler" where
  "Logical rd rn opr opcode s =
    (if IsImmediate opr then LogicalImmediate rd rn opr opcode s else LogicalShift rd rn opr opcode s)"

definition orr :: "CPURegister \<Rightarrow> CPURegister \<Rightarrow> Operand \<Rightarrow> assembler \<Rightarrow> assembler" where
  "orr rd rn opr s = Logical rd rn opr ORR_op s"

definition mov :: "CPURegister \<Rightarrow> CPURegister \<Rightarrow> assembler \<Rightarrow> assembler res" where
  "mov rd rn s =
    (if reg_Is rd SP_reg \<or> reg_Is rn SP_reg then add rd rn 0 s
     else if Is64Bits rd then Inr (orr rd xzr (Operand_shifted rn LSL 0) s)
     else Inr (orr rd wzr (Operand_shifted rn LSL 0) s))"

definition MoveWide :: "CPURegister \<Rightarrow> u64 \<Rightarrow> int \<Rightarrow> u32 \<Rightarrow> assembler \<Rightarrow> assembler" where
  "MoveWide rd imm shift opcode s =
    (let shift = (if shift > 0 then shift div 16 else 0);
         imm16 = ucast (LeftShift imm 16 5) :: u32 in
     Emit (MoveWideImmediateFixed OR opcode OR OpEncode_sf rd OR LeftShift (word_of_int shift) 2 21
           OR imm16 OR Rd rd) s)"

definition movk :: "CPURegister \<Rightarrow> u64 \<Rightarrow> int \<Rightarrow> assembler \<Rightarrow> assembler" where
  "movk rd imm shift s = MoveWide rd imm shift MOVK_op s"

definition movn :: "CPURegister \<Rightarrow> u64 \<Rightarrow> int \<Rightarrow> assembler \<Rightarrow> assembler" where
  "movn rd imm shift s = MoveWide rd imm shift MOVN_op s"

definition movz :: "CPURegister \<Rightarrow> u64 \<Rightarrow> int \<Rightarrow> assembler \<Rightarrow> assembler" where
  "movz rd imm shift s = MoveWide rd imm shift MOVZ_op s"

text \<open>
  \<^verbatim>\<open>Assembler::bind\<close>: the loop follows the chain of branches that wait for the label. Each
  round either ends the chain or moves to a strictly smaller position.
\<close>

function bind_chain :: "int \<Rightarrow> 'a label_scheme \<Rightarrow> bytes \<Rightarrow> ('a label_scheme \<times> bytes) res" where
  "bind_chain bound_pc l b =
    (if \<not> is_linked l then Inr (l, b)
     else
       (let linkpos = pos l in
        case buf_load b linkpos of
          Inl e \<Rightarrow> Inl e
        | Inr instr \<Rightarrow>
            (let branch = (instr AND UnconditionalBranchMask = UnconditionalBranchFixed);
                 offset = word_of_int (bound_pc - linkpos) :: u32;
                 imm26 = sbits_m (signed_drop_bit 2 offset) 0 25;
                 rewrite_inst = (instr AND 0xfc000000) OR LeftShift imm26 26 0;
                 prevlinkpos = (if branch then linkpos - 4 * uint (sbits_m instr 0 25) else 0) in
             case (if branch then buf_fix b linkpos rewrite_inst else Inr b) of
               Inl e \<Rightarrow> Inl e
             | Inr b \<Rightarrow>
                 bind_chain bound_pc
                   (if linkpos - prevlinkpos = 0 then link_to (- 1) l else link_to prevlinkpos l) b)))"
  by pat_completeness auto

lemma bind_chain_decreases:
  assumes "is_linked l"
    "prevlinkpos = (if branch then pos l - 4 * uint (w :: u32) else 0)"
  shows "nat (lpos (if pos l - prevlinkpos = 0 then link_to (- 1) l else link_to prevlinkpos l)) < nat (lpos l)"
proof -
  have "uint w = 0 \<or> 0 < uint w"
    using uint_ge_0 [of w] by linarith
  then show ?thesis
    using assms by (auto simp: is_linked_def pos_def link_to_def)
qed

termination bind_chain
proof (relation "measure (\<lambda>(_, l, _). nat (lpos l))", goal_cases)
  case 1
  then show ?case by simp
next
  case (2 bound_pc l b linkpos instr branch offset imm26 rewrite_inst prevlinkpos b')
  then have "is_linked l" "linkpos = pos l"
    "prevlinkpos = (if branch then pos l - 4 * uint (sbits_m instr 0 25) else 0)"
    by simp_all
  with bind_chain_decreases [OF this(1,3)] show ?case
    by (simp only: in_measure prod.case)
qed

declare bind_chain.simps [simp del]

definition bind :: "'a label_scheme \<Rightarrow> assembler \<Rightarrow> ('a label_scheme \<times> assembler) res" where
  "bind l s = bindr (bind_chain (pc_offset s) l (buf s))
     (\<lambda>(l, b). Inr (bind_to (pc_offset s) l, s\<lparr>buf := b\<rparr>))"

section \<open>TurboAssembler\<close>

definition Mov :: "CPURegister \<Rightarrow> u64 \<Rightarrow> assembler \<Rightarrow> assembler" where
  "Mov rd imm s =
    (let w0 = Low32Bits imm; w1 = High32Bits imm;
         h0 = ucast (Low16Bits w0) :: u16; h1 = ucast (High16Bits w0) :: u16;
         h2 = ucast (Low16Bits w1) :: u16; h3 = ucast (High16Bits w1) :: u16 in
     movk rd (ucast h3) 48 (movk rd (ucast h2) 32 (movk rd (ucast h1) 16 (movz rd (ucast h0) 0 s))))"

definition CallFunction :: "u64 \<Rightarrow> assembler \<Rightarrow> assembler" where
  "CallFunction function s = blr TMP_REG_0 (Mov TMP_REG_0 function s)"

definition Ldr :: "CPURegister \<Rightarrow> 'a plabel_scheme \<Rightarrow> assembler \<Rightarrow> ('a plabel_scheme \<times> assembler) res" where
  "Ldr rt l s =
    (if is_bound l then bindr (ldr_literal rt (word_of_int (pos l - pc_offset s)) s) (\<lambda>s. Inr (l, s))
     else bindr (ldr_literal rt 0 s) (\<lambda>s'. Inr (plink_to (pc_offset s) kLdrLiteral l, s')))"

definition AdrpAdd :: "CPURegister \<Rightarrow> u64 \<Rightarrow> u64 \<Rightarrow> assembler \<Rightarrow> assembler res" where
  "AdrpAdd rd from_addr to_addr s =
    (let from_PAGE = ALIGN_FLOOR from_addr 0x1000;
         to_PAGE = ALIGN_FLOOR to_addr 0x1000;
         to_PAGEOFF = to_addr mod 0x1000 in
     add rd rd to_PAGEOFF (adrp rd (to_PAGE - from_PAGE) s))"

definition PseudoBind :: "'a plabel_scheme \<Rightarrow> assembler \<Rightarrow> ('a plabel_scheme \<times> assembler) res" where
  "PseudoBind l s =
    (let l = bind_to (pc_offset s) l in
     if has_confused_instructions l
     then bindr (link_confused_instructions l (buf s)) (\<lambda>b. Inr (l, s\<lparr>buf := b\<rparr>))
     else Inr (l, s))"

text \<open>Access to the label objects through their pointers.\<close>

definition label_at :: "nat \<Rightarrow> assembler \<Rightarrow> reloc_label res" where
  "label_at i s = (if i < length (heap s) then Inr (heap s ! i) else Inl OutOfBounds)"

definition set_label :: "nat \<Rightarrow> reloc_label \<Rightarrow> assembler \<Rightarrow> assembler" where
  "set_label i l s = s\<lparr>heap := (heap s)[i := l]\<rparr>"

definition new_RelocLabelEntry :: "u64 \<Rightarrow> assembler \<Rightarrow> nat \<times> assembler" where
  "new_RelocLabelEntry d s = (length (heap s), s\<lparr>heap := heap s @ [RelocLabelEntry d]\<rparr>)"

definition Ldr_ref :: "CPURegister \<Rightarrow> nat \<Rightarrow> assembler \<Rightarrow> assembler res" where
  "Ldr_ref rt i s = bindr (label_at i s) (\<lambda>l. bindr (Ldr rt l s) (\<lambda>(l, s). Inr (set_label i l s)))"

definition AppendRelocLabelEntry :: "nat \<Rightarrow> assembler \<Rightarrow> assembler" where
  "AppendRelocLabelEntry i s =
    s\<lparr>data_labels := Some ((case data_labels s of None \<Rightarrow> [] | Some ls \<Rightarrow> ls) @ [i])\<rparr>"

fun RelocBind_loop :: "nat list \<Rightarrow> assembler \<Rightarrow> assembler res" where
  "RelocBind_loop [] s = Inr s"
| "RelocBind_loop (i # is) s =
    bindr (label_at i s) (\<lambda>l.
    bindr (PseudoBind l s) (\<lambda>(l, s).
    RelocBind_loop is (EmitInt64 (data l) (set_label i l s))))"

definition RelocBind :: "assembler \<Rightarrow> assembler res" where
  "RelocBind s = (case data_labels s of None \<Rightarrow> Inr s | Some ls \<Rightarrow> RelocBind_loop ls s)"

text \<open>\<^verbatim>\<open>CodeGen::LiteralLdrBranch\<close>: load the address that follows the branch, and jump to it.\<close>

definition LiteralLdrBranch :: "u64 \<Rightarrow> assembler \<Rightarrow> assembler res" where
  "LiteralLdrBranch address s =
    bindr (Ldr TMP_REG_0 PseudoLabel s) (\<lambda>(address_ptr, s).
    bindr (PseudoBind address_ptr (br TMP_REG_0 s)) (\<lambda>(_, s).
    Inr (EmitInt64 address s)))"

end
