(* ===== verification/Arm64_Isa.thy ===== *)
theory Arm64_Isa
  imports Dobby_Prelude
begin

text \<open>
  A reference semantics for the part of the A64 instruction set that the hook engine emits or
  rewrites, written from the architecture manual and independently of the engine's own
  constants: a decoder from instruction words and the effect of each instruction on the
  general registers, the program counter and memory. It is the specification that the
  assembler, the relocator and the trampolines are proved against; it models no code of the
  repository.
\<close>

datatype insn =
    I_B u64
  | I_BL u64
  | I_BR u32
  | I_BLR u32
  | I_LDR_lit32 u32 u64
  | I_LDR_lit64 u32 u64
  | I_LDRSW_lit u32 u64
  | I_PRFM_lit u64
  | I_LDR_simd_lit u32 u32 u64
  | I_ADR u32 u64
  | I_ADRP u32 u64
  | I_MOVZ bool u32 u64 u32
  | I_MOVK bool u32 u64 u32
  | I_MOVN bool u32 u64 u32
  | I_ADD_imm bool u32 u32 u64
  | I_SUB_imm bool u32 u32 u64
  | I_LDR64 u32 u32 u64
  | I_STR64 u32 u32 u64
  | I_TB bool u32 u32 u64
  | I_CB bool bool u32 u64
  | I_Bcond u32 u64
  | I_Other u32

text \<open>\<open>sext n w\<close> reads the low \<open>n\<close> bits of \<open>w\<close> as a signed number of 64 bits.\<close>

definition sext :: "nat \<Rightarrow> u32 \<Rightarrow> u64" where
  "sext n w = signed_take_bit (n - 1) (ucast w)"

definition a64_decode :: "u32 \<Rightarrow> insn" where
  "a64_decode w =
    (if w AND 0xFC000000 = 0x14000000 then I_B (push_bit 2 (sext 26 (field 0 26 w)))
     else if w AND 0xFC000000 = 0x94000000 then I_BL (push_bit 2 (sext 26 (field 0 26 w)))
     else if w AND 0xFFFFFC1F = 0xD61F0000 then I_BR (field 5 5 w)
     else if w AND 0xFFFFFC1F = 0xD63F0000 then I_BLR (field 5 5 w)
     else if w AND 0xFF000000 = 0x18000000 then I_LDR_lit32 (field 0 5 w) (push_bit 2 (sext 19 (field 5 19 w)))
     else if w AND 0xFF000000 = 0x58000000 then I_LDR_lit64 (field 0 5 w) (push_bit 2 (sext 19 (field 5 19 w)))
     else if w AND 0xFF000000 = 0x98000000 then I_LDRSW_lit (field 0 5 w) (push_bit 2 (sext 19 (field 5 19 w)))
     else if w AND 0xFF000000 = 0xD8000000 then I_PRFM_lit (push_bit 2 (sext 19 (field 5 19 w)))
     else if w AND 0x3F000000 = 0x1C000000
       then I_LDR_simd_lit (field 30 2 w) (field 0 5 w) (push_bit 2 (sext 19 (field 5 19 w)))
     else if w AND 0x9F000000 = 0x10000000
       then I_ADR (field 0 5 w) (sext 21 (push_bit 2 (field 5 19 w) OR field 29 2 w))
     else if w AND 0x9F000000 = 0x90000000
       then I_ADRP (field 0 5 w) (push_bit 12 (sext 21 (push_bit 2 (field 5 19 w) OR field 29 2 w)))
     else if w AND 0x7F800000 = 0x52800000
       then I_MOVZ (bit w 31) (field 0 5 w) (ucast (field 5 16 w)) (field 21 2 w)
     else if w AND 0x7F800000 = 0x72800000
       then I_MOVK (bit w 31) (field 0 5 w) (ucast (field 5 16 w)) (field 21 2 w)
     else if w AND 0x7F800000 = 0x12800000
       then I_MOVN (bit w 31) (field 0 5 w) (ucast (field 5 16 w)) (field 21 2 w)
     else if w AND 0x7FC00000 = 0x11000000
       then I_ADD_imm (bit w 31) (field 0 5 w) (field 5 5 w) (ucast (field 10 12 w))
     else if w AND 0x7FC00000 = 0x51000000
       then I_SUB_imm (bit w 31) (field 0 5 w) (field 5 5 w) (ucast (field 10 12 w))
     else if w AND 0xFFC00000 = 0xF9400000
       then I_LDR64 (field 0 5 w) (field 5 5 w) (push_bit 3 (ucast (field 10 12 w)))
     else if w AND 0xFFC00000 = 0xF9000000
       then I_STR64 (field 0 5 w) (field 5 5 w) (push_bit 3 (ucast (field 10 12 w)))
     else if w AND 0x7E000000 = 0x36000000
       then I_TB (bit w 24) (field 0 5 w) (push_bit 5 (field 31 1 w) OR field 19 5 w)
              (push_bit 2 (sext 14 (field 5 14 w)))
     else if w AND 0x7E000000 = 0x34000000
       then I_CB (bit w 24) (bit w 31) (field 0 5 w) (push_bit 2 (sext 19 (field 5 19 w)))
     else if w AND 0xFF000010 = 0x54000000
       then I_Bcond (field 0 4 w) (push_bit 2 (sext 19 (field 5 19 w)))
     else I_Other w)"

section \<open>Effect of an instruction\<close>

record flags =
  fN :: bool
  fZ :: bool
  fC :: bool
  fV :: bool

record a64 =
  xr :: "u32 \<Rightarrow> u64"
  sp :: u64
  pc :: u64
  mem :: "u64 \<Rightarrow> u8"
  nzcv :: flags

definition rx :: "a64 \<Rightarrow> u32 \<Rightarrow> u64" where
  "rx s n = (if n = 31 then 0 else xr s n)"

definition rxsp :: "a64 \<Rightarrow> u32 \<Rightarrow> u64" where
  "rxsp s n = (if n = 31 then sp s else xr s n)"

definition wx :: "u32 \<Rightarrow> u64 \<Rightarrow> a64 \<Rightarrow> a64" where
  "wx n v s = (if n = 31 then s else s\<lparr>xr := (xr s)(n := v)\<rparr>)"

definition wxsp :: "u32 \<Rightarrow> u64 \<Rightarrow> a64 \<Rightarrow> a64" where
  "wxsp n v s = (if n = 31 then s\<lparr>sp := v\<rparr> else s\<lparr>xr := (xr s)(n := v)\<rparr>)"

definition next_pc :: "a64 \<Rightarrow> a64" where
  "next_pc s = s\<lparr>pc := pc s + 4\<rparr>"

definition jump :: "u64 \<Rightarrow> a64 \<Rightarrow> a64" where
  "jump a s = s\<lparr>pc := a\<rparr>"

definition cond_base :: "u32 \<Rightarrow> flags \<Rightarrow> bool" where
  "cond_base c f =
    (let k = drop_bit 1 c in
     if k = 0 then fZ f else if k = 1 then fC f else if k = 2 then fN f else if k = 3 then fV f
     else if k = 4 then fC f \<and> \<not> fZ f else if k = 5 then fN f = fV f
     else if k = 6 then fN f = fV f \<and> \<not> fZ f else True)"

definition cond_holds :: "u32 \<Rightarrow> flags \<Rightarrow> bool" where
  "cond_holds c f = (if bit c 0 \<and> c \<noteq> 15 then \<not> cond_base c f else cond_base c f)"

text \<open>
  \<open>other w\<close> is the effect of an instruction outside the modelled set on everything but the
  program counter, which such an instruction advances; SIMD registers are not part of the state.
\<close>

definition opsize :: "bool \<Rightarrow> u64 \<Rightarrow> u64" where
  "opsize sf v = (if sf then v else take_bit 32 v)"

definition exec :: "(u32 \<Rightarrow> a64 \<Rightarrow> a64) \<Rightarrow> insn \<Rightarrow> a64 \<Rightarrow> a64" where
  "exec other i s = (case i of
     I_B off \<Rightarrow> jump (pc s + off) s
   | I_BL off \<Rightarrow> jump (pc s + off) (wx 30 (pc s + 4) s)
   | I_BR n \<Rightarrow> jump (rx s n) s
   | I_BLR n \<Rightarrow> jump (rx s n) (wx 30 (pc s + 4) s)
   | I_LDR_lit32 t off \<Rightarrow> next_pc (wx t (ucast (le_word (ld 4 (mem s) (pc s + off)) :: u32)) s)
   | I_LDR_lit64 t off \<Rightarrow> next_pc (wx t (le_word (ld 8 (mem s) (pc s + off))) s)
   | I_LDRSW_lit t off \<Rightarrow> next_pc (wx t (scast (le_word (ld 4 (mem s) (pc s + off)) :: u32)) s)
   | I_PRFM_lit off \<Rightarrow> next_pc s
   | I_LDR_simd_lit k t off \<Rightarrow> next_pc s
   | I_ADR d off \<Rightarrow> next_pc (wx d (pc s + off) s)
   | I_ADRP d off \<Rightarrow> next_pc (wx d ((pc s AND NOT 0xFFF) + off) s)
   | I_MOVZ sf d imm hw \<Rightarrow> next_pc (wx d (opsize sf (push_bit (16 * unat hw) imm)) s)
   | I_MOVK sf d imm hw \<Rightarrow>
       next_pc (wx d (opsize sf ((rx s d AND NOT (push_bit (16 * unat hw) 0xFFFF)) OR push_bit (16 * unat hw) imm)) s)
   | I_MOVN sf d imm hw \<Rightarrow> next_pc (wx d (opsize sf (NOT (push_bit (16 * unat hw) imm))) s)
   | I_ADD_imm sf d n imm \<Rightarrow> next_pc (wxsp d (opsize sf (rxsp s n + imm)) s)
   | I_SUB_imm sf d n imm \<Rightarrow> next_pc (wxsp d (opsize sf (rxsp s n - imm)) s)
   | I_LDR64 t n off \<Rightarrow> next_pc (wx t (le_word (ld 8 (mem s) (rxsp s n + off))) s)
   | I_STR64 t n off \<Rightarrow>
       next_pc (s\<lparr>mem := (\<lambda>a. if unat (a - (rxsp s n + off)) < 8
                            then byte_of (unat (a - (rxsp s n + off))) (rx s t) else mem s a)\<rparr>)
   | I_TB nz t k off \<Rightarrow> if bit (rx s t) (unat k) = nz then jump (pc s + off) s else next_pc s
   | I_CB nz sf t off \<Rightarrow>
       (let v = (if sf then rx s t else ucast (ucast (rx s t) :: u32)) in
        if (v \<noteq> 0) = nz then jump (pc s + off) s else next_pc s)
   | I_Bcond c off \<Rightarrow> if cond_holds c (nzcv s) then jump (pc s + off) s else next_pc s
   | I_Other w \<Rightarrow> next_pc (other w s))"

definition step :: "(u32 \<Rightarrow> a64 \<Rightarrow> a64) \<Rightarrow> a64 \<Rightarrow> a64" where
  "step other s = exec other (a64_decode (le_word (ld 4 (mem s) (pc s)))) s"

fun steps :: "(u32 \<Rightarrow> a64 \<Rightarrow> a64) \<Rightarrow> nat \<Rightarrow> a64 \<Rightarrow> a64" where
  "steps other 0 s = s"
| "steps other (Suc n) s = steps other n (step other s)"

lemma steps_add: "steps other (m + n) s = steps other n (steps other m s)"
  by (induction m arbitrary: s) simp_all

lemma wx_regs [simp]:
  "wx 17 v s = s\<lparr>xr := (xr s)(17 := v)\<rparr>" "wx 30 v s = s\<lparr>xr := (xr s)(30 := v)\<rparr>" "rx s 17 = xr s 17"
  by (simp_all add: wx_def rx_def)

lemma steps_unfold:
  "steps other 1 s = step other s"
  "steps other 2 s = step other (step other s)"
  "steps other 3 s = steps other 2 (step other s)"
  "steps other 5 s = step other (steps other 4 s)"
  by (simp_all add: numeral_eq_Suc)

lemma step_word:
  assumes "loaded (mem s) (pc s) (le_bytes 4 w)"
  shows "step other s = exec other (a64_decode w) s"
  using loaded_ld [OF assms] by (simp add: step_def bytes)

section \<open>Decoding by class\<close>

lemma decode_B:
  assumes a: "w AND 0xFC000000 = 0x14000000"
  shows "a64_decode w = I_B (push_bit 2 (sext 26 (field 0 26 w)))"
  by (simp add: a64_decode_def a and_clash [OF a])

lemma decode_BL:
  assumes a: "w AND 0xFC000000 = 0x94000000"
  shows "a64_decode w = I_BL (push_bit 2 (sext 26 (field 0 26 w)))"
  by (simp add: a64_decode_def a and_clash [OF a])

lemma decode_BR:
  assumes a: "w AND 0xFFFFFC1F = 0xD61F0000"
  shows "a64_decode w = I_BR (field 5 5 w)"
  by (simp add: a64_decode_def a and_clash [OF a])

lemma decode_BLR:
  assumes a: "w AND 0xFFFFFC1F = 0xD63F0000"
  shows "a64_decode w = I_BLR (field 5 5 w)"
  by (simp add: a64_decode_def a and_clash [OF a])

lemma decode_LDR_lit32:
  assumes a: "w AND 0xFF000000 = 0x18000000"
  shows "a64_decode w = I_LDR_lit32 (field 0 5 w) (push_bit 2 (sext 19 (field 5 19 w)))"
  by (simp add: a64_decode_def a and_clash [OF a])

lemma decode_LDR_lit64:
  assumes a: "w AND 0xFF000000 = 0x58000000"
  shows "a64_decode w = I_LDR_lit64 (field 0 5 w) (push_bit 2 (sext 19 (field 5 19 w)))"
  by (simp add: a64_decode_def a and_clash [OF a])

lemma decode_ADR:
  assumes a: "w AND 0x9F000000 = 0x10000000"
  shows "a64_decode w = I_ADR (field 0 5 w) (sext 21 (push_bit 2 (field 5 19 w) OR field 29 2 w))"
  by (simp add: a64_decode_def a and_clash [OF a])

lemma decode_ADRP:
  assumes a: "w AND 0x9F000000 = 0x90000000"
  shows "a64_decode w = I_ADRP (field 0 5 w) (push_bit 12 (sext 21 (push_bit 2 (field 5 19 w) OR field 29 2 w)))"
  by (simp add: a64_decode_def a and_clash [OF a])

lemma decode_MOVZ:
  assumes a: "w AND 0x7F800000 = 0x52800000"
  shows "a64_decode w = I_MOVZ (bit w 31) (field 0 5 w) (ucast (field 5 16 w)) (field 21 2 w)"
  by (simp add: a64_decode_def a and_clash [OF a])

lemma decode_MOVK:
  assumes a: "w AND 0x7F800000 = 0x72800000"
  shows "a64_decode w = I_MOVK (bit w 31) (field 0 5 w) (ucast (field 5 16 w)) (field 21 2 w)"
  by (simp add: a64_decode_def a and_clash [OF a])

lemma decode_ADD_imm:
  assumes a: "w AND 0x7FC00000 = 0x11000000"
  shows "a64_decode w = I_ADD_imm (bit w 31) (field 0 5 w) (field 5 5 w) (ucast (field 10 12 w))"
  by (simp add: a64_decode_def a and_clash [OF a])

lemma decode_LDR64:
  assumes a: "w AND 0xFFC00000 = 0xF9400000"
  shows "a64_decode w = I_LDR64 (field 0 5 w) (field 5 5 w) (push_bit 3 (ucast (field 10 12 w)))"
  by (simp add: a64_decode_def a and_clash [OF a])

lemma decode_STR64:
  assumes a: "w AND 0xFFC00000 = 0xF9000000"
  shows "a64_decode w = I_STR64 (field 0 5 w) (field 5 5 w) (push_bit 3 (ucast (field 10 12 w)))"
  by (simp add: a64_decode_def a and_clash [OF a])

lemma decode_TB:
  assumes a: "w AND 0x7E000000 = 0x36000000"
  shows "a64_decode w = I_TB (bit w 24) (field 0 5 w) (push_bit 5 (field 31 1 w) OR field 19 5 w)
      (push_bit 2 (sext 14 (field 5 14 w)))"
  by (simp add: a64_decode_def a and_clash [OF a])

lemma decode_CB:
  assumes a: "w AND 0x7E000000 = 0x34000000"
  shows "a64_decode w = I_CB (bit w 24) (bit w 31) (field 0 5 w) (push_bit 2 (sext 19 (field 5 19 w)))"
  by (simp add: a64_decode_def a and_clash [OF a])

lemma decode_Bcond:
  assumes a: "w AND 0xFF000010 = 0x54000000"
  shows "a64_decode w = I_Bcond (field 0 4 w) (push_bit 2 (sext 19 (field 5 19 w)))"
  by (simp add: a64_decode_def a and_clash [OF a])

end
