(* ===== verification/Arm64_Codegen.thy ===== *)
theory Arm64_Codegen
  imports Arm64_Assembler Arm64_Isa
begin

text \<open>
  Correctness of the ARM64 assembler against the reference semantics: every word it emits
  decodes to the intended instruction, and the multi-instruction sequences of
  \<^verbatim>\<open>TurboAssembler\<close> and \<^verbatim>\<open>CodeGen\<close> (\<^verbatim>\<open>Mov\<close>, \<^verbatim>\<open>AdrpAdd\<close>,
  \<^verbatim>\<open>LiteralLdrBranch\<close>, labels) have the intended effect when they are executed.
\<close>

section \<open>Emitted words\<close>

lemma take5: "n < 32 \<Longrightarrow> take_bit 5 n = (n :: u32)"
  by (rule take_bit_small) (simp add: word_less_nat_alt)
 

lemma reg_fields:
  assumes "reg_ok r"
  shows "Rd r = take_bit 5 (reg_code r)" "Rt r = take_bit 5 (reg_code r)"
    "Rn r = push_bit 5 (take_bit 5 (reg_code r))" "Rm r = push_bit 16 (take_bit 5 (reg_code r))"
    "Rt2 r = push_bit 10 (take_bit 5 (reg_code r))"
  using take5 [of "reg_code r"] assms
  by (simp_all add: Rd_def Rt_def Rn_def Rm_def Rt2_def arm64_const reg_ok_def)

lemma take_code: "reg_ok r \<Longrightarrow> take_bit 5 (reg_code r) = reg_code r"
  by (simp add: reg_ok_def take5)

lemma ucast_LeftShift:
  "ucast (LeftShift (a :: u64) b c) = LeftShift (ucast a :: u32) b c"
  unfolding LeftShift_eq by (intro bit_word_eqI) (auto simp: bit_simps)

lemmas encoding_simps = reg_fields arm64_const fields LeftShift_eq
  arm64_op_defs OpEncode_sf_def

lemma enc_BR:
  "reg_ok r \<Longrightarrow> a64_decode (BR_op OR Rn r)
    = I_BR (take_bit 5 (reg_code r))"
  by (subst decode_BR) (simp_all add: encoding_simps)

lemma enc_BLR:
  "reg_ok r \<Longrightarrow> a64_decode (BLR_op OR Rn r)
    = I_BLR (take_bit 5 (reg_code r))"
  by (subst decode_BLR) (simp_all add: encoding_simps)

lemma enc_LDR_literal:
  "reg_ok r \<Longrightarrow> a64_decode (LoadRegLiteralOp_value LDR_x_literal OR LeftShift imm 19 5 OR Rt r)
    = I_LDR_lit64 (take_bit 5 (reg_code r)) (push_bit 2 (sext 19 (take_bit 19 imm)))"
  by (subst decode_LDR_lit64) (simp_all add: encoding_simps)

lemma enc_MOVZ:
  "reg_ok r \<Longrightarrow> Is64Bits r \<Longrightarrow> a64_decode (MoveWideImmediateFixed OR MOVZ_op OR OpEncode_sf r OR LeftShift sh 2 21
           OR LeftShift imm 16 5 OR Rd r)
    = I_MOVZ True (take_bit 5 (reg_code r)) (ucast (take_bit 16 imm)) (take_bit 2 sh)"
  by (subst decode_MOVZ) (simp_all add: encoding_simps bit_simps)

lemma enc_MOVK:
  "reg_ok r \<Longrightarrow> Is64Bits r \<Longrightarrow> a64_decode (MoveWideImmediateFixed OR MOVK_op OR OpEncode_sf r OR LeftShift sh 2 21
           OR LeftShift imm 16 5 OR Rd r)
    = I_MOVK True (take_bit 5 (reg_code r)) (ucast (take_bit 16 imm)) (take_bit 2 sh)"
  by (subst decode_MOVK) (simp_all add: encoding_simps bit_simps)

lemma enc_ADD:
  "reg_ok rd \<Longrightarrow> reg_ok rn \<Longrightarrow> a64_decode (ADD_x_imm OR Rd rd OR Rn rn OR LeftShift imm 12 10)
    = I_ADD_imm True (take_bit 5 (reg_code rd)) (take_bit 5 (reg_code rn)) (ucast (take_bit 12 imm))"
  by (subst decode_ADD_imm) (simp_all add: encoding_simps bit_simps)

lemma enc_LDR:
  "reg_ok rt \<Longrightarrow> reg_ok rn \<Longrightarrow> a64_decode (LoadStoreUnsignedOffsetFixed OR LDR_x OR LeftShift imm 12 10
                      OR Rn rn OR Rt rt)
    = I_LDR64 (take_bit 5 (reg_code rt)) (take_bit 5 (reg_code rn)) (push_bit 3 (ucast (take_bit 12 imm)))"
  by (subst decode_LDR64) (simp_all add: encoding_simps bit_simps)

lemma enc_ADRP:
  "reg_ok rd \<Longrightarrow> a64_decode (ADRP_op OR Rd rd OR LeftShift lo 2 29 OR LeftShift hi 19 5)
    = I_ADRP (take_bit 5 (reg_code rd)) (push_bit 12 (sext 21 (push_bit 2 (take_bit 19 hi) OR take_bit 2 lo)))"
  by (subst decode_ADRP) (simp_all add: encoding_simps)

lemma enc_B:
  "a64_decode (B_op OR take_bit 26 imm)
    = I_B (push_bit 2 (sext 26 (take_bit 26 imm)))"
  by (subst decode_B) (simp_all add: encoding_simps)

section \<open>Word lists in the buffer\<close>

definition wbytes :: "u32 list \<Rightarrow> bytes" where
  "wbytes ws = concat (map (le_bytes 4) ws)"

lemma wbytes_simps [simp]:
  "wbytes [] = []"
  "wbytes (w # ws) = le_bytes 4 w @ wbytes ws"
  "wbytes (ws @ vs) = wbytes ws @ wbytes vs"
  by (simp_all add: wbytes_def)

lemma length_wbytes [simp]: "length (wbytes ws) = 4 * length ws"
  by (induction ws) simp_all

lemma buf_Emit [simp]: "buf (Emit v s) = buf s @ le_bytes 4 v"
  by (simp add: Emit_def)

lemma Emit_frame [simp]:
  "heap (Emit v s) = heap s" "data_labels (Emit v s) = data_labels s"
  "realized_address (Emit v s) = realized_address s"
  by (simp_all add: Emit_def)

lemma step_Cons:
  assumes "loaded (mem s) (pc s) (wbytes (w # ws))"
  shows "step other s = exec other (a64_decode w) s" "loaded (mem s) (pc s + 4) (wbytes ws)"
  using assms by (simp_all add: loaded_append step_word)

section \<open>Loading a 64-bit constant\<close>

definition mov_word :: "u32 \<Rightarrow> CPURegister \<Rightarrow> nat \<Rightarrow> u64 \<Rightarrow> u32" where
  "mov_word opcode rd k x = MoveWideImmediateFixed OR opcode OR OpEncode_sf rd
     OR LeftShift (word_of_nat k) 2 21 OR LeftShift (ucast x) 16 5 OR Rd rd"

definition mov_words :: "CPURegister \<Rightarrow> u64 \<Rightarrow> u32 list" where
  "mov_words rd imm = [mov_word MOVZ_op rd 0 imm, mov_word MOVK_op rd 1 (drop_bit 16 imm),
     mov_word MOVK_op rd 2 (drop_bit 32 imm), mov_word MOVK_op rd 3 (drop_bit 48 imm)]"

lemma Low16Bits_eq: "Low16Bits v = take_bit 16 v"
  by (simp add: Low16Bits_def take_bit_eq_mask mask_numeral)

lemma Mov_halves:
  fixes imm :: u64
  shows "ucast (ucast (Low16Bits (Low32Bits imm)) :: u16) = take_bit 16 imm"
    "ucast (ucast (High16Bits (Low32Bits imm)) :: u16) = take_bit 16 (drop_bit 16 imm)"
    "ucast (ucast (Low16Bits (High32Bits imm)) :: u16) = take_bit 16 (drop_bit 32 imm)"
    "ucast (ucast (High16Bits (High32Bits imm)) :: u16) = take_bit 16 (drop_bit 48 imm)"
  unfolding Low16Bits_eq High16Bits_def Low32Bits_def High32Bits_def
  by (intro bit_word_eqI; auto simp: bit_simps min_def)+

lemma MoveWide_Emit:
  assumes "k < 4"
  shows "MoveWide rd (take_bit 16 x) (16 * int k) opcode s = Emit (mov_word opcode rd k x) s"
proof -
  have "LeftShift (ucast (take_bit 16 x)) 16 5 = (LeftShift (ucast x) 16 5 :: u32)"
    unfolding LeftShift_eq by (intro bit_word_eqI) (auto simp: bit_simps)
  moreover have "(if 0 < 16 * int k then 16 * int k div 16 else 0) = int k"
    by simp
  ultimately show ?thesis
    unfolding MoveWide_def mov_word_def by (simp add: ucast_LeftShift)
qed

lemma Mov_Emit:
  "Mov rd imm s = Emit (mov_word MOVK_op rd 3 (drop_bit 48 imm)) (Emit (mov_word MOVK_op rd 2 (drop_bit 32 imm))
     (Emit (mov_word MOVK_op rd 1 (drop_bit 16 imm)) (Emit (mov_word MOVZ_op rd 0 imm) s)))"
  unfolding Mov_def Let_def Mov_halves movk_def movz_def
  using MoveWide_Emit [of 0] MoveWide_Emit [of 1] MoveWide_Emit [of 2] MoveWide_Emit [of 3] by simp

lemma Mov_buf [simp]: "buf (Mov rd imm s) = buf s @ wbytes (mov_words rd imm)"
  by (simp add: Mov_Emit mov_words_def)

lemma Mov_frame [simp]: "heap (Mov rd imm s) = heap s" "data_labels (Mov rd imm s) = data_labels s"
  by (simp_all add: Mov_Emit)

lemma decode_mov_word:
  assumes "reg_ok rd" "Is64Bits rd" "k < 4"
  shows "a64_decode (mov_word MOVZ_op rd k x) = I_MOVZ True (reg_code rd) (take_bit 16 x) (word_of_nat k)"
    "a64_decode (mov_word MOVK_op rd k x) = I_MOVK True (reg_code rd) (take_bit 16 x) (word_of_nat k)"
proof -
  have "ucast (take_bit 16 (ucast x :: u32)) = take_bit 16 x"
    by (intro bit_word_eqI) (auto simp: bit_simps)
  moreover have "take_bit 2 (word_of_nat k :: u32) = word_of_nat k"
    using assms(3) by (intro take_bit_small) (simp add: unat_of_nat take_bit_nat_eq_self)
  ultimately show
    "a64_decode (mov_word MOVZ_op rd k x) = I_MOVZ True (reg_code rd) (take_bit 16 x) (word_of_nat k)"
    "a64_decode (mov_word MOVK_op rd k x) = I_MOVK True (reg_code rd) (take_bit 16 x) (word_of_nat k)"
    using assms by (simp_all add: mov_word_def enc_MOVZ enc_MOVK take_code)
qed

lemma movk_insert:
  fixes imm :: u64
  shows "(take_bit (16 * k) imm AND NOT (push_bit (16 * k) 0xFFFF)) OR push_bit (16 * k) (take_bit 16 (drop_bit (16 * k) imm))
    = take_bit (16 * (k + 1)) imm"
proof -
  have m: "(0xFFFF :: u64) = mask 16"
    by (simp add: mask_numeral)
  show ?thesis
    unfolding m by (intro bit_word_eqI) (auto simp: bit_simps)
qed

lemma step_mov:
  fixes imm :: u64
  assumes "loaded (mem s) (pc s + 4 * word_of_nat k)
      (le_bytes 4 (mov_word MOVK_op rd k (drop_bit (16 * k) imm)))" "reg_ok rd" "Is64Bits rd" "k < 4"
  shows "step other ((wx (reg_code rd) (take_bit (16 * k) imm) s)\<lparr>pc := pc s + 4 * word_of_nat k\<rparr>)
    = (wx (reg_code rd) (take_bit (16 * (k + 1)) imm) s)\<lparr>pc := pc s + 4 * word_of_nat (k + 1)\<rparr>"
    (is "step other ?s = ?s'")
proof -
  have m: "mem ?s = mem s"
    by (simp add: wx_def)
  have "unat (word_of_nat k :: u32) = k"
    using assms(4) by (simp add: unat_of_nat take_bit_nat_eq_self)
  then have "exec other (I_MOVK True (reg_code rd) (take_bit 16 (drop_bit (16 * k) imm)) (word_of_nat k)) ?s = ?s'"
    using movk_insert [of k imm] by (simp add: exec_def next_pc_def wx_def rx_def opsize_def ac_simps)
  then show ?thesis
    using step_word [of ?s] assms decode_mov_word [OF assms(2-4)] m by simp
qed

lemma Mov_exec:
  assumes "loaded (mem s) (pc s) (wbytes (mov_words rd imm))" "reg_ok rd" "Is64Bits rd"
  shows "steps other 4 s = (wx (reg_code rd) imm s)\<lparr>pc := pc s + 16\<rparr>"
proof -
  let ?st = "\<lambda>k. (wx (reg_code rd) (take_bit (16 * k) imm) s)\<lparr>pc := pc s + 4 * word_of_nat k\<rparr>"
  have "step other s = exec other (I_MOVZ True (reg_code rd) (take_bit 16 imm) 0) s"
    using assms decode_mov_word [OF assms(2,3), of 0] step_word [of s "mov_word MOVZ_op rd 0 imm"]
    by (simp add: mov_words_def loaded_append)
  then have "step other s = ?st 1"
    by (simp add: exec_def next_pc_def opsize_def wx_def)
  moreover have "step other (?st 1) = ?st 2" "step other (?st 2) = ?st 3" "step other (?st 3) = ?st 4"
    using step_mov [of s 1 rd imm other] step_mov [of s 2 rd imm other] step_mov [of s 3 rd imm other] assms
    by (simp_all add: mov_words_def loaded_append ac_simps)
  moreover have "?st 4 = (wx (reg_code rd) imm s)\<lparr>pc := pc s + 16\<rparr>"
    using take_bit_word_eq_self [of 64 imm] by simp
  ultimately show ?thesis
    by (simp add: numeral_eq_Suc)
qed

section \<open>Literal loads through a label\<close>

text \<open>\<open>ldr17 off\<close> is \<^verbatim>\<open>ldr x17, #off\<close> as \<^verbatim>\<open>link_confused_instructions\<close> leaves it.\<close>

definition ldr17 :: "int \<Rightarrow> u32" where
  "ldr17 off = 0x58000011 OR LeftShift (signed_drop_bit 2 (word_of_int off :: u32)) 19 5"

lemma small_offset:
  fixes x :: u32
  assumes "unat x < 2 ^ n" "n \<le> 28"
  shows "signed_drop_bit 2 (push_bit 2 x) = x" "sext (Suc n) x = ucast x"
proof -
  have bx: "\<not> bit x k" if "n \<le> k" for k
    using bit_small [OF assms(1)] that by force
  show "signed_drop_bit 2 (push_bit 2 x) = x"
    using assms(2) by (intro bit_word_eqI) (auto simp: bit_simps min_def bx)
  show "sext (Suc n) x = ucast x"
    unfolding sext_def by (intro bit_word_eqI) (auto simp: bit_simps min_def bx)
qed

lemma forward_offset:
  assumes "k < 2 ^ n" "n \<le> 28"
  shows "push_bit 2 (sext (Suc n) (take_bit (Suc n) (signed_drop_bit 2 (word_of_int (int (4 * k)) :: u32)))) = word_of_nat (4 * k)"
proof -
  let ?x = "word_of_nat k :: u32"
  have "(2 :: nat) ^ n \<le> 2 ^ 28"
    using assms(2) by (simp only: power_increasing)
  with assms have k: "k < 2 ^ 32" "k < 2 ^ 64"
    by simp_all
  have small: "unat ?x < 2 ^ n"
    using assms k by (simp add: unat_of_nat take_bit_nat_eq_self)
  have "word_of_int (int (4 * k)) = push_bit 2 ?x"
    by (simp add: push_bit_eq_mult)
  moreover note small_offset [OF small assms(2)]
  moreover have "take_bit (Suc n) ?x = ?x"
    using small by (intro take_bit_small) simp
  moreover have "ucast ?x = (word_of_nat k :: u64)"
    using k by (intro word_unat_eq_iff [THEN iffD2])
      (simp add: unsigned_ucast_eq unat_of_nat take_bit_nat_eq_self)
  ultimately show ?thesis
    by (simp add: push_bit_eq_mult mult.commute [of 4])
qed

lemmas literal_offset = forward_offset [of _ 18, simplified]

lemma decode_ldr17: "k < 2 ^ 18 \<Longrightarrow> a64_decode (ldr17 (int (4 * k))) = I_LDR_lit64 17 (word_of_nat (4 * k))"
  using literal_offset [of k] unfolding ldr17_def
  by (subst decode_LDR_lit64) (simp_all add: encoding_simps)

lemma link_ldr_literal_17: "link_ldr_literal 0x58000011 off = ldr17 off"
  by (simp add: link_ldr_literal_def ldr17_def)

lemma ldr_literal_17: "ldr_literal TMP_REG_0 0 s = Inr (Emit 0x58000011 s)"
  by (simp add: ldr_literal_def TMP_REG_0_def EmitLoadRegLiteral_def encoding_simps Rt_def)

lemma buf_load_at: "buf_load (pre @ le_bytes 4 (w :: u32) @ post) (int (length pre)) = Inr w"
  by (simp add: buf_load_def load_bytes_def bytes)

lemma buf_fix_at:
  "buf_fix (pre @ le_bytes 4 (w :: u32) @ post) (int (length pre)) v = Inr (pre @ le_bytes 4 v @ post)"
  by (simp add: buf_fix_def store_bytes_def)

definition br17 :: u32 where
  "br17 = 0xD61F0220"

lemma br_TMP: "br TMP_REG_0 s = Emit br17 s"
  by (simp add: br_def TMP_REG_0_def Rn_def arm64_const br17_def)

definition blr17 :: u32 where
  "blr17 = 0xD63F0220"

lemma blr_TMP: "blr TMP_REG_0 s = Emit blr17 s"
  by (simp add: blr_def TMP_REG_0_def Rn_def arm64_const blr17_def)

lemma decode_br17 [simp]: "a64_decode br17 = I_BR 17" "a64_decode blr17 = I_BLR 17"
  unfolding br17_def blr17_def by (simp_all add: decode_BR decode_BLR field_def)

lemma LiteralLdrBranch_emits:
  "LiteralLdrBranch address s = Inr (s\<lparr>buf := buf s @ wbytes [ldr17 8, br17] @ le_bytes 8 address\<rparr>)"
  using buf_load_at [of "buf s" "0x58000011" "le_bytes 4 br17"]
    buf_fix_at [of "buf s" "0x58000011" "le_bytes 4 br17" "ldr17 8"]
  by (simp add: LiteralLdrBranch_def Ldr_def PseudoLabel_def is_bound_def ldr_literal_17 br_TMP
      PseudoBind_def Let_def plink_to_def bind_to_def has_confused_instructions_def
      link_confused_instructions_def pos_def pc_offset_def Emit_def EmitInt64_def link_ldr_literal_17)

lemma ldr_br_exec:
  assumes "loaded (mem s) (pc s) (wbytes [ldr17 (int (4 * k)), br17])" "k < 2 ^ 18"
    "loaded (mem s) (pc s + word_of_nat (4 * k)) (le_bytes 8 address)"
  shows "steps other 2 s = (wx 17 address s)\<lparr>pc := address\<rparr>"
proof -
  note s1 = step_Cons [OF assms(1)]
  let ?s1 = "(wx 17 address s)\<lparr>pc := pc s + 4\<rparr>"
  have "step other s = ?s1"
    using s1(1) decode_ldr17 [OF assms(2)] loaded_ld [OF assms(3), of 8]
    by (simp add: exec_def next_pc_def wx_def bytes)
  moreover have "step other ?s1 = (wx 17 address s)\<lparr>pc := address\<rparr>"
    using step_Cons(1) [of ?s1 br17 "[]"] s1(2)
    by (simp add: wx_def exec_def jump_def rx_def)
  ultimately show ?thesis
    by (simp add: numeral_eq_Suc)
qed

section \<open>Forward branches to a label\<close>

definition b_word :: "int \<Rightarrow> u32" where
  "b_word off = B_op OR take_bit 26 (signed_drop_bit 2 (word_of_int off))"

lemma decode_b_word: "k < 2 ^ 25 \<Longrightarrow> a64_decode (b_word (int (4 * k))) = I_B (word_of_nat (4 * k))"
  using forward_offset [of k 25] by (simp add: b_word_def enc_B)

lemma b_label_unused:
  assumes "is_unused l"
  shows "b_label l s = (link_to (pc_offset s) l, s\<lparr>buf := buf s @ le_bytes 4 (0x14000000 :: u32)\<rparr>)"
  using assms by (simp add: b_label_def LinkAndGetByteOffsetTo_def is_bound_def is_linked_def is_unused_def
      b_imm_def Emit_def arm64_const sbits_m_def)

lemma bind_single:
  assumes "lpos l = int (length pre) + 1"
  shows "bind l (s\<lparr>buf := pre @ le_bytes 4 (0x14000000 :: u32) @ rest\<rparr>) =
    Inr (bind_to (int (length pre + 4 + length rest)) l,
         s\<lparr>buf := pre @ le_bytes 4 (b_word (int (4 + length rest))) @ rest\<rparr>)"
proof -
  let ?pc = "int (length pre + 4 + length rest)"
  have w: "(0x14000000 AND 0xfc000000) OR LeftShift (sbits_m (signed_drop_bit 2 (word_of_int off)) 0 25) 26 0
      = b_word off" for off
    using sbits_m_eq_field [of 0 25 "signed_drop_bit 2 (word_of_int off) :: u32"]
    by (simp add: b_word_def LeftShift_eq field_def arm64_const)
  have z: "sbits_m (0x14000000 :: u32) 0 25 = 0"
    by (simp add: sbits_m_def submask_def)
  have "bind_chain ?pc l (pre @ le_bytes 4 (0x14000000 :: u32) @ rest)
      = bind_chain ?pc (link_to (- 1) l) (pre @ le_bytes 4 (b_word (int (4 + length rest))) @ rest)"
    using assms by (subst bind_chain.simps)
      (simp add: is_linked_def pos_def buf_load_at buf_fix_at arm64_const
        w [of "4 + int (length rest)", simplified] z Let_def)
  also have "\<dots> = Inr (link_to (- 1) l, pre @ le_bytes 4 (b_word (int (4 + length rest))) @ rest)"
    by (subst bind_chain.simps) (simp add: link_to_terminal)
  finally show ?thesis
    by (simp add: bind_def pc_offset_def bind_to_def link_to_def ac_simps)
qed

text \<open>
  A branch to a label that is already waited for is emitted with the distance to the previous
  waiting branch, a negative number. \<^verbatim>\<open>bind\<close> reads the field back without its sign, so
  that the next place of the chain is negative and the loop ends after the last branch.
\<close>

definition chain_word :: "nat \<Rightarrow> u32" where
  "chain_word k = B_op OR ucast (sbits_m (signed_drop_bit 2 (word_of_int (- int (4 * k)) :: u64)) 0 25)"

lemma field_of_negative:
  assumes "0 < k" "k \<le> 2 ^ 25"
  shows "uint (sbits_m (chain_word k) 0 25) = 2 ^ 26 - int k" "chain_word k AND 0xFC000000 = 0x14000000"
    "chain_word k AND 0x7C000000 = 0x14000000"
proof -
  let ?v = "signed_drop_bit 2 (word_of_int (- int (4 * k)) :: u64)"
  have "sint (word_of_int (- int (4 * k)) :: u64) = - int (4 * k)"
    using assms by (subst signed_of_int) (simp add: signed_take_bit_int_eq_self del: of_int_minus of_int_of_nat_eq)
  then have "sint ?v = - int k"
    by (simp add: sint_signed_drop_bit_eq drop_bit_eq_div)
  then have "word_of_int (sint ?v) = (word_of_int (- int k) :: u64)"
    by (simp only:)
  then have v: "?v = word_of_int (- int k)"
    by (simp only: of_int_sint scast_id)
  have f: "sbits_m (chain_word k) 0 25 = ucast (take_bit 26 ?v)"
    by (simp add: chain_word_def sbits_m_eq_field field_def arm64_const)
      (intro bit_word_eqI, auto simp: bit_simps)
  have "uint (take_bit 26 ?v) = (- int k) mod 2 ^ 26"
    unfolding v unsigned_take_bit_eq uint_word_of_int by (simp add: take_bit_eq_mod mod_mod_cancel)
  also have "\<dots> = 2 ^ 26 - int k"
    using assms by (simp add: zmod_zminus1_eq_if)
  finally show "uint (sbits_m (chain_word k) 0 25) = 2 ^ 26 - int k"
    unfolding f using assms by (simp add: unsigned_ucast_eq take_bit_int_eq_self)
  have "(ucast (sbits_m x 0 25) :: u32) = ucast x AND 0x3FFFFFF" for x :: u64
  proof -
    have "sbits_m x 0 25 = take_bit 26 x"
      using sbits_m_eq_field [of 0 25 x] by (simp add: field_def)
    moreover have "(ucast (take_bit 26 x) :: u32) = take_bit 26 (ucast x)"
      by (intro bit_word_eqI) (auto simp: bit_simps)
    moreover have "take_bit 26 y = y AND 0x3FFFFFF" for y :: u32
      by (simp add: take_bit_eq_mask mask_numeral)
    ultimately show ?thesis
      by simp
  qed
  then have "chain_word k = 0x14000000 OR (ucast ?v AND 0x3FFFFFF)"
    by (simp only: chain_word_def) (simp add: arm64_const)
  moreover have "(0x14000000 OR (x AND 0x3FFFFFF)) AND 0xFC000000 = (0x14000000 :: u32)"
    "(0x14000000 OR (x AND 0x3FFFFFF)) AND 0x7C000000 = (0x14000000 :: u32)" for x
    by (simp_all add: and.assoc bit.conj_disj_distrib2)
  ultimately show "chain_word k AND 0xFC000000 = 0x14000000" "chain_word k AND 0x7C000000 = 0x14000000"
    by simp_all
qed

lemma b_label_linked:
  assumes "lpos l = int p + 1" "length (buf s) = p + 4 * k"
  shows "b_label l s = (link_to (pc_offset s) l, s\<lparr>buf := buf s @ le_bytes 4 (chain_word k)\<rparr>)"
  using assms by (simp add: b_label_def LinkAndGetByteOffsetTo_def is_bound_def is_linked_def pos_def pc_offset_def
      b_imm_def chain_word_def Emit_def)

lemma bind_last:
  assumes "lpos l = int (length pre) + 1" "0 < k" "k \<le> 2 ^ 25" "length pre < 2 ^ 27"
  shows "\<exists>l'. bind l (s\<lparr>buf := pre @ le_bytes 4 (chain_word k) @ rest\<rparr>) =
    Inr (bind_to (int (length pre + 4 + length rest)) l',
         s\<lparr>buf := pre @ le_bytes 4 (b_word (int (4 + length rest))) @ rest\<rparr>)"
proof -
  let ?pc = "int (length pre + 4 + length rest)"
  note f = field_of_negative [OF assms(2,3)]
  have w: "0x14000000 OR LeftShift (sbits_m (signed_drop_bit 2 (word_of_int off)) 0 25) 26 0 = b_word off" for off
    using sbits_m_eq_field [of 0 25 "signed_drop_bit 2 (word_of_int off) :: u32"]
    by (simp add: b_word_def LeftShift_eq field_def arm64_const)
  let ?p = "int (length pre) - 4 * (2 ^ 26 - int k)"
  have "bind_chain ?pc l (pre @ le_bytes 4 (chain_word k) @ rest)
      = bind_chain ?pc (link_to ?p l) (pre @ le_bytes 4 (b_word (int (4 + length rest))) @ rest)"
    using assms f by (subst bind_chain.simps)
      (simp add: is_linked_def pos_def buf_load_at buf_fix_at arm64_const
        w [of "4 + int (length rest)", simplified] Let_def)
  also have "\<dots> = Inr (link_to ?p l, pre @ le_bytes 4 (b_word (int (4 + length rest))) @ rest)"
    using assms(3,4) by (subst bind_chain.simps) (simp add: is_linked_def link_to_def)
  finally show ?thesis
    by (intro exI [of _ "link_to ?p l"]) (simp add: bind_def pc_offset_def ac_simps)
qed

section \<open>Properties\<close>

text \<open>
  C10. Of the forward branches that wait for a label only the last one is resolved: whether the
  label is unused or other branches wait for it already (the last of them at \<open>p\<close>), after
  \<^verbatim>\<open>b(&label)\<close>, any further code and \<^verbatim>\<open>bind(&label)\<close> the word of this branch decodes to
  a branch over exactly the code in between, and nothing else in the buffer changes, so that every
  branch that waited before stays as it was emitted; the first one is a branch to itself. A
  single forward branch is therefore resolved, a second one to the same label loses the first.
\<close>

theorem forward_branch_resolved:
  assumes "is_unused l \<or> (\<exists>p k. lpos l = int p + 1 \<and> length (buf s) = p + 4 * k \<and> 0 < k \<and> k \<le> 2 ^ 25)"
    and "length (buf s) < 2 ^ 27" "b_label l s = (l1, s1)" "length rest = 4 * r" "r < 2 ^ 25 - 1"
  shows "\<exists>l2 v w. buf s1 = buf s @ le_bytes 4 v \<and> (is_unused l \<longrightarrow> a64_decode v = I_B 0) \<and>
    bind l1 (s1\<lparr>buf := buf s1 @ rest\<rparr>) = Inr (l2, s1\<lparr>buf := buf s @ le_bytes 4 w @ rest\<rparr>) \<and>
    is_bound l2 \<and> pos l2 = int (length (buf s1 @ rest)) \<and> a64_decode w = I_B (word_of_nat (4 + length rest))"
proof -
  let ?w = "b_word (int (4 * (r + 1)))"
  have w: "a64_decode ?w = I_B (word_of_nat (4 + length rest))"
    using decode_b_word [of "r + 1"] assms(4,5) by simp
  have "\<exists>l2 v. buf s1 = buf s @ le_bytes 4 v \<and> (is_unused l \<longrightarrow> a64_decode v = I_B 0) \<and>
    bind l1 (s1\<lparr>buf := buf s1 @ rest\<rparr>) =
      Inr (bind_to (int (length (buf s1 @ rest))) l2, s1\<lparr>buf := buf s @ le_bytes 4 ?w @ rest\<rparr>)"
  proof (cases "is_unused l")
    case True
    have s1: "l1 = link_to (pc_offset s) l" "s1 = s\<lparr>buf := buf s @ le_bytes 4 (0x14000000 :: u32)\<rparr>"
      using assms(3) by (simp_all add: b_label_unused [OF True])
    have "lpos l1 = int (length (buf s)) + 1"
      by (simp add: s1 link_to_def pc_offset_def)
    from bind_single [OF this, of rest s] show ?thesis
      using assms(4) by (intro exI [of _ l1] exI [of _ "0x14000000"]) (simp add: s1 ac_simps decode_B field_def sext_def)
  next
    case False
    then obtain p k where p: "lpos l = int p + 1" "length (buf s) = p + 4 * k" "0 < k" "k \<le> 2 ^ 25"
      using assms(1) by blast
    have s1: "l1 = link_to (pc_offset s) l" "s1 = s\<lparr>buf := buf s @ le_bytes 4 (chain_word k)\<rparr>"
      using assms(3) by (simp_all add: b_label_linked [OF p(1,2)])
    have "lpos l1 = int (length (buf s)) + 1"
      by (simp add: s1 link_to_def pc_offset_def)
    from bind_last [OF this p(3,4) assms(2), of rest s] obtain l' where
      "bind l1 (s1\<lparr>buf := buf s1 @ rest\<rparr>) = Inr (bind_to (int (length (buf s1 @ rest))) l', s1\<lparr>buf := buf s @ le_bytes 4 ?w @ rest\<rparr>)"
      using assms(4) by (auto simp: s1 ac_simps)
    then show ?thesis
      using False by (intro exI [of _ l'] exI [of _ "chain_word k"]) (simp add: s1)
  qed
  then obtain l2 v where "buf s1 = buf s @ le_bytes 4 v" "is_unused l \<longrightarrow> a64_decode v = I_B 0"
    "bind l1 (s1\<lparr>buf := buf s1 @ rest\<rparr>) =
      Inr (bind_to (int (length (buf s1 @ rest))) l2, s1\<lparr>buf := buf s @ le_bytes 4 ?w @ rest\<rparr>)"
    by (elim exE conjE) (rule that, assumption+)
  with w show ?thesis
    by (intro exI [of _ "bind_to (int (length (buf s1 @ rest))) l2"] exI [of _ v] exI [of _ ?w]) simp
qed

text \<open>Two branches wait for the label: the first one stays a branch to itself, the second one is resolved.\<close>

theorem forward_branch_resolved_witness:
  "let (l1, s1) = b_label Label (TurboAssembler 0); (l2, s2) = b_label l1 (Emit 0xD503201F s1) in
   \<exists>l3 s3 w. bind l2 (s2\<lparr>buf := buf s2 @ wbytes [0xD503201F]\<rparr>) = Inr (l3, s3) \<and> pos l3 = 16 \<and>
     buf s3 = wbytes [0x14000000, 0xD503201F, w, 0xD503201F] \<and> a64_decode w = I_B 8"
proof -
  let ?s = "(TurboAssembler 0)\<lparr>buf := wbytes [0x14000000, 0xD503201F]\<rparr>"
  have 1: "b_label Label (TurboAssembler 0) = (link_to 0 Label, (TurboAssembler 0)\<lparr>buf := le_bytes 4 (0x14000000 :: u32)\<rparr>)"
    by (simp add: b_label_unused is_unused_def Label_def TurboAssembler_def pc_offset_def)
  have s: "Emit 0xD503201F ((TurboAssembler 0)\<lparr>buf := le_bytes 4 (0x14000000 :: u32)\<rparr>) = ?s"
    by (simp add: Emit_def)
  have ch: "is_unused (link_to 0 Label) \<or> (\<exists>p k. lpos (link_to 0 Label) = int p + 1 \<and> length (buf ?s) = p + 4 * k \<and> 0 < k \<and> k \<le> 2 ^ 25)"
    by (intro disjI2 exI [of _ 0] exI [of _ 2]) (simp add: link_to_def)
  obtain l2 s2 where 2: "b_label (link_to 0 Label) ?s = (l2, s2)" by fastforce
  then have "length (buf s2) = 12"
    by (auto simp: b_label_linked [of _ 0 _ 2] link_to_def)
  moreover obtain l3 w where "bind l2 (s2\<lparr>buf := buf s2 @ wbytes [0xD503201F]\<rparr>) = Inr (l3, s2\<lparr>buf := buf ?s @ le_bytes 4 w @ wbytes [0xD503201F]\<rparr>)"
    "pos l3 = int (length (buf s2 @ wbytes [0xD503201F]))" "a64_decode w = I_B (word_of_nat (4 + length (wbytes [0xD503201F])))"
    using forward_branch_resolved [OF ch _ 2, of "wbytes [0xD503201F]" 1] by auto
  ultimately show ?thesis
    unfolding 1 prod.case s 2 Let_def by (intro exI [of _ l3] exI [of _ w]) (auto intro: exI)
qed

end
