(* ===== verification/Arm64_Relocation.thy ===== *)
theory Arm64_Relocation
  imports Arm64_Codegen
begin

text \<open>
  Relocation of ARM64 instructions:
  \<^verbatim>\<open>InstructionRelocation/arm64/ARM64InstructionRelocation.cc\<close>. The instructions that a
  hook overwrites are re-emitted elsewhere; those that refer to the program counter are
  rewritten. The theory has the decoding helpers, the relocation of one instruction
  (\<open>reloc_insn\<close>, one branch of the C loop per instruction class), the loop and the whole
  routine up to the finished code buffer. The generated code is related to a two-pass
  reference assembler (\<open>two_pass\<close>) and, through it, to the reference semantics of the
  instruction set.
\<close>

section \<open>The code\<close>

definition CompareBranchFixed :: u32 where [arm64_const]: "CompareBranchFixed = 0x34000000"
definition CompareBranchFixedMask :: u32 where [arm64_const]: "CompareBranchFixedMask = 0x7E000000"
definition ConditionalBranchFixed :: u32 where [arm64_const]: "ConditionalBranchFixed = 0x54000000"
definition ConditionalBranchFixedMask :: u32 where [arm64_const]: "ConditionalBranchFixedMask = 0xFE000000"
definition TestBranchFixed :: u32 where [arm64_const]: "TestBranchFixed = 0x36000000"
definition TestBranchFixedMask :: u32 where [arm64_const]: "TestBranchFixedMask = 0x7E000000"

definition SignExtend :: "u64 \<Rightarrow> nat \<Rightarrow> nat \<Rightarrow> u64" where
  "SignExtend x M N = signed_drop_bit (N - M) (push_bit (N - M) x)"

definition decode_imm14_offset :: "u32 \<Rightarrow> u64" where
  "decode_imm14_offset instr = SignExtend (push_bit 2 (ucast (bits_m instr 5 18))) (2 + 14) 64"

definition decode_imm19_offset :: "u32 \<Rightarrow> u64" where
  "decode_imm19_offset instr = SignExtend (push_bit 2 (ucast (bits_m instr 5 23))) (2 + 19) 64"

definition decode_imm26_offset :: "u32 \<Rightarrow> u64" where
  "decode_imm26_offset instr = SignExtend (push_bit 2 (ucast (bits_m instr 0 25))) (2 + 26) 64"

definition decode_immhi_immlo_offset :: "u32 \<Rightarrow> u64" where
  "decode_immhi_immlo_offset instr =
    (let immhi = bits_m instr 5 23; immlo = bits_m instr 29 30 in
     SignExtend (ucast (immlo + push_bit 2 immhi)) (2 + 19) 64)"

definition decode_immhi_immlo_zero12_offset :: "u32 \<Rightarrow> u64" where
  "decode_immhi_immlo_zero12_offset instr = push_bit 12 (decode_immhi_immlo_offset instr)"

definition decode_rt :: "u32 \<Rightarrow> u32" where
  "decode_rt instr = bits_m instr 0 4"

definition decode_rd :: "u32 \<Rightarrow> u32" where
  "decode_rd instr = bits_m instr 0 4"

text \<open>
  One round of the relocation loop, for the instruction word \<open>instr\<close> whose original address is
  \<open>curr_orig_pc\<close>.
\<close>

definition reloc_branch_to :: "u64 \<Rightarrow> (nat \<Rightarrow> assembler \<Rightarrow> assembler res) \<Rightarrow> assembler \<Rightarrow> assembler res" where
  "reloc_branch_to branch_address k s =
    (let (branchAddressLabel, s) = new_RelocLabelEntry branch_address s in
     k branchAddressLabel (AppendRelocLabelEntry branchAddressLabel s))"

definition reloc_cond_branch :: "u32 \<Rightarrow> u64 \<Rightarrow> assembler \<Rightarrow> assembler res" where
  "reloc_cond_branch branch_instr branch_address s =
    reloc_branch_to branch_address (\<lambda>lbl s.
      bindr (Ldr_ref TMP_REG_0 lbl (Emit branch_instr s)) (\<lambda>s. Inr (br TMP_REG_0 s))) s"

definition reloc_insn :: "u32 \<Rightarrow> u64 \<Rightarrow> assembler \<Rightarrow> assembler res" where
  "reloc_insn instr curr_orig_pc s =
    (if instr AND LoadRegLiteralFixedMask = LoadRegLiteralFixed then
       (let rt = decode_rt instr;
            opc = sbits_m instr 30 31;
            memory_address = decode_imm19_offset instr + curr_orig_pc;
            s = Mov TMP_REG_0 memory_address s in
        if opc = 0 then ldr_mem (W_reg rt) (MemOperand_imm TMP_REG_0 0 Offset) s
        else if opc = 1 then ldr_mem (X_reg rt) (MemOperand_imm TMP_REG_0 0 Offset) s
        else Inl Unimplemented)
     else if instr AND PCRelAddressingFixedMask = PCRelAddressingFixed then
       (let rd = decode_rd instr;
            runtime_address =
              (if instr AND PCRelAddressingMask = ADR_op
               then curr_orig_pc + decode_immhi_immlo_offset instr
               else ALIGN_FLOOR curr_orig_pc (push_bit 12 1) + decode_immhi_immlo_zero12_offset instr) in
        Inr (Mov (X_reg rd) runtime_address s))
     else if instr AND UnconditionalBranchFixedMask = UnconditionalBranchFixed then
       reloc_branch_to (decode_imm26_offset instr + curr_orig_pc) (\<lambda>lbl s.
         bindr (Ldr_ref TMP_REG_0 lbl s) (\<lambda>s.
           Inr (if instr AND UnconditionalBranchMask = BL_op then blr TMP_REG_0 s else br TMP_REG_0 s))) s
     else if instr AND TestBranchFixedMask = TestBranchFixed then
       (let branch_address = decode_imm14_offset instr + curr_orig_pc;
            p = bit_m instr 24 XOR 1;
            branch_instr = set_bit_m instr 24 p;
            imm14 = drop_bit 2 (4 * 3);
            branch_instr = set_bits_m branch_instr 5 18 imm14 in
        reloc_cond_branch branch_instr branch_address s)
     else if instr AND CompareBranchFixedMask = CompareBranchFixed then
       (let branch_address = decode_imm19_offset instr + curr_orig_pc;
            p = bit_m instr 24 XOR 1;
            branch_instr = set_bit_m instr 24 p;
            imm19 = drop_bit 2 (4 * 3);
            branch_instr = set_bits_m branch_instr 5 23 imm19 in
        reloc_cond_branch branch_instr branch_address s)
     else if instr AND ConditionalBranchFixedMask = ConditionalBranchFixed then
       (let branch_address = decode_imm19_offset instr + curr_orig_pc;
            cond = bits_m instr 0 3 XOR 1;
            branch_instr = set_bits_m instr 0 3 cond;
            imm19 = drop_bit 2 (4 * 3);
            branch_instr = set_bits_m branch_instr 5 23 imm19 in
        reloc_cond_branch branch_instr branch_address s)
     else Inr (Emit instr s))"

text \<open>
  The loop reads the next instruction word from memory at \<open>buffer + i\<close>; \<open>n\<close> is the size of
  the original chunk in bytes.
\<close>

definition fetch :: "(u64 \<Rightarrow> u8) \<Rightarrow> u64 \<Rightarrow> u32" where
  "fetch m a = le_word (ld 4 m a)"

function reloc_loop :: "(u64 \<Rightarrow> u8) \<Rightarrow> u64 \<Rightarrow> nat \<Rightarrow> nat \<Rightarrow> u64 \<Rightarrow> assembler \<Rightarrow> (u64 \<times> assembler) res" where
  "reloc_loop m buffer i n curr_orig_pc s =
    (if i < n
     then bindr (reloc_insn (fetch m (buffer + word_of_nat i)) curr_orig_pc s)
            (\<lambda>s. reloc_loop m buffer (i + 4) n (curr_orig_pc + 4) s)
     else Inr (curr_orig_pc, s))"
  by pat_completeness auto

termination reloc_loop
  by (relation "measure (\<lambda>(m, buffer, i, n, pc, s). n - i)") auto

declare reloc_loop.simps [simp del]

definition GenRelocateCode :: "(u64 \<Rightarrow> u8) \<Rightarrow> u64 \<Rightarrow> u64 \<Rightarrow> nat \<Rightarrow> assembler res" where
  "GenRelocateCode m buffer origin_start origin_size =
    bindr (reloc_loop m buffer 0 origin_size origin_start (TurboAssembler 0)) (\<lambda>(curr_orig_pc, s).
    bindr (LiteralLdrBranch curr_orig_pc s) RelocBind)"

section \<open>A two-pass reference\<close>

text \<open>
  An item of the relocated code is an instruction word or a load of \<^verbatim>\<open>x17\<close> from the literal
  pool. \<open>items_of\<close> says what one original instruction becomes; \<open>two_pass\<close> lays the items
  out with the closing branch and the pool and computes every offset from the layout.
\<close>

datatype item = Raw u32 | Pool u64

definition cond_items :: "u32 \<Rightarrow> u64 \<Rightarrow> item list" where
  "cond_items branch_instr target = [Raw branch_instr, Pool target, Raw br17]"

definition items_of :: "u32 \<Rightarrow> u64 \<Rightarrow> item list option" where
  "items_of w a =
    (if w AND 0x3B000000 = 0x18000000 then
       (if field 30 2 w \<in> {0, 1}
        then Some (map Raw (mov_words TMP_REG_0 (a + decode_imm19_offset w)) @ [Raw (0xF9400220 OR field 0 5 w)])
        else None)
     else if w AND 0x1F000000 = 0x10000000 then
       Some (map Raw (mov_words (X_reg (field 0 5 w))
         (if w AND 0x9F000000 = 0x10000000 then a + decode_immhi_immlo_offset w
          else ALIGN_FLOOR a 0x1000 + decode_immhi_immlo_zero12_offset w)))
     else if w AND 0x7C000000 = 0x14000000 then
       Some [Pool (a + decode_imm26_offset w), Raw (if w AND 0xFC000000 = 0x94000000 then blr17 else br17)]
     else if w AND 0x7E000000 = 0x36000000 then
       Some (cond_items (set_bits_m (set_bit_m w 24 (bit_m w 24 XOR 1)) 5 18 3) (a + decode_imm14_offset w))
     else if w AND 0x7E000000 = 0x34000000 then
       Some (cond_items (set_bits_m (set_bit_m w 24 (bit_m w 24 XOR 1)) 5 23 3) (a + decode_imm19_offset w))
     else if w AND 0xFE000000 = 0x54000000 then
       Some (cond_items (set_bits_m (set_bits_m w 0 3 (bits_m w 0 3 XOR 1)) 5 23 3) (a + decode_imm19_offset w))
     else Some [Raw w])"

fun items_from :: "u32 list \<Rightarrow> u64 \<Rightarrow> item list option" where
  "items_from [] a = Some []"
| "items_from (w # ws) a = (case items_of w a of None \<Rightarrow> None
     | Some is \<Rightarrow> map_option (\<lambda>js. is @ js) (items_from ws (a + 4)))"

fun layout :: "nat \<Rightarrow> nat \<Rightarrow> item list \<Rightarrow> u32 list" where
  "layout off pool [] = []"
| "layout off pool (Raw w # is) = w # layout (off + 4) pool is"
| "layout off pool (Pool d # is) = ldr17 (int pool - int off) # layout (off + 4) (pool + 8) is"

fun pool_data :: "item list \<Rightarrow> u64 list" where
  "pool_data [] = []"
| "pool_data (Raw w # is) = pool_data is"
| "pool_data (Pool d # is) = d # pool_data is"

definition dbytes :: "u64 list \<Rightarrow> bytes" where
  "dbytes ds = concat (map (le_bytes 8) ds)"

definition two_pass :: "item list \<Rightarrow> u64 \<Rightarrow> bytes" where
  "two_pass is ret_pc =
    wbytes (layout 0 (4 * length is + 16) is) @ wbytes [ldr17 8, br17] @ le_bytes 8 ret_pc @ dbytes (pool_data is)"

section \<open>The back-patching assembler computes the two-pass layout\<close>

text \<open>
  \<open>reloc_state is r\<close> is the assembler state after the items \<open>is\<close>: pool loads still carry
  offset 0, and each of them is recorded in its own label.
\<close>

fun placeholder :: "item \<Rightarrow> u32" where
  "placeholder (Raw w) = w"
| "placeholder (Pool d) = 0x58000011"

fun entries :: "nat \<Rightarrow> item list \<Rightarrow> reloc_label list" where
  "entries off [] = []"
| "entries off (Raw w # is) = entries (off + 4) is"
| "entries off (Pool d # is) = (RelocLabelEntry d)\<lparr>instructions := [(int off, kLdrLiteral)]\<rparr> # entries (off + 4) is"

definition label_ptrs :: "nat \<Rightarrow> nat list option" where
  "label_ptrs n = (if n = 0 then None else Some [0..<n])"

definition reloc_state :: "item list \<Rightarrow> addr \<Rightarrow> assembler" where
  "reloc_state is r = \<lparr>buf = wbytes (map placeholder is), realized_address = r,
     heap = entries 0 is, data_labels = label_ptrs (length (pool_data is))\<rparr>"

lemma entries_append: "entries off (xs @ ys) = entries off xs @ entries (off + 4 * length xs) ys"
  by (induction off xs rule: entries.induct) (simp_all add: ac_simps)

lemma length_entries [simp]: "length (entries off is) = length (pool_data is)"
  by (induction off "is" rule: entries.induct) simp_all

lemma pool_data_append [simp]: "pool_data (xs @ ys) = pool_data xs @ pool_data ys"
  by (induction xs rule: pool_data.induct) simp_all

lemma reloc_state_Nil: "TurboAssembler r = reloc_state [] r"
  by (simp add: TurboAssembler_def reloc_state_def label_ptrs_def)

lemma reloc_state_Emit: "Emit w (reloc_state is r) = reloc_state (is @ [Raw w]) r"
  by (simp add: Emit_def reloc_state_def entries_append)

lemma reloc_state_Mov: "Mov rd imm (reloc_state is r) = reloc_state (is @ map Raw (mov_words rd imm)) r"
  by (simp add: Mov_Emit mov_words_def reloc_state_Emit)

lemma label_ptrs_Suc:
  "Some ((case label_ptrs n of None \<Rightarrow> [] | Some ls \<Rightarrow> ls) @ [n]) = label_ptrs (Suc n)"
  by (simp add: label_ptrs_def)

lemma reloc_branch_to_Emit:
  "reloc_branch_to d (\<lambda>lbl s. bindr (Ldr_ref TMP_REG_0 lbl s) k) (reloc_state is r)
    = k (reloc_state (is @ [Pool d]) r)"
  by (simp add: reloc_branch_to_def new_RelocLabelEntry_def AppendRelocLabelEntry_def Ldr_ref_def
      label_at_def reloc_state_def Ldr_def is_bound_def RelocLabelEntry_def ldr_literal_17 Emit_def
      plink_to_def set_label_def pc_offset_def entries_append nth_append label_ptrs_Suc list_update_append)

lemma reloc_cond_branch_items:
  "reloc_cond_branch w d (reloc_state is r) = Inr (reloc_state (is @ cond_items w d) r)"
proof -
  have "reloc_branch_to d (\<lambda>lbl s. bindr (Ldr_ref TMP_REG_0 lbl (Emit w s)) k) (reloc_state is r)
      = reloc_branch_to d (\<lambda>lbl s. bindr (Ldr_ref TMP_REG_0 lbl s) k) (Emit w (reloc_state is r))" for k
    by (simp add: reloc_branch_to_def new_RelocLabelEntry_def AppendRelocLabelEntry_def Emit_def
        reloc_state_def)
  then show ?thesis
    by (simp add: reloc_cond_branch_def reloc_state_Emit reloc_branch_to_Emit br_TMP cond_items_def)
qed

lemma ldr_mem_TMP:
  "reg_ok r \<Longrightarrow> ldr_mem r (MemOperand_imm TMP_REG_0 0 Offset) s = Inr (Emit (0xF9400220 OR reg_code r) s)"
  by (simp add: ldr_mem_def LoadStore_def IsImmediateOffset_def MemOperand_imm_def TMP_REG_0_def
      reg_fields take_code arm64_const arm64_op_defs LeftShift_eq Rn_def flip: or.assoc)

lemma field_reg_small: "field k 5 w < (32 :: u32)"
proof -
  have "unat (field k 5 w) < 2 ^ 5"
    unfolding field_def unsigned_take_bit_eq by (rule take_bit_nat_less_exp)
  then show ?thesis
    by (simp add: word_less_nat_alt)
qed

lemma decode_reg_field: "decode_rt w = field 0 5 w" "decode_rd w = field 0 5 w"
  by (simp_all add: decode_rt_def decode_rd_def bits_m_eq_field)

lemma reloc_insn_items:
  "reloc_insn w a (reloc_state is r) = (case items_of w a of
     None \<Rightarrow> Inl Unimplemented
   | Some js \<Rightarrow> Inr (reloc_state (is @ js) r))"
proof -
  have opc: "sbits_m w 30 31 = field 30 2 w"
    using sbits_m_eq_field [of 30 31 w] by (simp add: numeral_2_eq_2)
  have regs: "reg_ok (W_reg (field 0 5 w))" "reg_ok (X_reg (field 0 5 w))"
    by (simp_all add: field_reg_small)
  have three: "drop_bit 2 (4 * 3) = (3 :: u32)" "push_bit 12 1 = (0x1000 :: u64)"
    by simp_all
  show ?thesis
    unfolding reloc_insn_def items_of_def opc decode_reg_field three Let_def
    by (simp add: arm64_const reloc_state_Mov ldr_mem_TMP regs reloc_state_Emit
        reloc_branch_to_Emit br_TMP blr_TMP reloc_cond_branch_items field_reg_small add.commute)
qed

text \<open>The instruction words of the original chunk from byte \<open>i\<close> on.\<close>

definition origin_words :: "(u64 \<Rightarrow> u8) \<Rightarrow> u64 \<Rightarrow> nat \<Rightarrow> nat \<Rightarrow> u32 list" where
  "origin_words m buffer i n = map (\<lambda>k. fetch m (buffer + word_of_nat (i + 4 * k))) [0..<(n - i + 3) div 4]"

lemma origin_words_Cons:
  assumes "i < n"
  shows "origin_words m buffer i n = fetch m (buffer + word_of_nat i) # origin_words m buffer (i + 4) n"
proof -
  have "(n - i + 3) div 4 = Suc ((n - (i + 4) + 3) div 4)"
  proof -
    obtain d where d: "n = i + Suc d"
      using assms less_imp_Suc_add by auto
    show ?thesis
      unfolding d by (cases "d < 3") auto
  qed
  then show ?thesis
    unfolding origin_words_def by (simp only: map_upt_Suc) (simp add: ac_simps)
qed

lemma origin_words_Nil: "n \<le> i \<Longrightarrow> origin_words m buffer i n = []"
  by (simp add: origin_words_def)

lemma reloc_loop_items:
  "reloc_loop m buffer i n a (reloc_state is r) =
    (case items_from (origin_words m buffer i n) a of
       None \<Rightarrow> Inl Unimplemented
     | Some js \<Rightarrow> Inr (a + 4 * word_of_nat (length (origin_words m buffer i n)), reloc_state (is @ js) r))"
proof (induction "n - i" arbitrary: i a "is" rule: less_induct)
  case less
  show ?case
  proof (cases "i < n")
    case True
    let ?ws = "origin_words m buffer (i + 4) n"
    have IH: "reloc_loop m buffer (i + 4) n (a + 4) (reloc_state js r) =
        (case items_from ?ws (a + 4) of None \<Rightarrow> Inl Unimplemented
         | Some ks \<Rightarrow> Inr (a + 4 + 4 * word_of_nat (length ?ws), reloc_state (js @ ks) r))" for js
      using less True by simp
    show ?thesis
      using True by (subst reloc_loop.simps)
        (simp add: origin_words_Cons reloc_insn_items IH algebra_simps split: option.splits)
  next
    case False
    then show ?thesis
      by (subst reloc_loop.simps) (simp add: origin_words_Nil)
  qed
qed

text \<open>Binding one pool entry patches its load and appends its data.\<close>

lemma RelocBind_one:
  assumes "buf s = wbytes pre @ le_bytes 4 (0x58000011 :: u32) @ post" "k < length (heap s)"
    "heap s ! k = (RelocLabelEntry d)\<lparr>instructions := [(int (4 * length pre), kLdrLiteral)]\<rparr>"
  shows "RelocBind_loop (k # ks) s = RelocBind_loop ks
    (s\<lparr>buf := wbytes pre @ le_bytes 4 (ldr17 (int (length (buf s)) - int (4 * length pre))) @ post @ le_bytes 8 d,
       heap := (heap s)[k := bind_to (int (length (buf s))) (heap s ! k)]\<rparr>)"
  using assms buf_load_at [of "wbytes pre" "0x58000011" post] buf_fix_at [of "wbytes pre" "0x58000011" post]
  by (cases s) (simp add: label_at_def RelocLabelEntry_def PseudoBind_def Let_def bind_to_def pos_def
      pc_offset_def has_confused_instructions_def link_confused_instructions_def set_label_def
      EmitInt64_def link_ldr_literal_17)

lemma RelocBind_loop_layout:
  assumes "buf s = wbytes pre @ wbytes (map placeholder is) @ mid" "drop k (heap s) = entries (4 * length pre) is"
  shows "\<exists>s'. RelocBind_loop [k..<k + length (pool_data is)] s = Inr s' \<and>
    buf s' = wbytes pre @ wbytes (layout (4 * length pre) (length (buf s)) is) @ mid @ dbytes (pool_data is) \<and>
    realized_address s' = realized_address s"
  using assms
proof (induction "is" arbitrary: pre mid k s)
  case Nil
  then show ?case by (simp add: dbytes_def)
next
  case (Cons x xs)
  show ?case
  proof (cases x)
    case (Raw w)
    then show ?thesis
      using Cons.IH [of s "pre @ [w]" mid k] Cons.prems by (simp add: ac_simps)
  next
    case (Pool d)
    let ?post = "wbytes (map placeholder xs) @ mid"
    let ?w = "ldr17 (int (length (buf s)) - int (4 * length pre))"
    have len: "k < length (heap s)"
      using Cons.prems(2) Pool by (metis drop_all entries.simps(3) list.distinct(1) not_le)
    moreover have "heap s ! k = (RelocLabelEntry d)\<lparr>instructions := [(int (4 * length pre), kLdrLiteral)]\<rparr>"
      using Cons.prems(2) Pool len by (metis Cons_nth_drop_Suc entries.simps(3) list.inject)
    moreover have "buf s = wbytes pre @ le_bytes 4 (0x58000011 :: u32) @ ?post"
      using Cons.prems(1) Pool by simp
    ultimately have one: "RelocBind_loop (k # ks) s = RelocBind_loop ks
        (s\<lparr>buf := wbytes pre @ le_bytes 4 ?w @ ?post @ le_bytes 8 d,
           heap := (heap s)[k := bind_to (int (length (buf s))) (heap s ! k)]\<rparr>)" for ks
      using RelocBind_one by blast
    have "drop (Suc k) (heap s) = entries (4 * length pre + 4) xs"
      using Cons.prems(2) Pool len by (metis Cons_nth_drop_Suc entries.simps(3) list.inject)
    then show ?thesis
      using Cons.IH [of "s\<lparr>buf := wbytes pre @ le_bytes 4 ?w @ ?post @ le_bytes 8 d,
           heap := (heap s)[k := bind_to (int (length (buf s))) (heap s ! k)]\<rparr>"
          "pre @ [?w]" "mid @ le_bytes 8 d" "Suc k"] Cons.prems(1) Pool
      by (simp add: one upt_conv_Cons dbytes_def ac_simps del: upt_Suc RelocBind_loop.simps)
  qed
qed

lemma RelocBind_layout:
  assumes "s = (reloc_state is r)\<lparr>buf := wbytes (map placeholder is) @ mid\<rparr>"
  shows "\<exists>s'. RelocBind s = Inr s' \<and> realized_address s' = r \<and>
    buf s' = wbytes (layout 0 (4 * length is + length mid) is) @ mid @ dbytes (pool_data is)"
proof (cases "pool_data is")
  case Nil
  have "layout off p js = map placeholder js" if "pool_data js = []" for off p js
    using that by (induction off p js rule: layout.induct) simp_all
  with Nil show ?thesis
    by (simp add: assms RelocBind_def reloc_state_def label_ptrs_def dbytes_def)
next
  case (Cons d ds)
  have "\<exists>s'. RelocBind_loop [0..<0 + length (pool_data is)] s = Inr s' \<and>
      buf s' = wbytes [] @ wbytes (layout (4 * length ([] :: u32 list)) (length (buf s)) is) @ mid @ dbytes (pool_data is) \<and>
      realized_address s' = realized_address s"
    by (rule RelocBind_loop_layout) (simp_all add: assms reloc_state_def)
  with Cons show ?thesis
    by (auto simp: assms RelocBind_def reloc_state_def label_ptrs_def)
qed

lemma GenRelocateCode_two_pass:
  "GenRelocateCode m buffer start n = Inl Unimplemented \<and> items_from (origin_words m buffer 0 n) start = None \<or>
   (\<exists>s is. GenRelocateCode m buffer start n = Inr s \<and> items_from (origin_words m buffer 0 n) start = Some is \<and>
      buf s = two_pass is (start + 4 * word_of_nat (length (origin_words m buffer 0 n))) \<and> realized_address s = 0)"
proof (cases "items_from (origin_words m buffer 0 n) start")
  case None
  then show ?thesis
    by (simp add: GenRelocateCode_def reloc_state_Nil reloc_loop_items)
next
  case (Some "is")
  let ?ret_pc = "start + 4 * word_of_nat (length (origin_words m buffer 0 n))"
  let ?mid = "wbytes [ldr17 8, br17] @ le_bytes 8 ?ret_pc"
  have "GenRelocateCode m buffer start n = RelocBind ((reloc_state is 0)\<lparr>buf := wbytes (map placeholder is) @ ?mid\<rparr>)"
    using Some by (simp add: GenRelocateCode_def reloc_state_Nil reloc_loop_items LiteralLdrBranch_emits)
      (simp add: reloc_state_def)
  then show ?thesis
    using RelocBind_layout [OF refl, of "is" ?mid 0] Some by (auto simp: two_pass_def add.commute)
qed

section \<open>Decoding helpers against the architecture\<close>

lemma SignExtend_signed_take:
  assumes "0 < M" "M \<le> 64"
  shows "SignExtend x M 64 = signed_take_bit (M - 1) x"
  unfolding SignExtend_def
proof (intro bit_word_eqI)
  fix n assume "n < LENGTH(64)"
  then show "bit (signed_drop_bit (64 - M) (push_bit (64 - M) x)) n \<longleftrightarrow> bit (signed_take_bit (M - 1) x) n"
    using assms by (cases "n = M - 1"; cases "n < M") (auto simp: bit_simps min_def)
qed

lemma signed_take_push:
  fixes x :: u64
  assumes "k + n < 64"
  shows "signed_take_bit (k + n) (push_bit k x) = push_bit k (signed_take_bit n x)"
proof (intro bit_word_eqI)
  fix i assume "i < LENGTH(64)"
  then show "bit (signed_take_bit (k + n) (push_bit k x)) i \<longleftrightarrow> bit (push_bit k (signed_take_bit n x)) i"
    using assms by (cases "i < k"; cases "i - k < n") (auto simp: bit_simps min_def)
qed

lemma imm_offsets:
  "decode_imm14_offset w = push_bit 2 (sext 14 (field 5 14 w))"
  "decode_imm19_offset w = push_bit 2 (sext 19 (field 5 19 w))"
  "decode_imm26_offset w = push_bit 2 (sext 26 (field 0 26 w))"
  using signed_take_push [of 2 13] signed_take_push [of 2 18] signed_take_push [of 2 25]
  by (simp_all add: decode_imm14_offset_def decode_imm19_offset_def decode_imm26_offset_def
      bits_m_eq_field SignExtend_signed_take sext_def)

lemma immhi_immlo: "decode_immhi_immlo_offset w = sext 21 (push_bit 2 (field 5 19 w) OR field 29 2 w)"
proof -
  have "bits_m w 29 30 = field 29 2 w" "bits_m w 5 23 = field 5 19 w"
    by (simp_all add: bits_m_eq_field numeral_2_eq_2)
  then have "bits_m w 29 30 + push_bit 2 (bits_m w 5 23) = push_bit 2 (field 5 19 w) OR field 29 2 w"
    by (subst disjunctive_add) (auto simp: bit_simps or.commute)
  then show ?thesis
    by (simp add: decode_immhi_immlo_offset_def Let_def SignExtend_signed_take sext_def)
qed

lemma XOR_one: "bit_m w k XOR 1 = (if bit w k then 0 else 1)"
  by (simp add: bit_m_def and_one_eq mod2_eq_if bit_iff_odd_drop_bit)

lemma xor_one_15: "15 XOR 1 = (14 :: u32)"
  by simp

lemma cond_invert:
  assumes "c < 14"
  shows "cond_holds (c XOR 1) f \<longleftrightarrow> \<not> cond_holds c f"
proof -
  have "c \<noteq> 15" "c \<noteq> 14"
    using assms by auto
  moreover have "c = (c XOR 1) XOR 1"
    by (simp only: xor.assoc xor_self_eq xor.right_neutral)
  ultimately have "c XOR 1 \<noteq> 15"
    by (metis (no_types, lifting) xor_one_15)
  moreover have "drop_bit 1 (c XOR 1) = drop_bit 1 c"
    by (intro bit_word_eqI) (auto simp: bit_simps bit_1_iff)
  moreover have "bit (c XOR 1) 0 \<longleftrightarrow> \<not> bit c 0"
    by (simp add: bit_simps)
  ultimately show ?thesis
    using \<open>c \<noteq> 15\<close> by (auto simp: cond_holds_def cond_base_def)
qed

section \<open>Executing the relocated code\<close>

lemma layout_append:
  "layout off p (xs @ ys) = layout off p xs @ layout (off + 4 * length xs) (p + 8 * length (pool_data xs)) ys"
  by (induction off p xs rule: layout.induct) (simp_all add: ac_simps)

lemma length_layout [simp]: "length (layout off p is) = length is"
  by (induction off p "is" rule: layout.induct) simp_all

lemma length_dbytes [simp]: "length (dbytes ds) = 8 * length ds"
  by (induction ds) (simp_all add: dbytes_def)

lemma dbytes_simps [simp]: "dbytes [] = []" "dbytes (d # ds) = le_bytes 8 d @ dbytes ds"
  "dbytes (ds @ es) = dbytes ds @ dbytes es"
  by (simp_all add: dbytes_def)

definition pool_start :: "item list \<Rightarrow> nat" where
  "pool_start is = 4 * length is + 16"

text \<open>Where the items of one instruction and their pool entries lie in memory.\<close>

lemma loaded_items:
  assumes "loaded m base (two_pass (xs @ js @ ys) ret_pc)"
  shows "loaded m (base + 4 * word_of_nat (length xs))
      (wbytes (layout (4 * length xs) (pool_start (xs @ js @ ys) + 8 * length (pool_data xs)) js))"
    "loaded m (base + word_of_nat (pool_start (xs @ js @ ys) + 8 * length (pool_data xs))) (dbytes (pool_data js))"
  using assms
  by (simp_all add: two_pass_def layout_append loaded_append pool_start_def algebra_simps)

definition target_of :: "insn \<Rightarrow> a64 \<Rightarrow> u64 option" where
  "target_of i s = (case i of
     I_B off \<Rightarrow> Some (pc s + off)
   | I_BL off \<Rightarrow> Some (pc s + off)
   | I_BR n \<Rightarrow> Some (rx s n)
   | I_TB nz t k off \<Rightarrow> if bit (rx s t) (unat k) = nz then Some (pc s + off) else None
   | I_CB nz sf t off \<Rightarrow>
       if ((if sf then rx s t else ucast (ucast (rx s t) :: u32)) \<noteq> 0) = nz then Some (pc s + off) else None
   | I_Bcond c off \<Rightarrow> if cond_holds c (nzcv s) then Some (pc s + off) else None
   | _ \<Rightarrow> None)"

text \<open>A pool load puts its literal into \<^verbatim>\<open>x17\<close>; the branch that follows is next.\<close>

lemma pool_load_exec:
  assumes code: "loaded (mem s) base (two_pass (xs @ js @ ys) ret_pc)"
    and small: "length (two_pass (xs @ js @ ys) ret_pc) < 2 ^ 20"
    and js: "js = us @ [Pool d, Raw w]" "pool_data us = []"
    and pc: "pc s = base + 4 * word_of_nat (length xs + length us)"
  shows "step other s = (wx 17 d s)\<lparr>pc := pc s + 4\<rparr>"
    "loaded (mem s) (pc s + 4) (le_bytes 4 w)"
proof -
  let ?p = "pool_start (xs @ js @ ys) + 8 * length (pool_data xs)"
  let ?o = "4 * (length xs + length us)"
  obtain k where k: "?p = ?o + 4 * k" "k < 2 ^ 18"
  proof
    show "?p = ?o + 4 * (length js - length us + length ys + 4 + 2 * length (pool_data xs))"
      using js by (simp add: pool_start_def)
    show "length js - length us + length ys + 4 + 2 * length (pool_data xs) < 2 ^ 18"
      using small js by (simp add: two_pass_def layout_append)
  qed
  have "loaded (mem s) (pc s) (wbytes [ldr17 (int (4 * k)), w])"
    using loaded_items(1) [OF code, unfolded k(1)] js pc by (simp add: layout_append loaded_append algebra_simps)
  note st = step_Cons [OF this]
  show "loaded (mem s) (pc s + 4) (le_bytes 4 w)"
    using st(2) by simp
  have "loaded (mem s) (pc s + word_of_nat (4 * k)) (le_bytes 8 d)"
    using loaded_items(2) [OF code, unfolded k(1)] js pc by (simp add: loaded_append algebra_simps)
  from loaded_ld [OF this, of 8] show "step other s = (wx 17 d s)\<lparr>pc := pc s + 4\<rparr>"
    using st(1) decode_ldr17 [OF k(2)] by (simp add: exec_def next_pc_def wx_def bytes)
qed

lemma pool_branch_exec:
  assumes "loaded (mem s) base (two_pass (xs @ js @ ys) ret_pc)"
    and "length (two_pass (xs @ js @ ys) ret_pc) < 2 ^ 20"
    and "js = us @ [Pool d, Raw w]" "pool_data us = []"
    and "pc s = base + 4 * word_of_nat (length xs + length us)"
  shows "w = br17 \<Longrightarrow> steps other 2 s = (wx 17 d s)\<lparr>pc := d\<rparr>"
    "w = blr17 \<Longrightarrow> steps other 2 s = (wx 30 (pc s + 8) (wx 17 d s))\<lparr>pc := d\<rparr>"
  using pool_load_exec [OF assms] step_word [of "(wx 17 d s)\<lparr>pc := pc s + 4\<rparr>" w other]
  by (simp_all add: steps_unfold exec_def jump_def add.commute)

text \<open>\<open>agree17\<close>: the same machine state, up to \<^verbatim>\<open>x17\<close> and the program counter.\<close>

definition agree17 :: "a64 \<Rightarrow> a64 \<Rightarrow> bool" where
  "agree17 s t \<longleftrightarrow> (\<forall>n. n \<noteq> 17 \<longrightarrow> xr s n = xr t n) \<and> sp s = sp t \<and> mem s = mem t \<and> nzcv s = nzcv t"

lemma cond_branch_exec:
  assumes code: "loaded (mem s) base (two_pass (xs @ cond_items w' d @ ys) ret_pc)"
    and small: "length (two_pass (xs @ cond_items w' d @ ys) ret_pc) < 2 ^ 20"
    and pc: "pc s = base + 4 * word_of_nat (length xs)"
    and step1: "exec other (a64_decode w') s = (if taken then next_pc s else jump (pc s + 12) s)"
  shows "steps other (if taken then 3 else 1) s =
    (if taken then (wx 17 d s)\<lparr>pc := d\<rparr> else s\<lparr>pc := pc s + 12\<rparr>)"
proof -
  have "loaded (mem s) (pc s) (le_bytes 4 w')"
    using loaded_items(1) [OF code] pc by (simp add: cond_items_def loaded_append)
  then have st: "step other s = (if taken then next_pc s else jump (pc s + 12) s)"
    using step1 by (simp add: step_word)
  have "steps other 2 (next_pc s) = (wx 17 d s)\<lparr>pc := d\<rparr>"
    using pool_branch_exec(1) [of "next_pc s" base xs "cond_items w' d" ys ret_pc "[Raw w']" d br17] code small pc
    by (simp add: next_pc_def cond_items_def wx_def algebra_simps)
  with st show ?thesis
    by (simp add: steps_unfold jump_def)
qed
section \<open>Relocated instructions behave as the originals\<close>

lemma inverted_TB:
  assumes "w AND 0x7E000000 = 0x36000000"
  shows "a64_decode (set_bits_m (set_bit_m w 24 (bit_m w 24 XOR 1)) 5 18 3)
    = I_TB (\<not> bit w 24) (field 0 5 w) (push_bit 5 (field 31 1 w) OR field 19 5 w) 12"
proof -
  let ?b = "bit_m w 24 XOR 1"
  let ?w = "set_bits_m (set_bit_m w 24 ?b) 5 18 3"
  have b: "?b = 0 \<or> ?b = 1" "?b = 1 \<longleftrightarrow> \<not> bit w 24"
    by (simp_all add: XOR_one)
  have "?w AND 0x7E000000 = 0x36000000"
    using assms by (simp add: and_set_bits_m and_set_bit_m b(1) mask_numeral)
  moreover have "field 0 5 ?w = field 0 5 w" "field 31 1 ?w = field 31 1 w" "field 19 5 ?w = field 19 5 w"
    "field 5 14 ?w = 3"
    using b(1) by (simp_all add: field_set_bits_other field_set_bit_other field_set_bits_same)
  moreover have "bit ?w 24 \<longleftrightarrow> \<not> bit w 24"
    using b by (simp add: bit_set_bits_m bit_set_bit_m)
  ultimately show ?thesis
    by (simp add: decode_TB sext_def)
qed

lemma inverted_CB:
  assumes "w AND 0x7E000000 = 0x34000000"
  shows "a64_decode (set_bits_m (set_bit_m w 24 (bit_m w 24 XOR 1)) 5 23 3)
    = I_CB (\<not> bit w 24) (bit w 31) (field 0 5 w) 12"
proof -
  let ?b = "bit_m w 24 XOR 1"
  let ?w = "set_bits_m (set_bit_m w 24 ?b) 5 23 3"
  have b: "?b = 0 \<or> ?b = 1" "?b = 1 \<longleftrightarrow> \<not> bit w 24"
    by (simp_all add: XOR_one)
  have "?w AND 0x7E000000 = 0x34000000"
    using assms by (simp add: and_set_bits_m and_set_bit_m b(1) mask_numeral)
  moreover have "field 0 5 ?w = field 0 5 w" "field 5 19 ?w = 3"
    using b(1) by (simp_all add: field_set_bits_other field_set_bit_other field_set_bits_same)
  moreover have "bit ?w 24 \<longleftrightarrow> \<not> bit w 24" "bit ?w 31 \<longleftrightarrow> bit w 31"
    using b by (simp_all add: bit_set_bits_m bit_set_bit_m)
  ultimately show ?thesis
    by (simp add: decode_CB sext_def)
qed

lemma inverted_Bcond:
  assumes "w AND 0xFF000010 = 0x54000000"
  shows "a64_decode (set_bits_m (set_bits_m w 0 3 (bits_m w 0 3 XOR 1)) 5 23 3)
    = I_Bcond (field 0 4 w XOR 1) 12"
proof -
  let ?c = "field 0 4 w XOR 1"
  let ?w = "set_bits_m (set_bits_m w 0 3 ?c) 5 23 3"
  have "take_bit 4 ?c = ?c"
    by (intro bit_word_eqI) (auto simp: bit_simps bit_1_iff)
  then have c: "unat ?c < 2 ^ (3 - 0 + 1)"
    using take_bit_nat_less_exp [of 4 "unat ?c"] by (simp flip: unsigned_take_bit_eq)
  have "?w AND 0xFF000010 = 0x54000000"
    using assms c by (simp add: and_set_bits_m mask_numeral)
  moreover have "field 0 4 ?w = ?c" "field 5 19 ?w = 3"
    using c by (simp_all add: field_set_bits_other field_set_bits_same)
  ultimately show ?thesis
    by (simp add: decode_Bcond sext_def bits_m_eq_field)
qed
text \<open>
  \<open>placed\<close>: the machine is about to execute the code that replaces the instruction word \<open>w\<close>
  of address \<open>a\<close>, the relocated chunk being in memory at \<open>base\<close>. \<open>simulates\<close>: from there it
  reaches a state that agrees with the effect of the original instruction at its original
  address; control is at the original branch target, or at the code of the next instruction.
\<close>

definition placed :: "a64 \<Rightarrow> u64 \<Rightarrow> item list \<Rightarrow> u32 \<Rightarrow> u64 \<Rightarrow> item list \<Rightarrow> item list \<Rightarrow> u64 \<Rightarrow> bool" where
  "placed s base xs w a js ys ret_pc \<longleftrightarrow> items_of w a = Some js \<and>
     loaded (mem s) base (two_pass (xs @ js @ ys) ret_pc) \<and> length (two_pass (xs @ js @ ys) ret_pc) < 2 ^ 20 \<and>
     pc s = base + 4 * word_of_nat (length xs)"

definition simulates :: "(u32 \<Rightarrow> a64 \<Rightarrow> a64) \<Rightarrow> a64 \<Rightarrow> u32 \<Rightarrow> u64 \<Rightarrow> nat \<Rightarrow> bool" where
  "simulates other s w a len \<longleftrightarrow> (let i = a64_decode w; s0 = s\<lparr>pc := a\<rparr> in
     \<exists>n > 0. agree17 (steps other n s) (exec other i s0) \<and>
       pc (steps other n s) = (case target_of i s0 of Some t \<Rightarrow> t | None \<Rightarrow> pc s + word_of_nat len))"

lemma simulatesI:
  assumes "0 < n" "agree17 (steps other n s) (exec other (a64_decode w) (s\<lparr>pc := a\<rparr>))"
    "pc (steps other n s) = (case target_of (a64_decode w) (s\<lparr>pc := a\<rparr>) of Some t \<Rightarrow> t | None \<Rightarrow> pc s + word_of_nat len)"
  shows "simulates other s w a len"
  using assms by (auto simp: simulates_def Let_def)

lemma layout_Raw: "layout off p (map Raw ws) = ws"
  by (induction ws arbitrary: off) simp_all

lemma layout_Raw_append: "layout off p (map Raw ws @ [Raw w]) = ws @ [w]"
  using layout_Raw [of off p "ws @ [w]"] by simp

lemma length_mov_words [simp]: "length (mov_words rd imm) = 4"
  by (simp add: mov_words_def)

lemma reloc_ADR:
  assumes "placed s base xs w a js ys ret_pc" "w AND 0x1F000000 = 0x10000000"
  shows "simulates other s w a (4 * length js)"
proof -
  note pl = assms(1) [unfolded placed_def]
  let ?v = "if w AND 0x9F000000 = 0x10000000 then a + decode_immhi_immlo_offset w
          else ALIGN_FLOOR a 0x1000 + decode_immhi_immlo_zero12_offset w"
  have js: "js = map Raw (mov_words (X_reg (field 0 5 w)) ?v)"
    using pl assms(2) by (simp add: items_of_def and_clash [OF assms(2)])
  have "loaded (mem s) (pc s) (wbytes (mov_words (X_reg (field 0 5 w)) ?v))"
    using loaded_items(1) [of "mem s" base xs js ys ret_pc] pl by (simp add: js layout_Raw)
  then have st: "steps other 4 s = (wx (field 0 5 w) ?v s)\<lparr>pc := pc s + 16\<rparr>"
    using Mov_exec [of s "X_reg (field 0 5 w)" ?v other] by (simp add: field_reg_small)
  have hi: "w AND 0x9F000000 = 0x10000000 \<or> w AND 0x9F000000 = 0x90000000"
  proof -
    have "w AND 0x9F000000 = (w AND 0x1F000000) OR (w AND push_bit 31 1)"
      by (simp flip: bit.conj_disj_distrib)
    then show ?thesis
      unfolding and_push_one assms(2) by (simp split: if_splits)
  qed
  show ?thesis
    using hi st by (intro simulatesI [of 4])
      (auto simp: decode_ADR decode_ADRP exec_def next_pc_def immhi_immlo agree17_def wx_def target_of_def js
        decode_immhi_immlo_zero12_offset_def ALIGN_FLOOR_def)
qed

lemma literal_load_exec:
  assumes "placed s base xs w a js ys ret_pc"
    "js = map Raw (mov_words TMP_REG_0 v) @ [Raw (0xF9400220 OR field 0 5 w)]"
  shows "steps other 5 s = next_pc (wx (field 0 5 w) (le_word (ld 8 (mem s) v)) ((wx 17 v s)\<lparr>pc := pc s + 16\<rparr>))"
proof -
  let ?w = "0xF9400220 OR field 0 5 w"
  have ld: "loaded (mem s) (pc s) (wbytes (mov_words TMP_REG_0 v))" "loaded (mem s) (pc s + 16) (le_bytes 4 ?w)"
    using loaded_items(1) [of "mem s" base xs js ys ret_pc] assms(1)
    by (simp_all add: assms(2) placed_def layout_Raw_append loaded_append)
  then have st: "steps other 4 s = (wx 17 v s)\<lparr>pc := pc s + 16\<rparr>"
    using Mov_exec [of s TMP_REG_0 v other] by (simp add: TMP_REG_0_def)
  have "a64_decode ?w = I_LDR64 (field 0 5 w) 17 0"
    unfolding field_def by (subst decode_LDR64) (simp_all add: fields)
  then show ?thesis
    using step_word [of "steps other 4 s" ?w other] ld(2) st by (simp add: steps_unfold exec_def rxsp_def)
qed

lemma reloc_LDR:
  assumes "placed s base xs w a js ys ret_pc" "w AND 0xFF000000 = 0x58000000"
  shows "simulates other s w a (4 * length js)"
proof -
  have opc: "field 30 2 w = 1"
    using field_of_masked [of 30 2 "0xFF000000" w] assms(2) by (simp add: field_numeral mask_numeral)
  have "w AND 0x3B000000 = 0x18000000"
    using and_weaken [OF assms(2), of "0x3B000000"] by simp
  then have js: "js = map Raw (mov_words TMP_REG_0 (a + decode_imm19_offset w)) @ [Raw (0xF9400220 OR field 0 5 w)]"
    using assms(1) opc by (simp add: placed_def items_of_def)
  show ?thesis
    using assms(2) literal_load_exec [OF assms(1) js, of other] by (intro simulatesI [of 5])
      (auto simp: decode_LDR_lit64 exec_def next_pc_def agree17_def wx_def target_of_def js imm_offsets)
qed

lemma reloc_B:
  assumes "placed s base xs w a js ys ret_pc" "w AND 0xFC000000 = 0x14000000"
  shows "simulates other s w a (4 * length js)"
proof -
  note pl = assms(1) [unfolded placed_def]
  let ?v = "a + decode_imm26_offset w"
  have js: "js = [] @ [Pool ?v, Raw br17]"
    using pl and_weaken [OF assms(2), of "0x7C000000"] assms(2)
    by (simp add: items_of_def and_clash [OF assms(2)])
  then have "steps other 2 s = (wx 17 ?v s)\<lparr>pc := ?v\<rparr>"
    using pool_branch_exec(1) [OF _ _ js, of s base xs ys ret_pc other] pl by simp
  then show ?thesis
    using assms(2) by (intro simulatesI [of 2])
      (auto simp: decode_B exec_def jump_def agree17_def target_of_def imm_offsets)
qed

lemma reloc_BL:
  assumes "placed s base xs w a js ys ret_pc" "w AND 0xFC000000 = 0x94000000"
  shows "steps other 2 s = s\<lparr>xr := (xr s)(17 := a + push_bit 2 (sext 26 (field 0 26 w)),
      30 := pc s + 4 * word_of_nat (length js)), pc := a + push_bit 2 (sext 26 (field 0 26 w))\<rparr>"
proof -
  note pl = assms(1) [unfolded placed_def]
  let ?v = "a + decode_imm26_offset w"
  have js: "js = [] @ [Pool ?v, Raw blr17]"
    using pl and_weaken [OF assms(2), of "0x7C000000"] assms(2)
    by (simp add: items_of_def and_clash [OF assms(2)])
  then show ?thesis
    using pool_branch_exec(2) [OF _ _ js, of s base xs ys ret_pc other] pl by (simp add: imm_offsets)
qed

lemma simulates_cond:
  assumes "placed s base xs w a js ys ret_pc" "js = cond_items w' d"
    "exec other (a64_decode w') s = (if taken then next_pc s else jump (pc s + 12) s)"
    "target_of (a64_decode w) (s\<lparr>pc := a\<rparr>) = (if taken then Some d else None)"
    "exec other (a64_decode w) (s\<lparr>pc := a\<rparr>) = s\<lparr>pc := (if taken then d else a + 4)\<rparr>"
  shows "simulates other s w a (4 * length js)"
proof -
  have "steps other (if taken then 3 else 1) s = (if taken then (wx 17 d s)\<lparr>pc := d\<rparr> else s\<lparr>pc := pc s + 12\<rparr>)"
    using assms(1-3) by (intro cond_branch_exec) (auto simp: placed_def)
  with assms(2,4,5) show ?thesis
    by (intro simulatesI [of "if taken then 3 else 1"]) (auto simp: agree17_def cond_items_def)
qed

lemma reloc_TB:
  assumes "placed s base xs w a js ys ret_pc" "w AND 0x7E000000 = 0x36000000"
  shows "simulates other s w a (4 * length js)"
proof -
  let ?taken = "bit (rx s (field 0 5 w)) (unat (push_bit 5 (field 31 1 w) OR field 19 5 w)) = bit w 24"
  have js: "js = cond_items (set_bits_m (set_bit_m w 24 (bit_m w 24 XOR 1)) 5 18 3) (a + decode_imm14_offset w)"
    using assms by (simp add: placed_def items_of_def and_clash [OF assms(2)])
  show ?thesis
    by (rule simulates_cond [OF assms(1) js, where taken = ?taken])
      (auto simp: inverted_TB [OF assms(2)] decode_TB [OF assms(2)] exec_def target_of_def next_pc_def
        jump_def rx_def imm_offsets)
qed

lemma reloc_CB:
  assumes "placed s base xs w a js ys ret_pc" "w AND 0x7E000000 = 0x34000000"
  shows "simulates other s w a (4 * length js)"
proof -
  let ?taken = "((if bit w 31 then rx s (field 0 5 w) else ucast (ucast (rx s (field 0 5 w)) :: u32)) \<noteq> 0) = bit w 24"
  have js: "js = cond_items (set_bits_m (set_bit_m w 24 (bit_m w 24 XOR 1)) 5 23 3) (a + decode_imm19_offset w)"
    using assms by (simp add: placed_def items_of_def and_clash [OF assms(2)])
  show ?thesis
    by (rule simulates_cond [OF assms(1) js, where taken = ?taken])
      (auto simp: inverted_CB [OF assms(2)] decode_CB [OF assms(2)] exec_def target_of_def next_pc_def
        jump_def rx_def imm_offsets Let_def)
qed

lemma reloc_Bcond:
  assumes "placed s base xs w a js ys ret_pc" "w AND 0xFF000010 = 0x54000000" "field 0 4 w < 14"
  shows "simulates other s w a (4 * length js)"
proof -
  let ?taken = "cond_holds (field 0 4 w) (nzcv s)"
  have js: "js = cond_items (set_bits_m (set_bits_m w 0 3 (bits_m w 0 3 XOR 1)) 5 23 3) (a + decode_imm19_offset w)"
    using assms and_weaken [OF assms(2), of "0xFE000000"]
    by (simp add: placed_def items_of_def and_clash [OF assms(2)])
  show ?thesis
    by (rule simulates_cond [OF assms(1) js, where taken = ?taken])
      (auto simp: inverted_Bcond [OF assms(2)] decode_Bcond [OF assms(2)] exec_def target_of_def next_pc_def
        jump_def imm_offsets cond_invert [OF assms(3)])
qed

text \<open>Instructions that do not depend on the program counter are copied.\<close>

definition pc_free :: "insn \<Rightarrow> bool" where
  "pc_free i = (case i of
     I_B _ \<Rightarrow> False | I_BL _ \<Rightarrow> False | I_BLR _ \<Rightarrow> False
   | I_LDR_lit32 _ _ \<Rightarrow> False | I_LDR_lit64 _ _ \<Rightarrow> False | I_LDRSW_lit _ _ \<Rightarrow> False
   | I_PRFM_lit _ \<Rightarrow> False | I_LDR_simd_lit _ _ _ \<Rightarrow> False
   | I_ADR _ _ \<Rightarrow> False | I_ADRP _ _ \<Rightarrow> False
   | I_TB _ _ _ _ \<Rightarrow> False | I_CB _ _ _ _ \<Rightarrow> False | I_Bcond _ _ \<Rightarrow> False
   | _ \<Rightarrow> True)"

definition pc_independent :: "(u32 \<Rightarrow> a64 \<Rightarrow> a64) \<Rightarrow> bool" where
  "pc_independent other \<longleftrightarrow> (\<forall>v t x. other v (t\<lparr>pc := x\<rparr>) = (other v t)\<lparr>pc := x\<rparr>)"

lemma reloc_copy:
  assumes "placed s base xs w a js ys ret_pc" "js = [Raw w]" "pc_free (a64_decode w)" "pc_independent other"
  shows "simulates other s w a (4 * length js)"
proof -
  have ind: "other v (t\<lparr>pc := x\<rparr>) = (other v t)\<lparr>pc := x\<rparr>" for v t x
    using assms(4) by (simp add: pc_independent_def)
  have "loaded (mem s) (pc s) (le_bytes 4 w)"
    using loaded_items(1) [of "mem s" base xs js ys ret_pc] assms(1,2) by (simp add: placed_def)
  then have "steps other 1 s = exec other (a64_decode w) s"
    by (simp add: step_word)
  moreover have "pc (other v s) = pc s" for v
    using ind [of v "pc s" s] by (metis a64.select_convs(3) a64.surjective a64.update_convs(3))
  ultimately show ?thesis
    using assms(2,3) by (intro simulatesI [of 1]; cases "a64_decode w")
      (auto simp: pc_free_def exec_def next_pc_def jump_def agree17_def target_of_def rx_def rxsp_def
        wx_def wxsp_def ind)
qed

text \<open>The code that follows the last instruction returns to the original function.\<close>

lemma reloc_back:
  assumes "loaded (mem s) base (two_pass is ret_pc)" "pc s = base + 4 * word_of_nat (length is)"
  shows "steps other 2 s = s\<lparr>xr := (xr s)(17 := ret_pc), pc := ret_pc\<rparr>"
proof -
  have "loaded (mem s) (pc s) (wbytes [ldr17 (int (4 * 2)), br17])"
    "loaded (mem s) (pc s + word_of_nat (4 * 2)) (le_bytes 8 ret_pc)"
    using assms by (simp_all add: two_pass_def loaded_append algebra_simps)
  then show ?thesis
    using ldr_br_exec [of s 2 ret_pc other] by simp
qed

text \<open>
  A 32-bit literal load is relocated to a 64-bit load: \<^verbatim>\<open>Assembler::ldr\<close> always uses the
  64-bit opcode. The low half of the register is right, the high half is whatever follows the
  literal instead of zero.
\<close>

lemma reloc_LDR_w:
  assumes "placed s base xs w a js ys ret_pc" "w AND 0xFF000000 = 0x18000000"
    "field 0 5 w \<noteq> 31"
  shows "xr (steps other 5 s) (field 0 5 w) = le_word (ld 8 (mem s) (a + push_bit 2 (sext 19 (field 5 19 w))))"
    "xr (exec other (a64_decode w) (s\<lparr>pc := a\<rparr>)) (field 0 5 w)
      = ucast (le_word (ld 4 (mem s) (a + push_bit 2 (sext 19 (field 5 19 w)))) :: u32)"
proof -
  note pl = assms(1) [unfolded placed_def]
  let ?v = "a + decode_imm19_offset w"
  let ?w = "0xF9400220 OR field 0 5 w"
  have opc: "field 30 2 w = 0"
    using field_of_masked [of 30 2 "0xFF000000" w] assms(2) by (simp add: field_numeral mask_numeral)
  have "w AND 0x3B000000 = 0x18000000"
    using and_weaken [OF assms(2), of "0x3B000000"] by simp
  then have js: "js = map Raw (mov_words TMP_REG_0 ?v) @ [Raw ?w]"
    using pl opc by (simp add: items_of_def)
  show "xr (steps other 5 s) (field 0 5 w) = le_word (ld 8 (mem s) (a + push_bit 2 (sext 19 (field 5 19 w))))"
    using literal_load_exec [OF assms(1) js, of other] assms(3) by (simp add: next_pc_def wx_def imm_offsets)
  show "xr (exec other (a64_decode w) (s\<lparr>pc := a\<rparr>)) (field 0 5 w)
      = ucast (le_word (ld 4 (mem s) (a + push_bit 2 (sext 19 (field 5 19 w)))) :: u32)"
    using assms(2,3) by (simp add: decode_LDR_lit32 exec_def next_pc_def wx_def)
qed

section \<open>The relocated chunk\<close>

text \<open>
  \<open>reloc_offset ws a k\<close> is the byte offset in the generated code of the code for the \<open>k\<close>-th
  of the instruction words \<open>ws\<close> of address \<open>a\<close>.
\<close>

definition reloc_offset :: "u32 list \<Rightarrow> u64 \<Rightarrow> nat \<Rightarrow> nat" where
  "reloc_offset ws a k = (case items_from (take k ws) a of None \<Rightarrow> 0 | Some is \<Rightarrow> 4 * length is)"

lemma items_from_split:
  assumes "items_from ws a = Some is" "k < length ws"
  obtains xs js ys where "is = xs @ js @ ys" "items_from (take k ws) a = Some xs"
    "items_of (ws ! k) (a + 4 * word_of_nat k) = Some js" "items_from (take (Suc k) ws) a = Some (xs @ js)"
  using assms
proof (induction ws arbitrary: a "is" k thesis)
  case Nil
  then show ?case by simp
next
  case (Cons w ws)
  obtain hs ts where h: "items_of w a = Some hs" "items_from ws (a + 4) = Some ts" "is = hs @ ts"
    using Cons.prems(2) by (auto split: option.splits)
  show ?case
  proof (cases k)
    case 0
    then show ?thesis
      using Cons.prems(1) [of "[]" hs ts] h by simp
  next
    case (Suc j)
    show ?thesis
    proof (rule Cons.IH [OF _ h(2), of j])
      show "j < length ws"
        using Cons.prems(3) Suc by simp
      fix xs js ys
      assume "ts = xs @ js @ ys" "items_from (take j ws) (a + 4) = Some xs"
        "items_of (ws ! j) (a + 4 + 4 * word_of_nat j) = Some js"
        "items_from (take (Suc j) ws) (a + 4) = Some (xs @ js)"
      then show thesis
        using Cons.prems(1) [of "hs @ xs" js ys] h Suc by (simp add: algebra_simps)
    qed
  qed
qed

lemma GenRelocateCode_placed:
  assumes "GenRelocateCode m buffer start n = Inr st" "loaded (mem s) base (buf st)" "length (buf st) < 2 ^ 20"
    "ws = origin_words m buffer 0 n" "k < length ws" "pc s = base + word_of_nat (reloc_offset ws start k)"
  obtains xs js ys where
    "placed s base xs (ws ! k) (start + 4 * word_of_nat k) js ys (start + 4 * word_of_nat (length ws))"
    "reloc_offset ws start (Suc k) - reloc_offset ws start k = 4 * length js"
proof -
  obtain "is" where "is": "items_from ws start = Some is" "buf st = two_pass is (start + 4 * word_of_nat (length ws))"
    using GenRelocateCode_two_pass [of m buffer start n] assms(1,4) by auto
  from items_from_split [OF this(1) assms(5)] obtain xs js ys where *: "is = xs @ js @ ys"
    "items_from (take k ws) start = Some xs" "items_of (ws ! k) (start + 4 * word_of_nat k) = Some js"
    "items_from (take (Suc k) ws) start = Some (xs @ js)" .
  show thesis
    using assms(2,3,6) "is"(2) * by (intro that [of xs js ys]) (auto simp: placed_def reloc_offset_def)
qed

text \<open>The classes of instruction words that are rewritten and keep their meaning.\<close>

definition rewritten :: "u32 \<Rightarrow> bool" where
  "rewritten w \<longleftrightarrow> w AND 0xFF000000 = 0x58000000 \<or> w AND 0x1F000000 = 0x10000000 \<or>
     w AND 0xFC000000 = 0x14000000 \<or> w AND 0x7E000000 = 0x36000000 \<or> w AND 0x7E000000 = 0x34000000 \<or>
     w AND 0xFF000010 = 0x54000000 \<and> field 0 4 w < 14"

lemma reloc_rewritten:
  assumes "placed s base xs w a js ys ret_pc" "rewritten w"
  shows "simulates other s w a (4 * length js)"
  using assms(2) reloc_LDR [OF assms(1)] reloc_ADR [OF assms(1)] reloc_B [OF assms(1)] reloc_TB [OF assms(1)]
    reloc_CB [OF assms(1)] reloc_Bcond [OF assms(1)] unfolding rewritten_def by blast

text \<open>A memory that holds given bytes, for concrete instances.\<close>

definition place :: "u64 \<Rightarrow> bytes \<Rightarrow> u64 \<Rightarrow> u8" where
  "place base bs a = (if unat (a - base) < length bs then bs ! unat (a - base) else 0)"

lemma loaded_place: "length bs < 2 ^ 64 \<Longrightarrow> loaded (place base bs) base bs"
  by (auto simp: loaded_def place_def unat_of_nat take_bit_nat_eq_self)

section \<open>Properties\<close>

text \<open>
  C3. The relocation routine, which emits placeholder loads, records them in labels and patches
  them when the literal pool is placed, produces exactly the bytes of a two-pass assembler that
  computes every offset from the final layout; it stops (\<^verbatim>\<open>UNIMPLEMENTED\<close>) exactly when some
  word of the chunk is a literal load of a kind it does not handle.
\<close>

theorem GenRelocateCode_is_two_pass:
  "(case GenRelocateCode m buffer start n of
      Inl e \<Rightarrow> e = Unimplemented \<and> items_from (origin_words m buffer 0 n) start = None
    | Inr st \<Rightarrow> \<exists>is. items_from (origin_words m buffer 0 n) start = Some is \<and>
        buf st = two_pass is (start + 4 * word_of_nat (length (origin_words m buffer 0 n))))"
  using GenRelocateCode_two_pass [of m buffer start n] by auto

text \<open>
  C4. Relocated code behaves as the code it replaces. With the output of the relocation routine
  in memory at \<open>base\<close>, running the code generated for the \<open>k\<close>-th original instruction, for
  every class of instruction the routine rewrites (64-bit literal loads, \<^verbatim>\<open>adr\<close>/\<^verbatim>\<open>adrp\<close>,
  \<^verbatim>\<open>b\<close>, \<^verbatim>\<open>tbz\<close>/\<^verbatim>\<open>tbnz\<close>, \<^verbatim>\<open>cbz\<close>/\<^verbatim>\<open>cbnz\<close>, \<^verbatim>\<open>b.cond\<close> with one of the fourteen
  conditions that test flags), leads to
  the state that the original instruction produces at its original address, up to the scratch
  register \<^verbatim>\<open>x17\<close>; control arrives at the original branch target when the branch is taken
  and at the code of the next instruction otherwise. Not among these classes are the literal loads of
  32-bit, sign-extended and SIMD values, which are rewritten to a wrong load (C14), \<^verbatim>\<open>bl\<close> (C5) and
  \<^verbatim>\<open>b.al\<close>/\<^verbatim>\<open>b.nv\<close>.
\<close>

theorem relocated_instruction_simulates:
  assumes "GenRelocateCode m buffer start n = Inr st" "loaded (mem s) base (buf st)" "length (buf st) < 2 ^ 20"
    "k < length (origin_words m buffer 0 n)" "rewritten (origin_words m buffer 0 n ! k)"
    "pc s = base + word_of_nat (reloc_offset (origin_words m buffer 0 n) start k)"
  shows "simulates other s (origin_words m buffer 0 n ! k) (start + 4 * word_of_nat k)
    (reloc_offset (origin_words m buffer 0 n) start (Suc k) - reloc_offset (origin_words m buffer 0 n) start k)"
proof -
  obtain xs js ys where p: "placed s base xs (origin_words m buffer 0 n ! k) (start + 4 * word_of_nat k) js ys
      (start + 4 * word_of_nat (length (origin_words m buffer 0 n)))"
    "reloc_offset (origin_words m buffer 0 n) start (Suc k) - reloc_offset (origin_words m buffer 0 n) start k
      = 4 * length js"
    using GenRelocateCode_placed [OF assms(1-3) refl assms(4,6)] .
  show ?thesis
    unfolding p(2) by (rule reloc_rewritten [OF p(1) assms(5)])
qed

text \<open>A chunk of one instruction at \<open>0x4000\<close>, relocated to \<open>0x9000\<close>.\<close>

definition wit_mem :: "u32 \<Rightarrow> u64 \<Rightarrow> u8" where
  "wit_mem w = place 0x4000 (wbytes [w])"

definition wit_state :: "bytes \<Rightarrow> u64 \<Rightarrow> a64" where
  "wit_state bs p = \<lparr>xr = (\<lambda>_. 0), sp = 0, pc = p, mem = place 0x9000 bs,
     nzcv = \<lparr>fN = False, fZ = False, fC = False, fV = False\<rparr>\<rparr>"

lemma wit_words: "origin_words (wit_mem w) 0x4000 0 4 = [w]"
proof -
  have "loaded (wit_mem w) 0x4000 (le_bytes 4 w)"
    unfolding wit_mem_def using loaded_place [of "wbytes [w]" "0x4000"] by simp
  then show ?thesis
    by (simp add: origin_words_def fetch_def loaded_ld bytes)
qed

lemma wit_reloc:
  assumes "items_from [w] 0x4000 = Some is"
  obtains st where "GenRelocateCode (wit_mem w) 0x4000 0x4000 4 = Inr st" "buf st = two_pass is 0x4004"
  using GenRelocateCode_two_pass [of "wit_mem w" "0x4000" "0x4000" 4] assms
  by (auto simp: wit_words simp del: items_from.simps)

lemma wit_loaded: "length bs < 2 ^ 20 \<Longrightarrow> loaded (mem (wit_state bs p)) 0x9000 bs"
  by (simp add: wit_state_def loaded_place)

lemma wit_pc [simp]: "pc (wit_state bs p) = p"
  by (simp add: wit_state_def)

lemma wit_items: "items_from [0x14000004] 0x4000 = Some [Pool 0x4010, Raw br17]"
  by (simp add: items_of_def imm_offsets field_def sext_def)

theorem relocated_instruction_simulates_witness:
  "\<exists>st. GenRelocateCode (wit_mem 0x14000004) 0x4000 0x4000 4 = Inr st \<and>
     simulates (\<lambda>_ s. s) (wit_state (buf st) 0x9000) 0x14000004 0x4000 8"
proof -
  obtain st where st: "GenRelocateCode (wit_mem 0x14000004) 0x4000 0x4000 4 = Inr st"
    "buf st = two_pass [Pool 0x4010, Raw br17] 0x4004"
    using wit_reloc [OF wit_items] .
  then have small: "length (buf st) < 2 ^ 20"
    by (simp add: two_pass_def)
  have "simulates (\<lambda>_ s. s) (wit_state (buf st) 0x9000) 0x14000004 0x4000 8"
    using relocated_instruction_simulates [OF st(1) wit_loaded [OF small] small, of 0 "0x9000" "\<lambda>_ s. s"]
    by (simp add: wit_words wit_items reloc_offset_def rewritten_def del: items_from.simps(2))
  with st(1) show ?thesis
    by blast
qed

text \<open>
  C5. A relocated \<^verbatim>\<open>bl\<close> reaches the original callee with the link register holding the
  address of the code generated for the next instruction, so the callee returns into the
  relocated chunk; only \<^verbatim>\<open>x17\<close> changes otherwise.
\<close>

theorem relocated_call_links:
  assumes "GenRelocateCode m buffer start n = Inr st" "loaded (mem s) base (buf st)" "length (buf st) < 2 ^ 20"
    "k < length (origin_words m buffer 0 n)" "w = origin_words m buffer 0 n ! k" "w AND 0xFC000000 = 0x94000000"
    "pc s = base + word_of_nat (reloc_offset (origin_words m buffer 0 n) start k)"
    "target = start + 4 * word_of_nat k + push_bit 2 (sext 26 (field 0 26 w))"
  shows "steps other 2 s = s\<lparr>xr := (xr s)(17 := target,
      30 := pc s + word_of_nat (reloc_offset (origin_words m buffer 0 n) start (Suc k)
             - reloc_offset (origin_words m buffer 0 n) start k)), pc := target\<rparr>"
proof -
  obtain xs js ys where p: "placed s base xs (origin_words m buffer 0 n ! k) (start + 4 * word_of_nat k) js ys
      (start + 4 * word_of_nat (length (origin_words m buffer 0 n)))"
    "reloc_offset (origin_words m buffer 0 n) start (Suc k) - reloc_offset (origin_words m buffer 0 n) start k
      = 4 * length js"
    using GenRelocateCode_placed [OF assms(1-3) refl assms(4,7)] .
  show ?thesis
    using reloc_BL [OF p(1), of other] assms(5,6,8) unfolding p(2) by simp
qed

lemma wit_items_bl: "items_from [0x94000004] 0x4000 = Some [Pool 0x4010, Raw blr17]"
  by (simp add: items_of_def imm_offsets field_def sext_def)

theorem relocated_call_links_witness:
  "\<exists>st. GenRelocateCode (wit_mem 0x94000004) 0x4000 0x4000 4 = Inr st \<and>
     xr (steps (\<lambda>_ s. s) 2 (wit_state (buf st) 0x9000)) 30 = 0x9008"
proof -
  obtain st where st: "GenRelocateCode (wit_mem 0x94000004) 0x4000 0x4000 4 = Inr st"
    "buf st = two_pass [Pool 0x4010, Raw blr17] 0x4004"
    using wit_reloc [OF wit_items_bl] .
  then have small: "length (buf st) < 2 ^ 20"
    by (simp add: two_pass_def)
  have "xr (steps (\<lambda>_ s. s) 2 (wit_state (buf st) 0x9000)) 30 = 0x9008"
    using relocated_call_links [OF st(1) wit_loaded [OF small] small, of 0 "0x94000004" "0x9000" "0x4010" "\<lambda>_ s. s"]
    by (simp add: wit_words wit_items_bl reloc_offset_def field_def sext_def del: items_from.simps(2))
  with st(1) show ?thesis
    by blast
qed

text \<open>
  C6. After the last relocated instruction, two instructions bring control back to the original
  function, to the first instruction after the relocated chunk.
\<close>

theorem relocated_chunk_returns:
  assumes "GenRelocateCode m buffer start n = Inr st" "loaded (mem s) base (buf st)"
    "pc s = base + word_of_nat (reloc_offset (origin_words m buffer 0 n) start (length (origin_words m buffer 0 n)))"
  shows "steps other 2 s = s\<lparr>xr := (xr s)(17 := start + 4 * word_of_nat ((n + 3) div 4)),
      pc := start + 4 * word_of_nat ((n + 3) div 4)\<rparr>"
proof -
  obtain "is" where "is": "items_from (origin_words m buffer 0 n) start = Some is"
    "buf st = two_pass is (start + 4 * word_of_nat ((n + 3) div 4))"
    using GenRelocateCode_two_pass [of m buffer start n] assms(1) by (auto simp: origin_words_def)
  then show ?thesis
    using reloc_back [of s base "is"] assms(2,3) by (simp add: reloc_offset_def)
qed

theorem relocated_chunk_returns_witness:
  "\<exists>st. GenRelocateCode (wit_mem 0x14000004) 0x4000 0x4000 4 = Inr st \<and>
     pc (steps (\<lambda>_ s. s) 2 (wit_state (buf st) 0x9008)) = 0x4004"
proof -
  obtain st where st: "GenRelocateCode (wit_mem 0x14000004) 0x4000 0x4000 4 = Inr st"
    "buf st = two_pass [Pool 0x4010, Raw br17] 0x4004"
    using wit_reloc [OF wit_items] .
  then have small: "length (buf st) < 2 ^ 20"
    by (simp add: two_pass_def)
  have "pc (steps (\<lambda>_ s. s) 2 (wit_state (buf st) 0x9008)) = 0x4004"
    using relocated_chunk_returns [OF st(1) wit_loaded [OF small], of "0x9008" "\<lambda>_ s. s"]
    by (simp add: wit_words wit_items reloc_offset_def del: items_from.simps(2))
  with st(1) show ?thesis
    by blast
qed

text \<open>
  C7. An instruction that the routine copies and that does not depend on the program counter has
  the same effect at its new place; control goes on with the code of the next instruction, or to
  the register target of a \<^verbatim>\<open>br\<close>. \<open>other\<close>, the effect of instructions outside the modelled
  set, must not depend on the program counter either.
\<close>

theorem copied_instruction_simulates:
  assumes "GenRelocateCode m buffer start n = Inr st" "loaded (mem s) base (buf st)" "length (buf st) < 2 ^ 20"
    "k < length (origin_words m buffer 0 n)"
    "pc s = base + word_of_nat (reloc_offset (origin_words m buffer 0 n) start k)"
    "items_of (origin_words m buffer 0 n ! k) (start + 4 * word_of_nat k) = Some [Raw (origin_words m buffer 0 n ! k)]"
    "pc_free (a64_decode (origin_words m buffer 0 n ! k))" "pc_independent other"
  shows "simulates other s (origin_words m buffer 0 n ! k) (start + 4 * word_of_nat k) 4"
proof -
  obtain xs js ys where p: "placed s base xs (origin_words m buffer 0 n ! k) (start + 4 * word_of_nat k) js ys
      (start + 4 * word_of_nat (length (origin_words m buffer 0 n)))"
    using GenRelocateCode_placed [OF assms(1-3) refl assms(4,5)] by blast
  then have js: "js = [Raw (origin_words m buffer 0 n ! k)]"
    using assms(6) by (simp add: placed_def)
  show ?thesis
    using reloc_copy [OF p js assms(7,8)] by (simp add: js)
qed

lemma wit_items_copy: "items_from [0xD61F0200] 0x4000 = Some [Raw 0xD61F0200]"
  by (simp add: items_of_def)

theorem copied_instruction_simulates_witness:
  "\<exists>st. GenRelocateCode (wit_mem 0xD61F0200) 0x4000 0x4000 4 = Inr st \<and>
     simulates (\<lambda>_ s. s) (wit_state (buf st) 0x9000) 0xD61F0200 0x4000 4"
proof -
  obtain st where st: "GenRelocateCode (wit_mem 0xD61F0200) 0x4000 0x4000 4 = Inr st"
    "buf st = two_pass [Raw 0xD61F0200] 0x4004"
    using wit_reloc [OF wit_items_copy] .
  then have small: "length (buf st) < 2 ^ 20"
    by (simp add: two_pass_def)
  have "simulates (\<lambda>_ s. s) (wit_state (buf st) 0x9000) 0xD61F0200 0x4000 4"
    using copied_instruction_simulates [OF st(1) wit_loaded [OF small] small, of 0 "0x9000" "\<lambda>_ s. s"]
    by (simp add: wit_words wit_items_copy reloc_offset_def decode_BR pc_free_def pc_independent_def
        items_of_def
        del: items_from.simps(2))
  with st(1) show ?thesis
    by blast
qed

text \<open>
  C14. A relocated 32-bit literal load (\<^verbatim>\<open>ldr wN, label\<close>) loads all eight bytes at the
  literal's address into the 64-bit register, where the original instruction zero-extends the
  four bytes of the literal: the emitted load is the 64-bit one for every register size.
\<close>

theorem relocated_literal32_loads_64:
  assumes "GenRelocateCode m buffer start n = Inr st" "loaded (mem s) base (buf st)" "length (buf st) < 2 ^ 20"
    "k < length (origin_words m buffer 0 n)" "w = origin_words m buffer 0 n ! k" "w AND 0xFF000000 = 0x18000000"
    "field 0 5 w \<noteq> 31" "pc s = base + word_of_nat (reloc_offset (origin_words m buffer 0 n) start k)"
    "a = start + 4 * word_of_nat k" "literal = a + push_bit 2 (sext 19 (field 5 19 w))"
  shows "xr (steps other 5 s) (field 0 5 w) = le_word (ld 8 (mem s) literal) \<and>
    xr (exec other (a64_decode w) (s\<lparr>pc := a\<rparr>)) (field 0 5 w) = ucast (le_word (ld 4 (mem s) literal) :: u32)"
proof -
  obtain xs js ys where p: "placed s base xs w a js ys (start + 4 * word_of_nat (length (origin_words m buffer 0 n)))"
    using GenRelocateCode_placed [OF assms(1-3) refl assms(4,8)] assms(5,9) by blast
  show ?thesis
    using reloc_LDR_w [OF p assms(6,7), of other] assms(10) by simp
qed

lemma wit_items_ldr:
  "items_from [0x18000040] 0x4000 = Some (map Raw (mov_words TMP_REG_0 0x4008) @ [Raw 0xF9400220])"
  by (simp add: items_of_def imm_offsets field_def sext_def)

theorem relocated_literal32_loads_64_witness:
  "\<exists>st. GenRelocateCode (wit_mem 0x18000040) 0x4000 0x4000 4 = Inr st \<and>
     xr (steps (\<lambda>_ s. s) 5 (wit_state (buf st) 0x9000)) 0 = le_word (ld 8 (mem (wit_state (buf st) 0x9000)) 0x4008)"
proof -
  obtain st where st: "GenRelocateCode (wit_mem 0x18000040) 0x4000 0x4000 4 = Inr st"
    "buf st = two_pass (map Raw (mov_words TMP_REG_0 0x4008) @ [Raw 0xF9400220]) 0x4004"
    using wit_reloc [OF wit_items_ldr] .
  then have small: "length (buf st) < 2 ^ 20"
    by (simp add: two_pass_def mov_words_def)
  have "xr (steps (\<lambda>_ s. s) 5 (wit_state (buf st) 0x9000)) 0 = le_word (ld 8 (mem (wit_state (buf st) 0x9000)) 0x4008)"
    using relocated_literal32_loads_64 [OF st(1) wit_loaded [OF small] small, of 0 "0x18000040" "0x9000" "0x4000"
        "0x4008" "\<lambda>_ s. s"]
    by (simp add: wit_words wit_items_ldr reloc_offset_def field_def sext_def del: items_from.simps(2))
  with st(1) show ?thesis
    by blast
qed

end
