(* ===== verification/Arm64_Trampoline.thy ===== *)
theory Arm64_Trampoline
  imports Arm64_Codegen
begin

text \<open>
  The trampolines of \<^verbatim>\<open>TrampolineBridge/Trampoline/arm64/trampoline-arm64.cc\<close>: the bytes
  that are written over the start of a hooked function so that control reaches the hook. The
  trampolines that need memory near the function are in \<^verbatim>\<open>Arm64_Near_Trampoline\<close>.
\<close>

definition GenerateNormalTrampolineBuffer :: "u64 \<Rightarrow> u64 \<Rightarrow> bytes res" where
  "GenerateNormalTrampolineBuffer from_addr to_addr =
    (let s = TurboAssembler from_addr;
         distance = llabs (from_addr - to_addr);
         adrp_range = push_bit (2 + 19 + 12 - 1) 1 in
     bindr (if distance < adrp_range
            then bindr (AdrpAdd TMP_REG_0 from_addr to_addr s) (\<lambda>s. Inr (br TMP_REG_0 s))
            else LiteralLdrBranch to_addr s)
       (\<lambda>s. Inr (buf s)))"

definition ARM64_B_XXX_RANGE :: u64 where
  "ARM64_B_XXX_RANGE = push_bit 2 (push_bit 25 1)"

section \<open>Signed offsets\<close>

lemma signed_take_bit_small:
  fixes w :: "'a::len word"
  assumes "- (2 ^ n) \<le> sint w" "sint w < 2 ^ n" "n < LENGTH('a)"
  shows "signed_take_bit n w = w"
proof -
  have "signed_take_bit n (sint w) = sint w"
    using assms by (simp add: signed_take_bit_int_eq_self)
  from arg_cong [OF this, of "\<lambda>x. bit x k" for k]
  have "bit (sint w) (min n k) \<longleftrightarrow> bit (sint w) k" for k
    by (simp add: bit_signed_take_bit_iff)
  moreover have "bit (sint w) k \<longleftrightarrow> bit w k" if "k < LENGTH('a)" for k
    using that by (auto simp: bit_sint_iff)
  ultimately have "bit w (min n k) \<longleftrightarrow> bit w k" if "k < LENGTH('a)" for k
    using assms(3) that by (metis min_less_iff_disj)
  then show ?thesis
    by (intro bit_word_eqI) (simp add: bit_simps)
qed

lemma adrp_imm:
  fixes imm :: u64
  assumes "signed_take_bit 32 imm = imm" "take_bit 12 imm = 0"
  shows "push_bit 12 (sext 21 (push_bit 2 (take_bit 19 (ucast (sbits_m (signed_drop_bit 12 imm) 2 20)))
    OR take_bit 2 (ucast (sbits_m (signed_drop_bit 12 imm) 0 1)))) = imm"
proof (intro bit_word_eqI)
  fix n assume n: "n < LENGTH(64)"
  have hi: "bit imm (min 32 k) \<longleftrightarrow> bit imm k" if "k < 64" for k
    using arg_cong [OF assms(1), of "\<lambda>x. bit x k"] that by (simp add: bit_simps)
  have lo: "\<not> bit imm n" if "n < 12"
    using assms(2) that by (metis bit_take_bit_iff bit_0_eq bot_apply bot_bool_def)
  show "bit (push_bit 12 (sext 21 (push_bit 2 (take_bit 19 (ucast (sbits_m (signed_drop_bit 12 imm) 2 20)))
      OR take_bit 2 (ucast (sbits_m (signed_drop_bit 12 imm) 0 1))))) n \<longleftrightarrow> bit imm n"
  proof -
    consider "n < 12" | m where "n = 12 + m" "m < 2" | q where "n = 14 + q" "q < 18" | q where "n = 14 + q" "18 \<le> q"
    proof -
      assume a: "n < 12 \<Longrightarrow> thesis" "\<And>m. n = 12 + m \<Longrightarrow> m < 2 \<Longrightarrow> thesis"
        "\<And>q. n = 14 + q \<Longrightarrow> q < 18 \<Longrightarrow> thesis" "\<And>q. n = 14 + q \<Longrightarrow> 18 \<le> q \<Longrightarrow> thesis"
      show thesis
        using a(1) a(2) [of "n - 12"] a(3) [of "n - 14"] a(4) [of "n - 14"] by linarith
    qed
    then show ?thesis
      using n lo hi [of n] by cases (auto simp: sbits_m_eq_field sext_def bit_simps min_def)
  qed
qed

section \<open>The trampolines reach their target\<close>

definition adrp_add_br :: "u64 \<Rightarrow> u64 \<Rightarrow> u32 list" where
  "adrp_add_br from_addr to_addr =
    (let imm = signed_drop_bit 12 (ALIGN_FLOOR to_addr 0x1000 - ALIGN_FLOOR from_addr 0x1000) in
     [ADRP_op OR Rd TMP_REG_0 OR LeftShift (ucast (sbits_m imm 0 1)) 2 29
        OR LeftShift (ucast (sbits_m imm 2 20)) 19 5,
      ADD_x_imm OR Rd TMP_REG_0 OR Rn TMP_REG_0 OR LeftShift (ucast (to_addr mod 0x1000)) 12 10,
      br17])"

lemma AdrpAdd_br:
  "bindr (AdrpAdd TMP_REG_0 f t s) (\<lambda>s. Inr (br TMP_REG_0 s)) = Inr (s\<lparr>buf := buf s @ wbytes (adrp_add_br f t)\<rparr>)"
proof -
  have u: "ucast (ucast (x :: u32) OR a OR b :: u64) = x OR ucast a OR (ucast b :: u32)" for x and a b :: u64
    by (intro bit_word_eqI) (auto simp: bit_simps)
  show ?thesis
    by (simp add: AdrpAdd_def adrp_def add_def TMP_REG_0_def AddSubImmediate_def IsImmediate_def Operand_imm_def
        reg_Is_def InvalidRegister_def Let_def u ucast_LeftShift br_TMP [unfolded TMP_REG_0_def]
        adrp_add_br_def Emit_def or.assoc)
qed

lemma page_split:
  fixes a :: u64
  shows "a AND - 0x1000 = ALIGN_FLOOR a 0x1000" "ALIGN_FLOOR a 0x1000 + a mod 0x1000 = a"
proof -
  show "a AND - 0x1000 = ALIGN_FLOOR a 0x1000"
    by (simp add: ALIGN_FLOOR_def)
  have "a mod 0x1000 = take_bit 12 a"
    by (simp add: take_bit_eq_mod)
  then show "ALIGN_FLOOR a 0x1000 + a mod 0x1000 = a"
    using ALIGN_FLOOR_pow2 [of a 12] by simp
qed

lemma page_low: "take_bit 12 (ALIGN_FLOOR t 0x1000 - ALIGN_FLOOR f 0x1000 :: u64) = 0"
proof -
  have "ALIGN_FLOOR a 0x1000 = push_bit 12 (drop_bit 12 a)" for a :: u64
    using ALIGN_FLOOR_pow2 [of a 12] by simp (metis add_diff_cancel_right' bits_ident)
  then have "ALIGN_FLOOR t 0x1000 - ALIGN_FLOOR f 0x1000 = push_bit 12 (drop_bit 12 t - drop_bit 12 f)"
    by (simp add: push_bit_eq_mult algebra_simps)
  then show ?thesis
    by (simp add: take_bit_push_bit)
qed

text \<open>The offset that the hardware takes from the first word decides where the three instructions go.\<close>

lemma adrp_add_br_run:
  assumes "loaded (mem s) (pc s) (wbytes (adrp_add_br (pc s) t))" "a64_decode (adrp_add_br (pc s) t ! 0) = I_ADRP 17 d"
  shows "steps other 3 s = (let x = ALIGN_FLOOR (pc s) 0x1000 + d + t mod 0x1000 in s\<lparr>xr := (xr s)(17 := x), pc := x\<rparr>)"
proof -
  obtain w1 w2 where ws: "adrp_add_br (pc s) t = [w1, w2, br17]"
    and w2: "w2 = ADD_x_imm OR Rd TMP_REG_0 OR Rn TMP_REG_0 OR LeftShift (ucast (t mod 0x1000)) 12 10"
    by (simp add: adrp_add_br_def Let_def)
  have code: "loaded (mem s) (pc s) (le_bytes 4 w1)" "loaded (mem s) (pc s + 4) (le_bytes 4 w2)"
    "loaded (mem s) (pc s + 8) (le_bytes 4 br17)"
    using assms(1) by (simp_all add: ws loaded_append add.commute)
  have d1: "a64_decode w1 = I_ADRP 17 d"
    using assms(2) by (simp add: ws)
  have d2: "a64_decode w2 = I_ADD_imm True 17 17 (t mod 0x1000)"
  proof -
    have "ucast (take_bit 12 (ucast (t mod 0x1000) :: u32)) = t mod 0x1000"
      unfolding take_bit_eq_mod [of 12 t, simplified, symmetric]
      by (intro bit_word_eqI) (auto simp: bit_simps)
    then show ?thesis
      using enc_ADD [of TMP_REG_0 TMP_REG_0] by (simp add: w2 TMP_REG_0_def)
  qed
  let ?p = "ALIGN_FLOOR (pc s) 0x1000 + d" and ?x = "ALIGN_FLOOR (pc s) 0x1000 + d + t mod 0x1000"
  let ?s1 = "s\<lparr>xr := (xr s)(17 := ?p), pc := pc s + 4\<rparr>"
  let ?s2 = "s\<lparr>xr := (xr s)(17 := ?x), pc := pc s + 8\<rparr>"
  have "step other s = ?s1"
    using step_word [OF code(1), of other] d1 by (simp add: exec_def next_pc_def page_split(1))
  moreover have "step other ?s1 = ?s2"
    using step_word [of ?s1 w2 other] code(2) d2 by (simp add: exec_def next_pc_def wxsp_def rxsp_def opsize_def)
  moreover have "step other ?s2 = s\<lparr>xr := (xr s)(17 := ?x), pc := ?x\<rparr>"
    using step_word [of ?s2 br17 other] code(3) by (simp add: exec_def jump_def)
  ultimately show ?thesis
    by (simp add: steps_unfold Let_def)
qed

lemma adrp_add_br_exec:
  assumes "loaded (mem s) (pc s) (wbytes (adrp_add_br (pc s) t))"
    "signed_take_bit 32 (ALIGN_FLOOR t 0x1000 - ALIGN_FLOOR (pc s) 0x1000)
      = ALIGN_FLOOR t 0x1000 - ALIGN_FLOOR (pc s) 0x1000"
  shows "steps other 3 s = s\<lparr>xr := (xr s)(17 := t), pc := t\<rparr>"
proof -
  have "a64_decode (adrp_add_br (pc s) t ! 0) = I_ADRP 17 (ALIGN_FLOOR t 0x1000 - ALIGN_FLOOR (pc s) 0x1000)"
    using enc_ADRP [of TMP_REG_0] adrp_imm [OF assms(2) page_low] by (simp add: adrp_add_br_def Let_def TMP_REG_0_def)
  from adrp_add_br_run [OF assms(1) this] show ?thesis
    by (simp add: page_split(2) Let_def)
qed

text \<open>
  Within the range test of the code the page distance is at most \<open>2\<^sup>3\<^sup>2\<close> either way; only
  the value \<open>2\<^sup>3\<^sup>2\<close> itself does not fit the instruction.
\<close>

lemma sint_word_of_int_small:
  assumes "- 1099511627776 \<le> x" "x \<le> 1099511627776"
  shows "sint (word_of_int x :: u64) = x"
  using assms by (simp add: signed_of_int signed_take_bit_int_eq_self)

lemma llabs_abs:
  assumes "uint (llabs w) \<le> 1099511627776"
  shows "\<bar>sint w\<bar> = uint (llabs w)"
proof (cases "sint w < 0")
  case True
  then have "uint (- w) \<le> 1099511627776"
    using assms by (simp add: llabs_def)
  with uint_ge_0 [of "- w"] have "sint (word_of_int (- uint (- w)) :: u64) = - uint (- w)"
    by (intro sint_word_of_int_small) linarith+
  with True show ?thesis
    by (simp add: llabs_def)
next
  case False
  then show ?thesis
    using assms sint_word_of_int_small [of "uint w"] uint_ge_0 [of w] by (simp add: llabs_def)
qed

lemma page_distance:
  fixes f t :: u64
  assumes "llabs (f - t) < push_bit (2 + 19 + 12 - 1) 1"
  defines "d \<equiv> ALIGN_FLOOR t 0x1000 - ALIGN_FLOOR f 0x1000"
  shows "- (2 ^ 32) \<le> sint d \<and> sint d \<le> 2 ^ 32"
proof -
  define x where "x = uint (f mod 0x1000) - uint (t mod 0x1000) - sint (f - t)"
  have r: "0 \<le> uint (a mod 0x1000)" "uint (a mod 0x1000) < 4096" for a :: u64
    by (simp_all add: uint_mod)
  have s: "\<bar>sint (f - t)\<bar> < 4294967296"
    using assms(1) llabs_abs [of "f - t"] by (simp add: word_less_def)
  have "ALIGN_FLOOR a 0x1000 = a - a mod 0x1000" for a :: u64
    using page_split(2) [of a] by (metis add_diff_cancel_right')
  then have dx: "d = word_of_int x"
    by (simp add: d_def x_def)
  have "- 1099511627776 \<le> x" "x \<le> 1099511627776"
    using r [of f] r [of t] s unfolding x_def by linarith+
  then have d: "sint d = x"
    unfolding dx by (rule sint_word_of_int_small)
  have "uint d mod 4096 = 0"
    using page_low [of t f, folded d_def] take_bit_eq_mod [of 12 "uint d"]
    by (simp flip: unsigned_take_bit_eq)
  moreover have "uint d mod 4096 = x mod 4096"
    by (simp add: dx uint_word_of_int mod_mod_cancel)
  ultimately have "4096 dvd x"
    by (simp add: dvd_eq_mod_eq_0)
  then obtain k where k: "x = 4096 * k" ..
  then have "- 1048576 \<le> k \<and> k \<le> 1048576"
    using r [of f] r [of t] s unfolding x_def by linarith
  then show ?thesis
    unfolding d k by simp
qed

lemma TurboAssembler_buf [simp]: "buf (TurboAssembler r) = []"
  by (simp add: TurboAssembler_def)

lemma normal_trampoline_bytes:
  "GenerateNormalTrampolineBuffer f t = Inr
    (if llabs (f - t) < push_bit (2 + 19 + 12 - 1) 1 then wbytes (adrp_add_br f t)
     else wbytes [ldr17 8, br17] @ le_bytes 8 t)"
  unfolding GenerateNormalTrampolineBuffer_def Let_def AdrpAdd_br LiteralLdrBranch_emits by simp

lemma page_distance_fits:
  assumes "llabs (f - t) < push_bit (2 + 19 + 12 - 1) 1"
    "ALIGN_FLOOR t 0x1000 - ALIGN_FLOOR f 0x1000 \<noteq> 2 ^ 32"
  shows "signed_take_bit 32 (ALIGN_FLOOR t 0x1000 - ALIGN_FLOOR f 0x1000)
    = ALIGN_FLOOR t 0x1000 - ALIGN_FLOOR f 0x1000"
proof (rule signed_take_bit_small)
  let ?d = "ALIGN_FLOOR t 0x1000 - ALIGN_FLOOR f 0x1000"
  note r = page_distance [OF assms(1)]
  show "- (2 ^ 32) \<le> sint ?d"
    using r by simp
  have "sint ?d \<noteq> 2 ^ 32"
  proof
    assume "sint ?d = 2 ^ 32"
    then have "word_of_int (sint ?d) = (word_of_int (2 ^ 32) :: u64)"
      by (simp only:)
    with assms(2) show False
      by (simp del: word_of_int_numeral)
  qed
  with r show "sint ?d < 2 ^ 32"
    by simp
qed simp

lemma normal_trampoline_exec:
  assumes "GenerateNormalTrampolineBuffer (pc s) t = Inr bs" "loaded (mem s) (pc s) bs"
    "ALIGN_FLOOR t 0x1000 - ALIGN_FLOOR (pc s) 0x1000 \<noteq> 2 ^ 32"
  shows "\<exists>n > 0. steps other n s = s\<lparr>xr := (xr s)(17 := t), pc := t\<rparr>"
proof (cases "llabs (pc s - t) < push_bit (2 + 19 + 12 - 1) 1")
  case True
  then have "loaded (mem s) (pc s) (wbytes (adrp_add_br (pc s) t))"
    using assms(1,2) by (simp add: normal_trampoline_bytes)
  from adrp_add_br_exec [OF this page_distance_fits [OF True assms(3)]] show ?thesis
    by (intro exI [of _ 3]) simp
next
  case False
  then have "loaded (mem s) (pc s) (wbytes [ldr17 8, br17] @ le_bytes 8 t)"
    using assms(1,2) by (simp add: normal_trampoline_bytes)
  then have "steps other 2 s = (wx 17 t s)\<lparr>pc := t\<rparr>"
    using ldr_br_exec [of s 2 t other] by (simp add: loaded_append add.commute)
  then show ?thesis
    by (intro exI [of _ 2]) simp
qed

section \<open>Near branches\<close>

lemma b_imm_buf: "buf (b_imm imm s) = buf s @ wbytes [B_op OR ucast (take_bit 26 (signed_drop_bit 2 imm))]"
  using sbits_m_eq_field [of 0 25 "signed_drop_bit 2 imm"] by (simp add: b_imm_def Let_def field_def)

lemma sext26:
  fixes imm :: u64
  assumes "signed_take_bit 27 imm = imm" "take_bit 2 imm = 0"
  shows "push_bit 2 (sext 26 (ucast (take_bit 26 (signed_drop_bit 2 imm)))) = imm"
proof (intro bit_word_eqI)
  fix n assume n: "n < LENGTH(64)"
  have hi: "bit imm (min 27 n) \<longleftrightarrow> bit imm n"
    using arg_cong [OF assms(1), of "\<lambda>x. bit x n"] n by (simp add: bit_simps)
  have lo: "\<not> bit imm n" if "n < 2"
    using assms(2) that by (metis bit_take_bit_iff bit_0_eq bot_apply bot_bool_def)
  show "bit (push_bit 2 (sext 26 (ucast (take_bit 26 (signed_drop_bit 2 imm))))) n \<longleftrightarrow> bit imm n"
  proof (cases "n < 2")
    case True
    with lo show ?thesis
      by (simp add: bit_simps)
  next
    case False
    then obtain m where "n = 2 + m"
      using le_Suc_ex not_less by blast
    with hi n show ?thesis
      by (cases "m < 25") (auto simp: sext_def bit_simps min_def)
  qed
qed

lemma llabs_small:
  fixes d :: u64
  assumes "llabs d < push_bit 27 1"
  shows "signed_take_bit 27 d = d"
proof (rule signed_take_bit_small)
  have "\<bar>sint d\<bar> < 2 ^ 27"
    using assms llabs_abs [of d] by (simp add: word_less_def)
  then show "- (2 ^ 27) \<le> sint d" "sint d < 2 ^ 27"
    by simp_all
qed simp

lemma b_exec:
  assumes "loaded (mem s) (pc s) (buf (b_imm (t - pc s) (TurboAssembler r)))"
    "signed_take_bit 27 (t - pc s) = t - pc s" "take_bit 2 (t - pc s) = 0"
  shows "steps other 1 s = s\<lparr>pc := t\<rparr>"
proof -
  let ?w = "B_op OR ucast (take_bit 26 (signed_drop_bit 2 (t - pc s)))"
  have "ucast (take_bit 26 (x :: u64)) = take_bit 26 (ucast x :: u32)" for x
    by (intro bit_word_eqI) (auto simp: bit_simps)
  then have "a64_decode ?w = I_B (t - pc s)"
    using enc_B sext26 [OF assms(2,3)] by simp
  moreover have "loaded (mem s) (pc s) (le_bytes 4 ?w)"
    using assms(1) by (simp add: b_imm_buf)
  ultimately show ?thesis
    using step_word [of s ?w other] by (simp add: exec_def jump_def)
qed

lemma mov_br_exec:
  assumes "loaded (mem s) (pc s) (wbytes (mov_words TMP_REG_0 t) @ le_bytes 4 br17)"
  shows "steps other 5 s = s\<lparr>xr := (xr s)(17 := t), pc := t\<rparr>"
proof -
  have ld: "loaded (mem s) (pc s) (wbytes (mov_words TMP_REG_0 t))" "loaded (mem s) (pc s + 16) (le_bytes 4 br17)"
    using assms by (simp_all add: loaded_append mov_words_def add.commute)
  then have "steps other 4 s = (wx 17 t s)\<lparr>pc := pc s + 16\<rparr>"
    using Mov_exec [of s TMP_REG_0 t other] by (simp add: TMP_REG_0_def)
  moreover have "step other ((wx 17 t s)\<lparr>pc := pc s + 16\<rparr>) = s\<lparr>xr := (xr s)(17 := t), pc := t\<rparr>"
    using step_word [of "(wx 17 t s)\<lparr>pc := pc s + 16\<rparr>" br17 other] ld(2) by (simp add: exec_def jump_def)
  ultimately show ?thesis
    by (simp add: steps_unfold)
qed

section \<open>Properties\<close>

definition wit_tramp :: "bytes \<Rightarrow> u64 \<Rightarrow> a64" where
  "wit_tramp bs p = \<lparr>xr = (\<lambda>_. 0), sp = 0, pc = p,
     mem = (\<lambda>a. if unat (a - p) < length bs then bs ! unat (a - p) else 0),
     nzcv = \<lparr>fN = False, fZ = False, fC = False, fV = False\<rparr>\<rparr>"

lemma wit_tramp_loaded: "length bs < 2 ^ 64 \<Longrightarrow> loaded (mem (wit_tramp bs p)) p bs"
  by (auto simp: loaded_def wit_tramp_def unat_of_nat take_bit_nat_eq_self)

lemma wit_tramp_pc [simp]: "pc (wit_tramp bs p) = p"
  by (simp add: wit_tramp_def)

text \<open>
  C8. The trampoline written over a hooked function transfers control to the hook: for all
  addresses, executing the generated bytes at \<open>from\<close> ends at \<open>to\<close> with no register but
  \<^verbatim>\<open>x17\<close> changed, whichever of the two forms was generated. The one excluded case is a page
  distance of exactly \<open>2\<^sup>3\<^sup>2\<close>, which passes the range test of the code.
\<close>

theorem normal_trampoline_reaches_target:
  assumes "GenerateNormalTrampolineBuffer (pc s) t = Inr bs" "loaded (mem s) (pc s) bs"
    "ALIGN_FLOOR t 0x1000 - ALIGN_FLOOR (pc s) 0x1000 \<noteq> 2 ^ 32"
  shows "\<exists>n > 0. steps other n s = s\<lparr>xr := (xr s)(17 := t), pc := t\<rparr>"
  by (rule normal_trampoline_exec [OF assms])

theorem normal_trampoline_reaches_target_witness:
  "\<exists>bs. GenerateNormalTrampolineBuffer 0x4000 0x7f0000001234 = Inr bs \<and>
     (\<exists>n > 0. pc (steps (\<lambda>_ s. s) n (wit_tramp bs 0x4000)) = 0x7f0000001234)"
proof -
  let ?bs = "wbytes [ldr17 8, br17] @ le_bytes 8 (0x7f0000001234 :: u64)"
  have bs: "GenerateNormalTrampolineBuffer 0x4000 0x7f0000001234 = Inr ?bs"
    by (simp add: normal_trampoline_bytes llabs_def)
  then obtain n where "n > 0" "steps (\<lambda>_ s. s) n (wit_tramp ?bs 0x4000) = (wit_tramp ?bs 0x4000)
      \<lparr>xr := (xr (wit_tramp ?bs 0x4000))(17 := 0x7f0000001234), pc := 0x7f0000001234\<rparr>"
    using normal_trampoline_reaches_target [of "wit_tramp ?bs 0x4000" "0x7f0000001234" ?bs "\<lambda>_ s. s"]
      wit_tramp_loaded [of ?bs "0x4000"] by (auto simp: ALIGN_FLOOR_def)
  with bs show ?thesis
    by (intro exI [of _ ?bs]) auto
qed

text \<open>
  C15. At a page distance of exactly \<open>2\<^sup>3\<^sup>2\<close> the trampoline misses its target: such addresses
  pass the range test of the code, the \<^verbatim>\<open>adrp\<close> that is emitted has the offset
  \<open>-2\<^sup>3\<^sup>2\<close>, and executing the generated bytes ends \<open>2\<^sup>3\<^sup>3\<close> below the hook.
\<close>

theorem normal_trampoline_adrp_wraps:
  assumes "llabs (pc s - t) < push_bit 32 1" "ALIGN_FLOOR t 0x1000 - ALIGN_FLOOR (pc s) 0x1000 = 2 ^ 32"
  shows "\<exists>bs. GenerateNormalTrampolineBuffer (pc s) t = Inr bs \<and>
    (loaded (mem s) (pc s) bs \<longrightarrow> steps other 3 s = s\<lparr>xr := (xr s)(17 := t - 2 ^ 33), pc := t - 2 ^ 33\<rparr>) \<and> t - 2 ^ 33 \<noteq> t"
proof -
  let ?bs = "wbytes (adrp_add_br (pc s) t)"
  have "GenerateNormalTrampolineBuffer (pc s) t = Inr ?bs"
    using assms(1) by (simp add: normal_trampoline_bytes)
  moreover have "adrp_add_br (pc s) t ! 0 = 0x90800011"
    by (simp add: adrp_add_br_def Let_def assms(2) TMP_REG_0_def sbits_m_def submask_def Rd_def arm64_const LeftShift_eq)
  then have "a64_decode (adrp_add_br (pc s) t ! 0) = I_ADRP 17 (- 0x100000000)"
    by (simp only:) (simp add: decode_ADRP field_def sext_def)
  note run = adrp_add_br_run [OF _ this, of other]
  have "ALIGN_FLOOR (pc s) 0x1000 + - 0x100000000 + t mod 0x1000 = t - 2 ^ 33"
    using assms(2) page_split(2) [of t] by (simp add: algebra_simps)
  then have "loaded (mem s) (pc s) ?bs \<longrightarrow> steps other 3 s = s\<lparr>xr := (xr s)(17 := t - 2 ^ 33), pc := t - 2 ^ 33\<rparr>"
    using run by (simp only: Let_def) blast
  ultimately show ?thesis
    by (intro exI [of _ ?bs]) simp
qed

theorem normal_trampoline_adrp_wraps_witness:
  "\<exists>bs. GenerateNormalTrampolineBuffer 0x40000FFC 0x140000000 = Inr bs \<and>
     pc (steps (\<lambda>_ s. s) 3 (wit_tramp bs 0x40000FFC)) = 0xFFFFFFFF40000000"
proof -
  let ?bs = "wbytes (adrp_add_br 0x40000FFC 0x140000000)"
  have "GenerateNormalTrampolineBuffer 0x40000FFC 0x140000000 = Inr ?bs" "length ?bs < 2 ^ 64"
    by (simp_all add: normal_trampoline_bytes llabs_def adrp_add_br_def Let_def)
  then show ?thesis
    using normal_trampoline_adrp_wraps [of "wit_tramp ?bs 0x40000FFC" "0x140000000" "\<lambda>_ s. s"] wit_tramp_loaded [of ?bs "0x40000FFC"]
    by (auto simp: llabs_def ALIGN_FLOOR_def)
qed

end
