(* ===== verification/Memory_Arena.thy ===== *)
theory Memory_Arena
  imports Dobby_Prelude
begin

text \<open>
  The page allocator for code and data chunks, \<^verbatim>\<open>MemoryArena.cc\<close>, over the memory interface of
  \<^verbatim>\<open>platform-posix.cc\<close>. The system calls are the record \<open>os_api\<close>, a parameter: \<open>'os\<close> is the state of
  the operating system, \<open>os_mmap\<close> the call \<^verbatim>\<open>mmap\<close> for private anonymous memory and \<open>os_page_size\<close>
  the answer of \<^verbatim>\<open>sysconf\<close>. The growable arrays of pages and chunks are lists, which is what
  \<^verbatim>\<open>LiteMutableArray\<close> is shown to implement, and \<^verbatim>\<open>new\<close> is taken to succeed. Sizes of type
  \<^verbatim>\<open>int\<close> are integers, converted where the code converts them.
\<close>

section \<open>Memory of the operating system\<close>

datatype MemoryPermission = kNoAccess | kRead | kReadWrite | kReadWriteExecute | kReadExecute

record MemoryChunk =
  ck_address :: u64
  ck_length :: u64

definition init_region_range :: "u64 \<Rightarrow> u64 \<Rightarrow> MemoryChunk" where
  "init_region_range address sz = \<lparr>ck_address = address, ck_length = sz\<rparr>"

definition re_init_region_range :: "u64 \<Rightarrow> int \<Rightarrow> MemoryChunk" where
  "re_init_region_range address sz = init_region_range address (word_of_int sz)"

definition raw_instruction_start :: "MemoryChunk \<Rightarrow> u64" where
  "raw_instruction_start c = ck_address c"

definition raw_instruction_size :: "MemoryChunk \<Rightarrow> u64" where
  "raw_instruction_size c = ck_length c"

record 'os os_api =
  os_mmap :: "u64 \<Rightarrow> u64 \<Rightarrow> u32 \<Rightarrow> u32 \<Rightarrow> 'os \<Rightarrow> u64 \<times> 'os"
  os_page_size :: int

text \<open>The constants of the system headers.\<close>

abbreviation (input) PROT_NONE :: u32 where "PROT_NONE \<equiv> 0"
abbreviation (input) PROT_READ :: u32 where "PROT_READ \<equiv> 1"
abbreviation (input) PROT_WRITE :: u32 where "PROT_WRITE \<equiv> 2"
abbreviation (input) PROT_EXEC :: u32 where "PROT_EXEC \<equiv> 4"
abbreviation (input) MAP_PRIVATE :: u32 where "MAP_PRIVATE \<equiv> 0x02"
abbreviation (input) MAP_FIXED :: u32 where "MAP_FIXED \<equiv> 0x10"
abbreviation (input) MAP_ANONYMOUS :: u32 where "MAP_ANONYMOUS \<equiv> 0x20"
abbreviation (input) MAP_FAILED :: u64 where "MAP_FAILED \<equiv> - 1"

fun GetProtectionFromMemoryPermission :: "MemoryPermission \<Rightarrow> u32" where
  "GetProtectionFromMemoryPermission kNoAccess = PROT_NONE"
| "GetProtectionFromMemoryPermission kRead = PROT_READ"
| "GetProtectionFromMemoryPermission kReadWrite = PROT_READ OR PROT_WRITE"
| "GetProtectionFromMemoryPermission kReadWriteExecute = PROT_READ OR PROT_WRITE OR PROT_EXEC"
| "GetProtectionFromMemoryPermission kReadExecute = PROT_READ OR PROT_EXEC"

definition PageSize :: "'os os_api \<Rightarrow> int" where
  "PageSize api = os_page_size api"

definition AllocPageSize :: "'os os_api \<Rightarrow> int" where
  "AllocPageSize api = PageSize api"

text \<open>\<^verbatim>\<open>OSMemory::Allocate\<close>: zero is the null pointer.\<close>

definition OSMemory_Allocate :: "'os os_api \<Rightarrow> u64 \<Rightarrow> int \<Rightarrow> MemoryPermission \<Rightarrow> 'os \<Rightarrow> u64 \<times> 'os" where
  "OSMemory_Allocate api address sz access os =
    (let prot = GetProtectionFromMemoryPermission access;
         flags = (MAP_PRIVATE OR MAP_ANONYMOUS) OR (if address \<noteq> 0 then MAP_FIXED else 0);
         (result, os) = os_mmap api address (word_of_int sz) prot flags os in
     if result = MAP_FAILED then (0, os) else (result, os))"

section \<open>The arena\<close>

record PageChunk =
  pg_page :: MemoryChunk
  pg_cursor :: u64
  pg_permission :: MemoryPermission
  pg_chunks :: "MemoryChunk list"

text \<open>\<^verbatim>\<open>page_chunks\<close>, which is NULL before the first allocation, and the operating system.\<close>

type_synonym 'os arena = "PageChunk list option \<times> 'os"

definition page_fits :: "int \<Rightarrow> MemoryPermission \<Rightarrow> PageChunk \<Rightarrow> bool" where
  "page_fits alloc_size perm p \<longleftrightarrow> pg_permission p = perm \<and>
    pg_cursor p + word_of_int alloc_size < ck_address (pg_page p) + ck_length (pg_page p)"

text \<open>The search loop: the index of the first page that fits.\<close>

fun find_page :: "(PageChunk \<Rightarrow> bool) \<Rightarrow> PageChunk list \<Rightarrow> nat option" where
  "find_page fits [] = None"
| "find_page fits (p # ps) = (if fits p then Some 0 else map_option Suc (find_page fits ps))"

definition new_page :: "u64 \<Rightarrow> int \<Rightarrow> MemoryPermission \<Rightarrow> PageChunk" where
  "new_page address sz perm =
    \<lparr>pg_page = \<lparr>ck_address = address, ck_length = word_of_int sz\<rparr>, pg_cursor = address, pg_permission = perm, pg_chunks = []\<rparr>"

text \<open>Taking a chunk from the page with index \<open>i\<close>.\<close>

definition carve :: "int \<Rightarrow> PageChunk \<Rightarrow> MemoryChunk \<times> PageChunk" where
  "carve alloc_size p =
    (let chunk = \<lparr>ck_address = pg_cursor p, ck_length = word_of_int alloc_size\<rparr> in
     (chunk, p\<lparr>pg_chunks := pg_chunks p @ [chunk], pg_cursor := pg_cursor p + word_of_int alloc_size\<rparr>))"

definition carve_at :: "int \<Rightarrow> nat \<Rightarrow> PageChunk list \<Rightarrow> MemoryChunk \<times> PageChunk list" where
  "carve_at alloc_size i pages = (let (chunk, p) = carve alloc_size (pages ! i) in (chunk, pages[i := p]))"

definition AllocateChunk :: "'os os_api \<Rightarrow> int \<Rightarrow> MemoryPermission \<Rightarrow> 'os arena \<Rightarrow> MemoryChunk option \<times> 'os arena" where
  "AllocateChunk api alloc_size perm s =
    (let (page_chunks, os) = s;
         pages = (case page_chunks of None \<Rightarrow> [] | Some ps \<Rightarrow> ps) in
     case find_page (page_fits alloc_size perm) pages of
       Some i \<Rightarrow> (let (chunk, pages) = carve_at alloc_size i pages in (Some chunk, (Some pages, os)))
     | None \<Rightarrow>
         (let pageSize = PageSize api; (pageAddress, os) = OSMemory_Allocate api 0 pageSize perm os in
          if pageAddress = 0 then (None, (Some pages, os))
          else (let pages = pages @ [new_page pageAddress pageSize perm];
                    (chunk, pages) = carve_at alloc_size (length pages - 1) pages in
                (Some chunk, (Some pages, os)))))"

definition AllocateCodeChunk :: "'os os_api \<Rightarrow> int \<Rightarrow> 'os arena \<Rightarrow> MemoryChunk option \<times> 'os arena" where
  "AllocateCodeChunk api alloc_size = AllocateChunk api alloc_size kReadExecute"

definition AllocateDataChunk :: "'os os_api \<Rightarrow> int \<Rightarrow> 'os arena \<Rightarrow> MemoryChunk option \<times> 'os arena" where
  "AllocateDataChunk api alloc_size = AllocateChunk api alloc_size kReadWrite"

text \<open>\<^verbatim>\<open>Destroy\<close> returns at once.\<close>

definition Destroy :: "MemoryChunk option \<Rightarrow> 'os arena \<Rightarrow> 'os arena" where
  "Destroy chunk s = s"

section \<open>Ranges\<close>

definition range_of :: "MemoryChunk \<Rightarrow> nat set" where
  "range_of c = {unat (ck_address c) ..< unat (ck_address c) + unat (ck_length c)}"

text \<open>
  What the code relies on of \<^verbatim>\<open>mmap\<close>: \<open>mapped os\<close> are the addresses in use. Without an address, a
  successful call returns unused memory, not at zero and in the lower half of the address space, and no
  call of this form makes used memory unused. The page size is a positive \<^verbatim>\<open>int\<close>.
\<close>

definition mmap_ok :: "'os os_api \<Rightarrow> ('os \<Rightarrow> nat set) \<Rightarrow> bool" where
  "mmap_ok api mapped \<longleftrightarrow> 0 < os_page_size api \<and> os_page_size api < 2 ^ 31 \<and>
    (\<forall>sz prot flags os a os'. os_mmap api 0 sz prot flags os = (a, os') \<longrightarrow>
       mapped os \<subseteq> mapped os' \<and>
       (a \<noteq> MAP_FAILED \<longrightarrow> a \<noteq> 0 \<and> unat a + unat sz < 2 ^ 63 \<and> {unat a ..< unat a + unat sz} \<inter> mapped os = {} \<and>
          {unat a ..< unat a + unat sz} \<subseteq> mapped os'))"

lemma mmap_okD:
  assumes "mmap_ok api mapped" "os_mmap api 0 sz prot flags os = (a, os')"
  shows "mapped os \<subseteq> mapped os'"
    and "a \<noteq> MAP_FAILED \<Longrightarrow> a \<noteq> 0 \<and> unat a + unat sz < 2 ^ 63 \<and> {unat a ..< unat a + unat sz} \<inter> mapped os = {} \<and>
      {unat a ..< unat a + unat sz} \<subseteq> mapped os'"
  using assms unfolding mmap_ok_def by blast+

text \<open>Chunks that follow each other without a gap from \<open>a\<close> to \<open>c\<close>.\<close>

fun tiles :: "nat \<Rightarrow> MemoryChunk list \<Rightarrow> nat \<Rightarrow> bool" where
  "tiles a [] c \<longleftrightarrow> a = c"
| "tiles a (ch # chs) c \<longleftrightarrow> unat (ck_address ch) = a \<and> tiles (a + unat (ck_length ch)) chs c"

lemma tiles_append: "tiles a (xs @ [ch]) c \<longleftrightarrow> (\<exists>b. tiles a xs b \<and> unat (ck_address ch) = b \<and> c = b + unat (ck_length ch))"
  by (induction xs arbitrary: a) auto

lemma tiles_le: "tiles a chs c \<Longrightarrow> a \<le> c"
  by (induction chs arbitrary: a) (auto, fastforce)

lemma tiles_range: "tiles a chs c \<Longrightarrow> ch \<in> set chs \<Longrightarrow> range_of ch \<subseteq> {a ..< c}"
proof (induction chs arbitrary: a)
  case (Cons x chs)
  then show ?case
    using tiles_le [of "a + unat (ck_length x)" chs c] by (fastforce simp: range_of_def)
qed simp

section \<open>Invariant\<close>

definition page_ok :: "int \<Rightarrow> PageChunk \<Rightarrow> bool" where
  "page_ok psz p \<longleftrightarrow> ck_length (pg_page p) = word_of_int psz \<and>
    unat (ck_address (pg_page p)) + nat psz < 2 ^ 63 \<and>
    tiles (unat (ck_address (pg_page p))) (pg_chunks p) (unat (pg_cursor p)) \<and>
    unat (pg_cursor p) \<le> unat (ck_address (pg_page p)) + nat psz"

definition pages_of :: "'os arena \<Rightarrow> PageChunk list" where
  "pages_of s = (case fst s of None \<Rightarrow> [] | Some ps \<Rightarrow> ps)"

definition arena_ok :: "'os os_api \<Rightarrow> ('os \<Rightarrow> nat set) \<Rightarrow> 'os arena \<Rightarrow> bool" where
  "arena_ok api mapped s \<longleftrightarrow> mmap_ok api mapped \<and>
    (\<forall>p \<in> set (pages_of s). page_ok (os_page_size api) p \<and> range_of (pg_page p) \<subseteq> mapped (snd s)) \<and>
    (\<forall>i j. i < j \<and> j < length (pages_of s) \<longrightarrow> range_of (pg_page (pages_of s ! i)) \<inter> range_of (pg_page (pages_of s ! j)) = {})"

definition live :: "'os arena \<Rightarrow> MemoryChunk list" where
  "live s = concat (map pg_chunks (pages_of s))"

lemma page_size_word: "0 < psz \<Longrightarrow> psz < 2 ^ 31 \<Longrightarrow> unat (word_of_int psz :: u64) = nat psz"
  by (simp add: unat_eq_nat_uint unsigned_of_int take_bit_int_eq_self)

lemma find_page_Some: "find_page f ps = Some i \<Longrightarrow> i < length ps \<and> f (ps ! i)"
  by (induction ps arbitrary: i) (auto split: if_splits)

text \<open>A page that fits has room for the chunk.\<close>

lemma page_fits_room:
  assumes "page_ok psz p" "page_fits n perm p" "0 < n" "n \<le> psz" "psz < 2 ^ 31"
  shows "unat (pg_cursor p) + nat n < unat (ck_address (pg_page p)) + nat psz"
proof -
  have n: "unat (word_of_int n :: u64) = nat n" "unat (word_of_int psz :: u64) = nat psz"
    using assms(3-5) by (auto intro!: page_size_word)
  let ?a = "ck_address (pg_page p)"
  have len: "ck_length (pg_page p) = word_of_int psz" "unat ?a + nat psz < 2 ^ 63" "unat (pg_cursor p) \<le> unat ?a + nat psz"
    using assms(1) by (auto simp: page_ok_def)
  have e: "unat (?a + ck_length (pg_page p)) = unat ?a + nat psz"
    using len(1,2) n by (simp add: unat_plus_if_size word_size)
  then show ?thesis
    using assms(2) len n assms(4) by (auto simp: page_fits_def word_less_nat_alt unat_plus_if_size word_size split: if_splits)
qed

lemma carve_ok:
  assumes "page_ok psz p" "unat (pg_cursor p) + nat n \<le> unat (ck_address (pg_page p)) + nat psz" "0 < n" "psz < 2 ^ 31" "n \<le> psz"
    and "carve n p = (c, p')"
  shows "page_ok psz p'" "range_of c \<subseteq> range_of (pg_page p)" "\<forall>c' \<in> set (pg_chunks p). range_of c' \<inter> range_of c = {}"
    "pg_chunks p' = pg_chunks p @ [c]" "pg_page p' = pg_page p" "pg_permission p' = pg_permission p" "ck_length c = word_of_int n"
proof -
  let ?a = "ck_address (pg_page p)"
  have n: "unat (word_of_int n :: u64) = nat n" "unat (word_of_int psz :: u64) = nat psz"
    using assms(3-5) by (auto intro!: page_size_word)
  have ok: "ck_length (pg_page p) = word_of_int psz" "unat ?a + nat psz < 2 ^ 63" "tiles (unat ?a) (pg_chunks p) (unat (pg_cursor p))"
    using assms(1) by (auto simp: page_ok_def)
  have c: "c = \<lparr>ck_address = pg_cursor p, ck_length = word_of_int n\<rparr>"
    "p' = p\<lparr>pg_chunks := pg_chunks p @ [c], pg_cursor := pg_cursor p + word_of_int n\<rparr>"
    using assms(6) by (auto simp: carve_def Let_def)
  have cur: "unat (pg_cursor p + word_of_int n) = unat (pg_cursor p) + nat n"
    using assms(2) ok(2) n by (simp add: unat_plus_if_size word_size)
  show "page_ok psz p'"
    using ok assms(2) n cur c by (auto simp: page_ok_def tiles_append)
  show "range_of c \<subseteq> range_of (pg_page p)"
    using c n ok(1) assms(2) tiles_le [OF ok(3)] by (auto simp: range_of_def)
  show "\<forall>c' \<in> set (pg_chunks p). range_of c' \<inter> range_of c = {}"
    using tiles_range [OF ok(3)] c(1) by (fastforce simp: range_of_def)
qed (use assms(6) in \<open>auto simp: carve_def Let_def\<close>)

lemma chunk_in_page:
  assumes "page_ok psz p" "0 < psz" "psz < 2 ^ 31" "c \<in> set (pg_chunks p)"
  shows "range_of c \<subseteq> range_of (pg_page p)"
proof -
  have "range_of c \<subseteq> {unat (ck_address (pg_page p)) ..< unat (pg_cursor p)}"
    using assms(1,4) by (intro tiles_range) (auto simp: page_ok_def)
  then show ?thesis
    using assms(1) page_size_word [OF assms(2,3)] by (auto simp: page_ok_def range_of_def)
qed

lemma pages_disjoint:
  assumes "arena_ok api mapped s" "i < length (pages_of s)" "j < length (pages_of s)" "i \<noteq> j"
  shows "range_of (pg_page (pages_of s ! i)) \<inter> range_of (pg_page (pages_of s ! j)) = {}"
proof -
  have "range_of (pg_page (pages_of s ! i)) \<inter> range_of (pg_page (pages_of s ! j)) = {}" if "i < j" "j < length (pages_of s)" for i j
    using assms(1) that by (simp add: arena_ok_def)
  then show ?thesis
    using assms(2-4) by (metis Int_commute linorder_neqE_nat)
qed

text \<open>Taking a chunk from one of the pages of an arena.\<close>

lemma carve_at_ok:
  assumes ok: "arena_ok api mapped s" and i: "i < length (pages_of s)" and n: "0 < n" "n \<le> os_page_size api"
    and room: "unat (pg_cursor (pages_of s ! i)) + nat n \<le> unat (ck_address (pg_page (pages_of s ! i))) + nat (os_page_size api)"
    and c: "carve_at n i (pages_of s) = (c, ps)"
  shows "arena_ok api mapped (Some ps, snd s)" "ck_length c = word_of_int n" "set (live (Some ps, snd s)) = insert c (set (live s))"
    "\<forall>c' \<in> set (live s). range_of c' \<inter> range_of c = {}"
    "i < length ps \<and> pg_permission (ps ! i) = pg_permission (pages_of s ! i) \<and> range_of c \<subseteq> range_of (pg_page (ps ! i))"
proof -
  let ?ps = "pages_of s"
  obtain p' where p': "carve n (?ps ! i) = (c, p')" "ps = ?ps[i := p']"
    using c by (auto simp: carve_at_def split: prod.splits)
  have small: "os_page_size api < 2 ^ 31" using ok by (simp add: arena_ok_def mmap_ok_def)
  have pages: "page_ok (os_page_size api) (?ps ! i)" using ok i by (simp add: arena_ok_def)
  note cv = carve_ok [OF pages room n(1) small n(2) p'(1)]
  have same: "pg_page (ps ! j) = pg_page (?ps ! j)" if "j < length ?ps" for j
    using that p'(2) cv(5) by (cases "i = j") auto
  have len: "length ps = length ?ps" using p'(2) by simp
  have po: "pages_of (Some ps, snd s) = ps" by (simp add: pages_of_def)
  show "arena_ok api mapped (Some ps, snd s)"
    unfolding arena_ok_def po
  proof (intro conjI ballI allI impI)
    fix p assume "p \<in> set ps"
    then obtain j where j: "j < length ?ps" "p = ps ! j" using len by (metis in_set_conv_nth)
    then show "page_ok (os_page_size api) p"
      using cv(1) ok p'(2) by (cases "i = j") (auto simp: arena_ok_def)
    show "range_of (pg_page p) \<subseteq> mapped (snd (Some ps, snd s))"
      using same [OF j(1)] j ok by (auto simp: arena_ok_def)
  next
    fix k j assume "k < j \<and> j < length ps"
    then show "range_of (pg_page (ps ! k)) \<inter> range_of (pg_page (ps ! j)) = {}"
      using same ok len by (simp add: arena_ok_def)
  qed (use ok in \<open>simp add: arena_ok_def\<close>)
  have "set (concat (map pg_chunks ps)) = (\<Union>j < length ?ps. set (pg_chunks (ps ! j)))"
    using len by (auto simp: set_conv_nth [of ps] image_def)
  moreover have "\<dots> = insert c (\<Union>j < length ?ps. set (pg_chunks (?ps ! j)))"
    using i cv(4) p'(2) by (auto simp: nth_list_update split: if_splits)
  moreover have "set (live s) = (\<Union>j < length ?ps. set (pg_chunks (?ps ! j)))"
    by (auto simp: live_def set_conv_nth [of ?ps] image_def)
  ultimately show "set (live (Some ps, snd s)) = insert c (set (live s))"
    by (simp add: live_def po)
  show "\<forall>c' \<in> set (live s). range_of c' \<inter> range_of c = {}"
  proof
    fix c' assume "c' \<in> set (live s)"
    then obtain j where j: "j < length ?ps" "c' \<in> set (pg_chunks (?ps ! j))"
      by (auto simp: live_def in_set_conv_nth [of _ ?ps])
    have sub: "range_of c' \<subseteq> range_of (pg_page (?ps ! j))"
      using j ok by (intro chunk_in_page [of "os_page_size api"]) (auto simp: arena_ok_def mmap_ok_def)
    show "range_of c' \<inter> range_of c = {}"
    proof (cases "i = j")
      case True
      then show ?thesis using cv(3) j(2) by simp
    next
      case False
      then have "range_of (pg_page (?ps ! i)) \<inter> range_of (pg_page (?ps ! j)) = {}"
        using pages_disjoint [OF ok i j(1)] by simp
      then show ?thesis using cv(2) sub by blast
    qed
  qed
  show "ck_length c = word_of_int n" "i < length ps \<and> pg_permission (ps ! i) = pg_permission (pages_of s ! i) \<and> range_of c \<subseteq> range_of (pg_page (ps ! i))"
    using cv i p'(2) by auto
qed

text \<open>Adding a fresh page that the operating system returned.\<close>

lemma new_page_ok:
  assumes ok: "arena_ok api mapped s" and os: "OSMemory_Allocate api 0 (os_page_size api) perm (snd s) = (a, os')"
  shows "arena_ok api mapped (Some (pages_of s), os')"
    and "a \<noteq> 0 \<Longrightarrow> arena_ok api mapped (Some (pages_of s @ [new_page a (os_page_size api) perm]), os')"
proof -
  have mm: "mmap_ok api mapped" using ok by (simp add: arena_ok_def)
  let ?p = "new_page a (os_page_size api) perm" and ?prot = "GetProtectionFromMemoryPermission perm"
  obtain r where r: "os_mmap api 0 (word_of_int (os_page_size api)) ?prot (MAP_PRIVATE OR MAP_ANONYMOUS) (snd s) = (r, os')"
    "a = (if r = MAP_FAILED then 0 else r)"
    using os by (auto simp: OSMemory_Allocate_def split: prod.splits if_splits)
  have psz: "unat (word_of_int (os_page_size api) :: u64) = nat (os_page_size api)"
    using mm by (intro page_size_word) (auto simp: mmap_ok_def)
  have mono: "mapped (snd s) \<subseteq> mapped os'"
    using mmap_okD(1) [OF mm r(1)] .
  have po: "pages_of (Some ps, os') = ps" for ps by (simp add: pages_of_def)
  show "arena_ok api mapped (Some (pages_of s), os')"
    unfolding arena_ok_def po using ok mono by (auto simp: arena_ok_def)
  assume "a \<noteq> 0"
  then have "r \<noteq> MAP_FAILED" "a = r" using r(2) by (auto split: if_splits)
  then have fresh: "unat a + nat (os_page_size api) < 2 ^ 63" "range_of (pg_page ?p) \<inter> mapped (snd s) = {}"
    "range_of (pg_page ?p) \<subseteq> mapped os'"
    using mmap_okD(2) [OF mm r(1)] psz by (simp_all add: new_page_def range_of_def)
  then have "page_ok (os_page_size api) ?p"
    by (simp add: page_ok_def new_page_def)
  moreover have "range_of (pg_page p) \<inter> range_of (pg_page ?p) = {}" if "p \<in> set (pages_of s)" for p
    using ok that fresh(2) by (fastforce simp: arena_ok_def)
  ultimately show "arena_ok api mapped (Some (pages_of s @ [?p]), os')"
    unfolding arena_ok_def po using ok mono fresh(3)
    by (auto simp: arena_ok_def nth_append less_Suc_eq) blast
qed

lemma AllocateChunk_cases:
  assumes ok: "arena_ok api mapped s" and n: "0 < n" "n \<le> os_page_size api" and call: "AllocateChunk api n perm s = (r, s')"
  shows "arena_ok api mapped s' \<and> (case r of
      None \<Rightarrow> live s' = live s
    | Some c \<Rightarrow> ck_length c = word_of_int n \<and> set (live s') = insert c (set (live s)) \<and>
        (\<forall>c' \<in> set (live s). range_of c' \<inter> range_of c = {}) \<and>
        (\<exists>p \<in> set (pages_of s'). pg_permission p = perm \<and> range_of c \<subseteq> range_of (pg_page p)))"
proof (cases "find_page (page_fits n perm) (pages_of s)")
  case (Some i)
  have small: "os_page_size api < 2 ^ 31" using ok by (simp add: arena_ok_def mmap_ok_def)
  have i: "i < length (pages_of s)" "page_fits n perm (pages_of s ! i)" using find_page_Some [OF Some] by auto
  then have "unat (pg_cursor (pages_of s ! i)) + nat n < unat (ck_address (pg_page (pages_of s ! i))) + nat (os_page_size api)"
    using ok n small by (intro page_fits_room) (auto simp: arena_ok_def)
  then have room: "unat (pg_cursor (pages_of s ! i)) + nat n \<le> unat (ck_address (pg_page (pages_of s ! i))) + nat (os_page_size api)"
    by simp
  obtain c ps where c: "carve_at n i (pages_of s) = (c, ps)" by fastforce
  then have "r = Some c" "s' = (Some ps, snd s)"
    using call Some by (auto simp: AllocateChunk_def pages_of_def split: prod.splits option.splits)
  moreover have "ps ! i \<in> set (pages_of (Some ps, snd s))" "pg_permission (ps ! i) = perm"
    using carve_at_ok(5) [OF ok i(1) n room c] i(2) by (auto simp: pages_of_def page_fits_def)
  ultimately show ?thesis
    using carve_at_ok [OF ok i(1) n room c] by auto
next
  case None
  obtain a os' where os: "OSMemory_Allocate api 0 (os_page_size api) perm (snd s) = (a, os')" by fastforce
  show ?thesis
  proof (cases "a = 0")
    case True
    then have "r = None" "s' = (Some (pages_of s), os')"
      using call None os by (auto simp: AllocateChunk_def pages_of_def PageSize_def split: prod.splits option.splits)
    then show ?thesis
      using new_page_ok(1) [OF ok os] by (simp add: live_def pages_of_def)
  next
    case False
    let ?s = "(Some (pages_of s @ [new_page a (os_page_size api) perm]), os')" and ?i = "length (pages_of s)"
    have ok': "arena_ok api mapped ?s" using new_page_ok(2) [OF ok os False] .
    have po: "pages_of ?s = pages_of s @ [new_page a (os_page_size api) perm]" by (simp add: pages_of_def)
    then have live': "live ?s = live s" by (simp add: live_def new_page_def)
    have i: "?i < length (pages_of ?s)" by (simp add: po)
    have room: "unat (pg_cursor (pages_of ?s ! ?i)) + nat n \<le> unat (ck_address (pg_page (pages_of ?s ! ?i))) + nat (os_page_size api)"
      unfolding po using n by (simp add: new_page_def)
    obtain c ps where c: "carve_at n ?i (pages_of ?s) = (c, ps)" by fastforce
    then have "r = Some c" "s' = (Some ps, os')"
      using call None os False po by (auto simp: AllocateChunk_def pages_of_def PageSize_def split: prod.splits option.splits)
    moreover have "ps ! ?i \<in> set (pages_of (Some ps, os'))" "pg_permission (ps ! ?i) = perm"
      using carve_at_ok(5) [OF ok' i n room c] by (auto simp: pages_of_def new_page_def nth_append split: option.splits)
    ultimately show ?thesis
      using carve_at_ok [OF ok' i n room c] live' by auto
  qed
qed

section \<open>Contract of a chunk allocator\<close>

text \<open>A sequence of requests; the chunks are collected in the order in which they are returned.\<close>

fun allocs :: "(int \<Rightarrow> 'p \<Rightarrow> 's \<Rightarrow> MemoryChunk option \<times> 's) \<Rightarrow> (int \<times> 'p) list \<Rightarrow> 's \<Rightarrow> MemoryChunk list \<times> 's" where
  "allocs alloc [] s = ([], s)"
| "allocs alloc ((n, p) # rs) s =
    (let (r, s) = alloc n p s; (cs, s) = allocs alloc rs s in (case r of None \<Rightarrow> cs | Some c \<Rightarrow> c # cs, s))"

locale chunk_source =
  fixes inv :: "'s \<Rightarrow> bool" and given :: "'s \<Rightarrow> MemoryChunk set" and fits :: "int \<Rightarrow> bool"
    and alloc :: "int \<Rightarrow> 'p \<Rightarrow> 's \<Rightarrow> MemoryChunk option \<times> 's"
  assumes alloc_inv: "inv s \<Longrightarrow> fits n \<Longrightarrow> alloc n p s = (r, s') \<Longrightarrow> inv s'"
    and alloc_some: "inv s \<Longrightarrow> fits n \<Longrightarrow> alloc n p s = (Some c, s') \<Longrightarrow>
      ck_length c = word_of_int n \<and> given s' = insert c (given s) \<and> (\<forall>c' \<in> given s. range_of c' \<inter> range_of c = {})"
    and alloc_none: "inv s \<Longrightarrow> fits n \<Longrightarrow> alloc n p s = (None, s') \<Longrightarrow> given s' = given s"
begin

lemma given_grows: "inv s \<Longrightarrow> fits n \<Longrightarrow> alloc n p s = (r, s') \<Longrightarrow> given s \<subseteq> given s'"
  using alloc_some alloc_none by (cases r) blast+

lemma allocs_disjoint:
  assumes "inv s" "\<forall>(n, p) \<in> set rs. fits n" "allocs alloc rs s = (cs, s')"
  shows "inv s' \<and> given s' = given s \<union> set cs \<and> (\<forall>c \<in> set cs. \<forall>c' \<in> given s. range_of c' \<inter> range_of c = {}) \<and>
    (\<forall>i j. i < j \<and> j < length cs \<longrightarrow> range_of (cs ! i) \<inter> range_of (cs ! j) = {})"
  using assms
proof (induction rs arbitrary: s cs)
  case (Cons np rs)
  obtain n p where np: "np = (n, p)" by fastforce
  obtain r s1 cs1 where r: "alloc n p s = (r, s1)" "allocs alloc rs s1 = (cs1, s')" "cs = (case r of None \<Rightarrow> cs1 | Some c \<Rightarrow> c # cs1)"
    using Cons.prems(3) np by (auto simp: Let_def split: prod.splits)
  have n: "fits n" using Cons.prems(2) np by auto
  have "inv s1" using alloc_inv [OF Cons.prems(1) n r(1)] .
  with Cons.IH [OF this _ r(2)] Cons.prems(2)
  have IH: "inv s'" "given s' = given s1 \<union> set cs1" "\<forall>c \<in> set cs1. \<forall>c' \<in> given s1. range_of c' \<inter> range_of c = {}"
    "\<forall>i j. i < j \<and> j < length cs1 \<longrightarrow> range_of (cs1 ! i) \<inter> range_of (cs1 ! j) = {}"
    by auto
  show ?case
  proof (cases r)
    case None
    then show ?thesis using IH r alloc_none [OF Cons.prems(1) n] by auto
  next
    case (Some c)
    note c = alloc_some [OF Cons.prems(1) n r(1) [unfolded Some]]
    have "\<forall>i j. i < j \<and> j < length (c # cs1) \<longrightarrow> range_of ((c # cs1) ! i) \<inter> range_of ((c # cs1) ! j) = {}"
    proof (intro allI impI)
      fix i j assume ij: "i < j \<and> j < length (c # cs1)"
      then obtain j' where "j = Suc j'" by (cases j) auto
      then show "range_of ((c # cs1) ! i) \<inter> range_of ((c # cs1) ! j) = {}"
        using ij IH(3,4) c by (cases i) auto
    qed
    then show ?thesis using IH r Some c by auto
  qed
qed simp

end

definition arena_fits :: "'os os_api \<Rightarrow> int \<Rightarrow> bool" where
  "arena_fits api n \<longleftrightarrow> 0 < n \<and> n \<le> os_page_size api"

interpretation arena: chunk_source "arena_ok api mapped" "\<lambda>s. set (live s)" "arena_fits api" "AllocateChunk api"
proof
  fix s n p r s' assume "arena_ok api mapped s" "arena_fits api n" "AllocateChunk api n p s = (r, s')"
  then show "arena_ok api mapped s'"
    using AllocateChunk_cases [of api mapped s n p r s'] by (simp add: arena_fits_def)
next
  fix s n p c s' assume "arena_ok api mapped s" "arena_fits api n" "AllocateChunk api n p s = (Some c, s')"
  then show "ck_length c = word_of_int n \<and> set (live s') = insert c (set (live s)) \<and>
      (\<forall>c' \<in> set (live s). range_of c' \<inter> range_of c = {})"
    using AllocateChunk_cases [of api mapped s n p "Some c" s'] by (simp add: arena_fits_def)
next
  fix s n p s' assume "arena_ok api mapped s" "arena_fits api n" "AllocateChunk api n p s = (None, s')"
  then show "set (live s') = set (live s)"
    using AllocateChunk_cases [of api mapped s n p None s'] by (simp add: arena_fits_def)
qed

section \<open>Properties\<close>

text \<open>
  C30. The arena keeps its invariant: an allocation of at most a page leaves every page cursor inside its
  page, the chunks of a page without gap or overlap from its start to the cursor and the pages
  disjoint, whether it takes the chunk from a page with room, maps a new page or fails; and a chunk it
  returns has the requested length and lies inside a page with the requested permission.
\<close>

theorem AllocateChunk_invariant:
  assumes "arena_ok api mapped s" "0 < n" "n \<le> os_page_size api" "AllocateChunk api n perm s = (r, s')"
  shows "arena_ok api mapped s' \<and>
    (\<forall>c. r = Some c \<longrightarrow> ck_length c = word_of_int n \<and>
      (\<exists>p \<in> set (pages_of s'). pg_permission p = perm \<and> range_of c \<subseteq> range_of (pg_page p)))"
  using AllocateChunk_cases [OF assms] by (auto split: option.splits)

text \<open>An operating system that hands out the memory behind what it has handed out before.\<close>

definition wit_api :: "nat os_api" where
  "wit_api = \<lparr>os_mmap = (\<lambda>a sz prot flags os.
       if 0 < os \<and> os + unat sz < 2 ^ 63 then (word_of_nat os, os + unat sz) else (MAP_FAILED, os)),
     os_page_size = 4096\<rparr>"

definition wit_mapped :: "nat \<Rightarrow> nat set" where
  "wit_mapped os = {..<os}"

lemma wit_mmap_ok: "mmap_ok wit_api wit_mapped"
proof -
  have nz: "(word_of_nat os :: u64) \<noteq> 0" if "0 < os" "os < 2 ^ 63" for os
    using that by (simp add: word_of_nat_eq_0_iff nat_dvd_not_less)
  have u: "unat (word_of_nat os :: u64) = os" if "os < 2 ^ 63" for os
    using that by (simp add: unat_of_nat)
  show ?thesis
    unfolding mmap_ok_def wit_api_def wit_mapped_def
    using nz u by (auto simp: Let_def split: if_splits)
qed

lemma wit_arena_ok: "arena_ok wit_api wit_mapped (None, os)"
  by (simp add: arena_ok_def wit_mmap_ok pages_of_def)

theorem AllocateChunk_invariant_witness:
  "\<exists>c s'. AllocateChunk wit_api 64 kReadExecute (None, 0x1000) = (Some c, s') \<and> arena_ok wit_api wit_mapped s' \<and>
     ck_length c = 64"
proof -
  let ?r = "AllocateChunk wit_api 64 kReadExecute (None, 0x1000)"
  have "fst ?r \<noteq> None"
    by (simp add: AllocateChunk_def wit_api_def PageSize_def OSMemory_Allocate_def carve_at_def carve_def Let_def)
  then obtain c s' where r: "?r = (Some c, s')" by (metis option.exhaust prod.collapse)
  have "(0 :: int) < 64" "64 \<le> os_page_size wit_api" by (simp_all add: wit_api_def)
  from AllocateChunk_invariant [OF wit_arena_ok this r] show ?thesis
    using r by auto
qed

text \<open>
  C31. All chunks the arena hands out are disjoint: whatever requests of at most a page, for code or data,
  are made of an arena in a good state, in any order and with failures among them, no two of the
  chunks returned overlap, and none overlaps a chunk returned before.
\<close>

theorem arena_chunks_disjoint:
  assumes "arena_ok api mapped s" "\<forall>(n, perm) \<in> set rs. arena_fits api n" "allocs (AllocateChunk api) rs s = (cs, s')"
  shows "(\<forall>i j. i < j \<and> j < length cs \<longrightarrow> range_of (cs ! i) \<inter> range_of (cs ! j) = {}) \<and>
    (\<forall>c \<in> set cs. \<forall>c' \<in> set (live s). range_of c' \<inter> range_of c = {})"
  using arena.allocs_disjoint [OF assms] by blast

theorem arena_chunks_disjoint_witness:
  "let cs = fst (allocs (AllocateChunk wit_api) [(64, kReadExecute), (4032, kReadExecute), (8, kReadWrite)] (None, 0x1000)) in
     length cs = 3 \<and> range_of (cs ! 0) \<inter> range_of (cs ! 1) = {}"
proof -
  let ?rs = "[(64, kReadExecute), (4032, kReadExecute), (8, kReadWrite)]"
  have "\<forall>(n, perm) \<in> set ?rs. arena_fits wit_api n" by (simp add: arena_fits_def wit_api_def)
  from arena_chunks_disjoint [OF wit_arena_ok this surjective_pairing]
  have "length (fst (allocs (AllocateChunk wit_api) ?rs (None, 0x1000))) = 3 \<Longrightarrow> ?thesis" by (simp add: Let_def)
  moreover have "length (fst (allocs (AllocateChunk wit_api) ?rs (None, 0x1000))) = 3"
    by (simp add: AllocateChunk_def wit_api_def PageSize_def OSMemory_Allocate_def carve_at_def carve_def Let_def page_fits_def new_page_def)
  ultimately show ?thesis by blast
qed

text \<open>
  The size of a request is not checked against the page size: the first request of an arena, when
  it is for more than a page and the system has memory, is answered with a chunk that reaches past
  the page it was taken from.
\<close>

theorem AllocateChunk_oversized:
  assumes "mmap_ok api mapped" "os_page_size api < n" "n < 2 ^ 31" "AllocateChunk api n perm (None, os) = (Some c, s')"
  shows "\<exists>p. pages_of s' = [p] \<and> \<not> range_of c \<subseteq> range_of (pg_page p)"
proof -
  have psz: "0 < os_page_size api" "os_page_size api < 2 ^ 31" using assms(1) by (auto simp: mmap_ok_def)
  then have w: "unat (word_of_int n :: u64) = nat n" "unat (word_of_int (os_page_size api) :: u64) = nat (os_page_size api)"
    using assms(2,3) by (auto intro!: page_size_word)
  then have "unat a + nat (os_page_size api) \<in> {unat a ..< unat a + nat n} - {unat a ..< unat a + nat (os_page_size api)}" for a :: u64
    using assms(2) psz by auto
  then show ?thesis
    using assms(4) w by (auto simp: AllocateChunk_def PageSize_def carve_at_def carve_def new_page_def range_of_def pages_of_def
        Let_def split: prod.splits if_splits)
qed

theorem AllocateChunk_oversized_witness:
  "\<exists>c s' p. AllocateChunk wit_api 5000 kReadExecute (None, 0x1000) = (Some c, s') \<and> pages_of s' = [p] \<and>
     \<not> range_of c \<subseteq> range_of (pg_page p)"
proof -
  let ?r = "AllocateChunk wit_api 5000 kReadExecute (None, 0x1000)"
  have "fst ?r \<noteq> None"
    by (simp add: AllocateChunk_def wit_api_def PageSize_def OSMemory_Allocate_def carve_at_def carve_def Let_def)
  then obtain c s' where r: "?r = (Some c, s')" by (metis option.exhaust prod.collapse)
  have "os_page_size wit_api < 5000" "(5000 :: int) < 2 ^ 31" by (simp_all add: wit_api_def)
  from AllocateChunk_oversized [OF wit_mmap_ok this r] show ?thesis
    using r by blast
qed

end
