(* ===== verification/X64_Isa.thy ===== *)
theory X64_Isa
  imports Dobby_Prelude
begin

text \<open>
  A reference semantics for the part of the x86-64 instruction set that the x64 back end emits or
  rewrites, written from the architecture manual and independently of the encoders of the code: the
  operand forms of ModRM and SIB, the instructions and their effect on the general registers, the
  instruction pointer and memory. It models no code of the repository.
\<close>

section \<open>Operands\<close>

datatype ea =
    Ea_reg nat
  | Ea_mem "nat option" "(nat \<times> nat) option" u64
  | Ea_rip u64

definition extended :: "bool \<Rightarrow> u8 \<Rightarrow> nat" where
  "extended x f = unat f + (if x then 8 else 0)"

definition disp_size :: "u8 \<Rightarrow> nat" where
  "disp_size md = (if md = 0 then 0 else if md = 1 then 1 else 4)"

definition disp_value :: "nat \<Rightarrow> bytes \<Rightarrow> u64" where
  "disp_value n bs = (if n = 0 then 0 else if n = 1 then scast (hd bs) else scast (le_word (take 4 bs) :: u32))"

text \<open>
  The operand of the \<^verbatim>\<open>r/m\<close> field, given the REX byte and the bytes from ModRM on, and the number
  of bytes of ModRM, SIB and displacement.
\<close>

definition x64_ea :: "u8 \<Rightarrow> bytes \<Rightarrow> ea \<times> nat" where
  "x64_ea r bs =
    (let mb = bs ! 0; md = drop_bit 6 mb; rm = mb AND 7 in
     if md = 3 then (Ea_reg (extended (bit r 0) rm), 1)
     else if rm = 4 then
       (let sb = bs ! 1; index = extended (bit r 1) (drop_bit 3 sb AND 7);
            ix = (if index = 4 then None else Some (index, 2 ^ unat (drop_bit 6 sb))) in
        if md = 0 \<and> sb AND 7 = 5 then (Ea_mem None ix (disp_value 4 (drop 2 bs)), 6)
        else (Ea_mem (Some (extended (bit r 0) (sb AND 7))) ix (disp_value (disp_size md) (drop 2 bs)), 2 + disp_size md))
     else if md = 0 \<and> rm = 5 then (Ea_rip (disp_value 4 (drop 1 bs)), 5)
     else (Ea_mem (Some (extended (bit r 0) rm)) None (disp_value (disp_size md) (drop 1 bs)), 1 + disp_size md))"

section \<open>Instructions\<close>

datatype x64_insn =
    X_nop
  | X_ret
  | X_push nat
  | X_pop nat
  | X_jmp u64
  | X_call u64
  | X_jcc u8 u64
  | X_jmp_ea ea
  | X_call_ea ea
  | X_load nat ea
  | X_store ea nat
  | X_mov_imm nat u64

definition rex_split :: "bytes \<Rightarrow> u8 \<times> bytes" where
  "rex_split bs = (if 0x40 \<le> hd bs \<and> hd bs \<le> 0x4f then (hd bs, tl bs) else (0, bs))"

definition x64_opcode :: "u8 \<Rightarrow> bytes \<Rightarrow> (x64_insn \<times> nat) option" where
  "x64_opcode r bs =
    (let c = bs ! 0; reg = extended (bit r 2) (drop_bit 3 (bs ! 1) AND 7); (ea, n) = x64_ea r (drop 1 bs);
         ext = drop_bit 3 (bs ! 1) AND 7 in
     if c = 0x90 \<and> r = 0 then Some (X_nop, 1)
     else if c = 0xc3 then Some (X_ret, 1)
     else if 0x50 \<le> c \<and> c \<le> 0x57 then Some (X_push (extended (bit r 0) (c AND 7)), 1)
     else if 0x58 \<le> c \<and> c \<le> 0x5f then Some (X_pop (extended (bit r 0) (c AND 7)), 1)
     else if 0x70 \<le> c \<and> c \<le> 0x7f then Some (X_jcc (c AND 0xf) (scast (bs ! 1)), 2)
     else if c = 0xeb then Some (X_jmp (scast (bs ! 1)), 2)
     else if c = 0xe9 then Some (X_jmp (disp_value 4 (drop 1 bs)), 5)
     else if c = 0xe8 then Some (X_call (disp_value 4 (drop 1 bs)), 5)
     else if c = 0x0f \<and> 0x80 \<le> bs ! 1 \<and> bs ! 1 \<le> 0x8f then Some (X_jcc (bs ! 1 AND 0xf) (disp_value 4 (drop 2 bs)), 6)
     else if c = 0xff \<and> ext = 2 then Some (X_call_ea ea, 1 + n)
     else if c = 0xff \<and> ext = 4 then Some (X_jmp_ea ea, 1 + n)
     else if c = 0x8b \<and> bit r 3 then Some (X_load reg ea, 1 + n)
     else if c = 0x89 \<and> bit r 3 then Some (X_store ea reg, 1 + n)
     else if 0xb8 \<le> c \<and> c \<le> 0xbf \<and> bit r 3
       then Some (X_mov_imm (extended (bit r 0) (c AND 7)) (le_word (take 8 (drop 1 bs))), 9)
     else None)"

definition x64_decode :: "bytes \<Rightarrow> (x64_insn \<times> nat) option" where
  "x64_decode bs =
    (let (r, cs) = rex_split bs in
     map_option (\<lambda>(i, n). (i, n + (length bs - length cs))) (x64_opcode r cs))"

section \<open>Execution\<close>

text \<open>
  The flags appear only through the conditions that hold in the state: \<open>xcond s c\<close> says that the
  condition with the number \<open>c\<close> holds.
\<close>

record x64 =
  gpr :: "nat \<Rightarrow> u64"
  rip :: u64
  xmem :: "u64 \<Rightarrow> u8"
  xcond :: "u8 \<Rightarrow> bool"

definition ld64 :: "(u64 \<Rightarrow> u8) \<Rightarrow> u64 \<Rightarrow> u64" where
  "ld64 m a = le_word (ld 8 m a)"

definition st64 :: "u64 \<Rightarrow> u64 \<Rightarrow> (u64 \<Rightarrow> u8) \<Rightarrow> u64 \<Rightarrow> u8" where
  "st64 a v m = (\<lambda>x. if unat (x - a) < 8 then byte_of (unat (x - a)) v else m x)"

text \<open>The address of a memory operand; \<open>next\<close> is the address of the following instruction.\<close>

fun ea_address :: "x64 \<Rightarrow> u64 \<Rightarrow> ea \<Rightarrow> u64" where
  "ea_address s next (Ea_mem b ix d) =
    (case b of None \<Rightarrow> 0 | Some r \<Rightarrow> gpr s r) + (case ix of None \<Rightarrow> 0 | Some (r, k) \<Rightarrow> word_of_nat k * gpr s r) + d"
| "ea_address s next (Ea_rip d) = next + d"
| "ea_address s next (Ea_reg r) = 0"

fun ea_value :: "x64 \<Rightarrow> u64 \<Rightarrow> ea \<Rightarrow> u64" where
  "ea_value s next (Ea_reg r) = gpr s r"
| "ea_value s next a = ld64 (xmem s) (ea_address s next a)"

definition x64_push_value :: "u64 \<Rightarrow> x64 \<Rightarrow> x64" where
  "x64_push_value v s = s\<lparr>gpr := (gpr s)(4 := gpr s 4 - 8), xmem := st64 (gpr s 4 - 8) v (xmem s)\<rparr>"

fun x64_exec :: "x64_insn \<Rightarrow> u64 \<Rightarrow> x64 \<Rightarrow> x64" where
  "x64_exec X_nop next s = s\<lparr>rip := next\<rparr>"
| "x64_exec X_ret next s = s\<lparr>rip := ld64 (xmem s) (gpr s 4), gpr := (gpr s)(4 := gpr s 4 + 8)\<rparr>"
| "x64_exec (X_push r) next s = (x64_push_value (gpr s r) s)\<lparr>rip := next\<rparr>"
| "x64_exec (X_pop r) next s = s\<lparr>gpr := (gpr s)(4 := gpr s 4 + 8, r := ld64 (xmem s) (gpr s 4)), rip := next\<rparr>"
| "x64_exec (X_jmp d) next s = s\<lparr>rip := next + d\<rparr>"
| "x64_exec (X_call d) next s = (x64_push_value next s)\<lparr>rip := next + d\<rparr>"
| "x64_exec (X_jcc c d) next s = s\<lparr>rip := if xcond s c then next + d else next\<rparr>"
| "x64_exec (X_jmp_ea a) next s = s\<lparr>rip := ea_value s next a\<rparr>"
| "x64_exec (X_call_ea a) next s = (x64_push_value next s)\<lparr>rip := ea_value s next a\<rparr>"
| "x64_exec (X_load r a) next s = s\<lparr>gpr := (gpr s)(r := ea_value s next a), rip := next\<rparr>"
| "x64_exec (X_store a r) next s =
    (case a of Ea_reg q \<Rightarrow> s\<lparr>gpr := (gpr s)(q := gpr s r), rip := next\<rparr>
     | _ \<Rightarrow> s\<lparr>xmem := st64 (ea_address s next a) (gpr s r) (xmem s), rip := next\<rparr>)"
| "x64_exec (X_mov_imm r v) next s = s\<lparr>gpr := (gpr s)(r := v), rip := next\<rparr>"

definition x64_step :: "x64 \<Rightarrow> x64 option" where
  "x64_step s = map_option (\<lambda>(i, n). x64_exec i (rip s + word_of_nat n) s) (x64_decode (ld 15 (xmem s) (rip s)))"

fun x64_steps :: "nat \<Rightarrow> x64 \<Rightarrow> x64 option" where
  "x64_steps 0 s = Some s"
| "x64_steps (Suc n) s = Option.bind (x64_step s) (x64_steps n)"

lemma ld_loaded_prefix:
  assumes "loaded m a bs" "length bs \<le> n"
  shows "ld n m a = bs @ ld (n - length bs) m (a + word_of_nat (length bs))"
  using assms ld_add [of "length bs" "n - length bs" m a] by (simp add: loaded_iff_ld)

text \<open>One step over an instruction whose bytes are known.\<close>

lemma x64_step_bytes:
  assumes "loaded (xmem s) (rip s) bs" "length bs \<le> 15" "\<And>rest. x64_decode (bs @ rest) = Some (i, n)"
  shows "x64_step s = Some (x64_exec i (rip s + word_of_nat n) s)"
  using ld_loaded_prefix [OF assms(1,2)] assms(3) by (simp add: x64_step_def)

lemma ld64_st64: "ld64 (st64 a v m) a = v"
proof -
  have "ld 8 (st64 a v m) a = le_bytes 8 v"
    by (auto simp: ld_def st64_def le_bytes_def unat_of_nat)
  then show ?thesis
    by (simp add: ld64_def bytes)
qed

text \<open>\<open>apart a n b k\<close>: the ranges of \<open>n\<close> bytes at \<open>a\<close> and \<open>k\<close> bytes at \<open>b\<close> do not meet.\<close>

definition apart :: "u64 \<Rightarrow> nat \<Rightarrow> u64 \<Rightarrow> nat \<Rightarrow> bool" where
  "apart a n b k \<longleftrightarrow> (\<forall>i < n. unat (a + word_of_nat i - b) \<ge> k)"

lemma apartI:
  assumes "unat a + n \<le> unat b \<and> unat b + k \<le> 2 ^ 64 \<or> unat b + k \<le> unat a \<and> unat a + n \<le> 2 ^ 64"
  shows "apart a n b k"
  unfolding apart_def
proof (intro allI impI)
  fix i assume "i < n"
  then have "unat (a + word_of_nat i) = unat a + i"
    using assms unsigned_less [of b] by (subst unat_plus_if_size) (auto simp: unat_of_nat word_size)
  then show "k \<le> unat (a + word_of_nat i - b)"
    using assms \<open>i < n\<close> by (auto simp: unat_sub_if_size word_size word_le_nat_alt)
qed

lemma loaded_st64:
  "apart a (length bs) p 8 \<Longrightarrow> loaded (st64 p v m) a bs \<longleftrightarrow> loaded m a bs"
  by (auto simp: loaded_def st64_def apart_def not_le [symmetric])

lemma loaded_sub:
  assumes "loaded m a bs" "p + length cs \<le> length bs" "take (length cs) (drop p bs) = cs"
  shows "loaded m (a + word_of_nat p) cs"
proof -
  have "bs = take p bs @ cs @ drop (p + length cs) bs"
    using assms(2,3) by (metis append_take_drop_id drop_drop add.commute)
  then have "loaded m a (take p bs @ cs @ drop (p + length cs) bs)"
    using assms(1) by simp
  then show ?thesis
    using assms(2) by (simp add: loaded_append)
qed

lemma apart_sub:
  assumes "apart a n b k" "p + q \<le> n"
  shows "apart (a + word_of_nat p) q b k"
  unfolding apart_def
proof (intro allI impI)
  fix i assume "i < q"
  then show "k \<le> unat (a + word_of_nat p + word_of_nat i - b)"
    using assms(1) [unfolded apart_def, rule_format, of "p + i"] assms(2) by (simp add: add.assoc)
qed

text \<open>A memory that holds given bytes from an address on.\<close>

definition image_at :: "u64 \<Rightarrow> bytes \<Rightarrow> (u64 \<Rightarrow> u8) \<Rightarrow> u64 \<Rightarrow> u8" where
  "image_at a bs m = (\<lambda>x. if unat (x - a) < length bs then bs ! unat (x - a) else m x)"

lemma loaded_image_at: "length bs < 2 ^ 64 \<Longrightarrow> loaded (image_at a bs m) a bs"
  by (auto simp: loaded_def image_at_def unat_of_nat)

lemma loaded_image_at_other:
  "apart a (length bs) b (length cs) \<Longrightarrow> loaded m a bs \<Longrightarrow> loaded (image_at b cs m) a bs"
  by (auto simp: loaded_def image_at_def apart_def not_le [symmetric])

end
