(* ===== verification/Code_Patch.thy ===== *)
theory Code_Patch
  imports Memory_Arena X64_Isa
begin

text \<open>
  Writing code into a running process: \<^verbatim>\<open>CodePatch\<close> of \<^verbatim>\<open>code-patch-tool-posix.cc\<close>,
  \<^verbatim>\<open>OSMemory::SetPermission\<close> and \<^verbatim>\<open>AssemblyCodeBuilder.cc\<close>. The memory of the process is a record of its
  bytes and of the protection of every mapped byte; \<open>'k\<close> is whatever else the kernel keeps. A store to a
  byte that is not writable is a fault. \<^verbatim>\<open>mprotect\<close> is a parameter. \<^verbatim>\<open>ClearCache\<close> has no effect in this
  view: instructions are fetched from the same bytes.
\<close>

section \<open>Memory of the process\<close>

record 'k vmem =
  vm_bytes :: "u64 \<Rightarrow> u8"
  vm_prot :: "u64 \<Rightarrow> u32 option"
  vm_kernel :: 'k

text \<open>The result of the call and the memory after it.\<close>

type_synonym 'k mprotect = "u64 \<Rightarrow> u64 \<Rightarrow> u32 \<Rightarrow> 'k vmem \<Rightarrow> int \<times> 'k vmem"

definition writable :: "'k vmem \<Rightarrow> u64 \<Rightarrow> bool" where
  "writable m a \<longleftrightarrow> (case vm_prot m a of None \<Rightarrow> False | Some p \<Rightarrow> p AND PROT_WRITE \<noteq> 0)"

text \<open>\<^verbatim>\<open>memcpy\<close> from a buffer of the program.\<close>

primrec vm_memcpy :: "u64 \<Rightarrow> bytes \<Rightarrow> 'k vmem \<Rightarrow> 'k vmem res" where
  "vm_memcpy a [] m = Inr m"
| "vm_memcpy a (b # bs) m =
    (if writable m a then vm_memcpy (a + 1) bs (m\<lparr>vm_bytes := (vm_bytes m)(a := b)\<rparr>) else Inl OutOfBounds)"

definition CodePatch :: "int \<Rightarrow> 'k mprotect \<Rightarrow> u64 \<Rightarrow> bytes \<Rightarrow> 'k vmem \<Rightarrow> 'k vmem res" where
  "CodePatch page_size mprotect address buffer m =
    (let page_align_address = ALIGN_FLOOR address (word_of_int page_size);
         offset = ucast (address - page_align_address) :: u32;
         m = snd (mprotect page_align_address (word_of_int page_size) (PROT_READ OR PROT_WRITE OR PROT_EXEC) m) in
     bindr (vm_memcpy (page_align_address + scast offset) buffer m) (\<lambda>m.
     Inr (snd (mprotect page_align_address (word_of_int page_size) (PROT_READ OR PROT_EXEC) m))))"

text \<open>The checks of the alignment exist in debug builds only.\<close>

definition SetPermission :: "'k mprotect \<Rightarrow> u64 \<Rightarrow> int \<Rightarrow> MemoryPermission \<Rightarrow> 'k vmem \<Rightarrow> (bool \<times> 'k vmem) res" where
  "SetPermission mprotect address sz access m =
    (let prot = GetProtectionFromMemoryPermission access;
         (ret, m) = mprotect address (word_of_int sz) prot m in
     if ret \<noteq> 0 then Inl Fatal else Inr (ret = 0, m))"

section \<open>The code builder\<close>

definition FinalizeFromAddress :: "u64 \<Rightarrow> int \<Rightarrow> MemoryChunk" where
  "FinalizeFromAddress address sz = init_region_range address (word_of_int sz)"

text \<open>
  \<open>slack\<close> is what the code adds to the size of the buffer, 4 on ARM and 0 elsewhere; \<open>realized\<close> is the
  realized address of the assembler, which the call may set.
\<close>

definition FinalizeFromTurboAssembler ::
  "int \<Rightarrow> 'k vmem os_api \<Rightarrow> 'k mprotect \<Rightarrow> bytes \<Rightarrow> u64 \<Rightarrow> 'k vmem arena \<Rightarrow> (MemoryChunk option \<times> u64 \<times> 'k vmem arena) res" where
  "FinalizeFromTurboAssembler slack api mprotect buffer realized s =
    (let (result, realized, s) =
       (if realized = 0
        then (case AllocateCodeChunk api (int (length buffer) + slack) s of
                (None, s) \<Rightarrow> (None, realized, s)
              | (Some c, s) \<Rightarrow> (Some c, raw_instruction_start c, s))
        else (Some (FinalizeFromAddress realized (int (length buffer))), realized, s)) in
     case result of
       None \<Rightarrow> Inr (None, realized, s)
     | Some c \<Rightarrow> bindr (CodePatch (os_page_size api) mprotect realized buffer (snd s)) (\<lambda>m. Inr (Some c, realized, (fst s, m))))"

section \<open>Spans\<close>

text \<open>The addresses from \<open>a\<close> on, for \<open>n\<close> bytes.\<close>

definition span :: "u64 \<Rightarrow> nat \<Rightarrow> u64 set" where
  "span a n = {x. unat (x - a) < n}"

lemma unat_after:
  fixes x :: u64
  assumes "x \<noteq> a"
  shows "unat (x - (a + 1)) = unat (x - a) - 1" "0 < unat (x - a)"
proof -
  have "x - a \<noteq> 0" using assms by simp
  from unat_minus_one [OF this] show "unat (x - (a + 1)) = unat (x - a) - 1" by (simp add: diff_diff_eq)
  show "0 < unat (x - a)" using \<open>x - a \<noteq> 0\<close> by (simp add: unat_gt_0)
qed

lemma span_Suc: "span a (Suc n) = insert a (span (a + 1) n)" if "n < 2 ^ 64"
proof -
  have "unat (x - a) < Suc n \<longleftrightarrow> x = a \<or> unat (x - (a + 1)) < n" for x
    using unat_after [of x a] by (cases "x = a") auto
  then show ?thesis by (auto simp: span_def)
qed

lemma span_0 [simp]: "span a 0 = {}"
  by (simp add: span_def)

lemma image_at_outside: "x \<notin> span a (length bs) \<Longrightarrow> image_at a bs m x = m x"
  by (simp add: span_def image_at_def)

lemma image_at_Cons: "length bs < 2 ^ 64 - 1 \<Longrightarrow> image_at (a + 1) bs (m(a := b)) = image_at a (b # bs) m"
proof
  fix x assume n: "length bs < 2 ^ 64 - 1"
  have "unat (- 1 :: u64) = 2 ^ 64 - 1" by (simp add: unat_eq_nat_uint unsigned_minus_1_eq_mask mask_eq_exp_minus_1)
  then show "image_at (a + 1) bs (m(a := b)) x = image_at a (b # bs) m x"
    using unat_after [of x a] n by (cases "x = a") (auto simp: image_at_def nth_Cons')
qed

lemma memcpy_ok:
  "\<forall>x \<in> span a (length bs). writable m x \<Longrightarrow> length bs < 2 ^ 64 \<Longrightarrow>
   vm_memcpy a bs m = Inr (m\<lparr>vm_bytes := image_at a bs (vm_bytes m)\<rparr>)"
proof (induction bs arbitrary: a m)
  case Nil
  then show ?case by (simp add: image_at_def)
next
  case (Cons b bs)
  let ?m = "m\<lparr>vm_bytes := (vm_bytes m)(a := b)\<rparr>"
  have "span a (length (b # bs)) = insert a (span (a + 1) (length bs))"
    using Cons.prems(2) span_Suc [of "length bs" a] by simp
  then have "writable m a" "\<forall>x \<in> span (a + 1) (length bs). writable ?m x"
    using Cons.prems(1) by (auto simp: writable_def)
  moreover have "image_at (a + 1) bs ((vm_bytes m)(a := b)) = image_at a (b # bs) (vm_bytes m)"
    using Cons.prems(2) by (intro image_at_Cons) simp
  ultimately show ?case using Cons.IH [of "a + 1" ?m] Cons.prems(2) by (simp del: fun_upd_apply)
qed

lemma memcpy_fault:
  "x \<in> span a (length bs) \<Longrightarrow> \<not> writable m x \<Longrightarrow> length bs < 2 ^ 64 \<Longrightarrow> vm_memcpy a bs m = Inl OutOfBounds"
proof (induction bs arbitrary: a m)
  case (Cons b bs)
  have "x = a \<or> x \<in> span (a + 1) (length bs)"
    using Cons.prems(1,3) span_Suc [of "length bs" a] by simp
  moreover have "writable (m\<lparr>vm_bytes := f\<rparr>) x = writable m x" for f by (simp add: writable_def)
  ultimately show ?case using Cons.IH [of "a + 1"] Cons.prems by auto
qed simp

section \<open>What the code relies on of mprotect\<close>

text \<open>
  A call for whole pages never changes the contents of memory, what is mapped, or the protection of other
  pages, and when it returns 0 it has set the protection. That pages that are mapped as a whole are granted is
  an assumption of success, stronger than the documentation: a kernel may refuse them for other reasons.
\<close>

definition mprotect_ok :: "nat \<Rightarrow> 'k mprotect \<Rightarrow> bool" where
  "mprotect_ok k mprotect \<longleftrightarrow> k \<le> 30 \<and>
    (\<forall>a prot m r m'. take_bit k a = 0 \<and> mprotect a (2 ^ k) prot m = (r, m') \<longrightarrow>
       vm_bytes m' = vm_bytes m \<and> (\<forall>x. x \<notin> span a (2 ^ k) \<longrightarrow> vm_prot m' x = vm_prot m x) \<and>
       (\<forall>x. vm_prot m' x = None \<longleftrightarrow> vm_prot m x = None) \<and>
       (r = 0 \<longrightarrow> (\<forall>x \<in> span a (2 ^ k). vm_prot m' x = Some prot)) \<and>
       ((\<forall>x \<in> span a (2 ^ k). vm_prot m x \<noteq> None) \<longrightarrow> r = 0))"

lemma mprotect_okD:
  assumes "mprotect_ok k mprotect" "take_bit k a = 0" "mprotect a (2 ^ k) prot m = (r, m')"
  shows "vm_bytes m' = vm_bytes m" "x \<notin> span a (2 ^ k) \<Longrightarrow> vm_prot m' x = vm_prot m x"
    "vm_prot m' x = None \<longleftrightarrow> vm_prot m x = None"
    "\<forall>x \<in> span a (2 ^ k). vm_prot m x \<noteq> None \<Longrightarrow> r = 0 \<and> (\<forall>x \<in> span a (2 ^ k). vm_prot m' x = Some prot)"
  using assms unfolding mprotect_ok_def by blast+

abbreviation page_of :: "nat \<Rightarrow> u64 \<Rightarrow> u64" where
  "page_of k a \<equiv> ALIGN_FLOOR a (2 ^ k)"

lemma page_of_aligned: "take_bit k (page_of k a) = 0" for a :: u64
  by (intro bit_word_eqI) (auto simp: ALIGN_FLOOR_def bit_simps simp flip: mask_eq_exp_minus_1)

lemma unat_take_bit_less: "unat (take_bit k (a :: u64)) < 2 ^ k"
  unfolding unsigned_take_bit_eq by (simp add: take_bit_eq_mod)

lemma page_offset:
  fixes a :: u64
  assumes "k \<le> 30"
  shows "a - page_of k a = take_bit k a" "unat (take_bit k a :: u64) < 2 ^ k"
    "page_of k a + scast (ucast (a - page_of k a) :: u32) = a"
proof -
  show o: "a - page_of k a = take_bit k a" by (simp add: ALIGN_FLOOR_pow2)
  show "unat (take_bit k a) < 2 ^ k" by (rule unat_take_bit_less)
  have "scast (ucast (take_bit k a) :: u32) = take_bit k a"
    by (intro bit_word_eqI) (use assms in \<open>auto simp: bit_simps min_def\<close>)
  then show "page_of k a + scast (ucast (a - page_of k a) :: u32) = a"
    by (simp add: o) (simp add: ALIGN_FLOOR_pow2)
qed

lemma span_in_page:
  assumes "unat (take_bit k a) + n \<le> 2 ^ k" "k \<le> 30"
  shows "span a n \<subseteq> span (page_of k a) (2 ^ k)"
proof
  fix x assume "x \<in> span a n"
  then have x: "unat (x - a) < n" by (simp add: span_def)
  have e: "x - page_of k a = (x - a) + take_bit k a" by (simp add: ALIGN_FLOOR_pow2)
  have "unat ((x - a) + take_bit k a) \<le> unat (x - a) + unat (take_bit k a)" by (simp add: unat_word_ariths)
  then show "x \<in> span (page_of k a) (2 ^ k)" using x assms(1) unfolding span_def mem_Collect_eq e by linarith
qed

lemma in_page_of: "k \<le> 30 \<Longrightarrow> a \<in> span (page_of k a) (2 ^ k)" for a :: u64
  using page_offset(1,2) [of k a] by (simp add: span_def)

lemma CodePatch_page:
  assumes ok: "mprotect_ok k mprotect" and fits: "unat (take_bit k a) + length bs \<le> 2 ^ k"
    and mapped: "\<forall>x \<in> span (page_of k a) (2 ^ k). vm_prot m x \<noteq> None"
  shows "\<exists>m'. CodePatch (2 ^ k) mprotect a bs m = Inr m' \<and> vm_bytes m' = image_at a bs (vm_bytes m) \<and>
    (\<forall>x. vm_prot m' x = (if x \<in> span (page_of k a) (2 ^ k) then Some (PROT_READ OR PROT_EXEC) else vm_prot m x))"
proof -
  let ?p = "page_of k a"
  have k: "k \<le> 30" using ok by (simp add: mprotect_ok_def)
  obtain r1 m1 where 1: "mprotect ?p (2 ^ k) (PROT_READ OR PROT_WRITE OR PROT_EXEC) m = (r1, m1)" by fastforce
  note m1 = mprotect_okD [OF ok page_of_aligned 1]
  have "writable m1 x" if "x \<in> span ?p (2 ^ k)" for x
    using m1(4) [OF mapped] that by (simp add: writable_def)
  then have "\<forall>x \<in> span a (length bs). writable m1 x" using span_in_page [OF fits k] by blast
  moreover have "length bs < 2 ^ 64"
    using fits power_increasing [OF k, of "2 :: nat"] by simp
  ultimately have copy: "vm_memcpy a bs m1 = Inr (m1\<lparr>vm_bytes := image_at a bs (vm_bytes m)\<rparr>)"
    using memcpy_ok [of a bs m1] m1(1) by simp
  let ?m2 = "m1\<lparr>vm_bytes := image_at a bs (vm_bytes m)\<rparr>"
  obtain r3 m3 where 3: "mprotect ?p (2 ^ k) (PROT_READ OR PROT_EXEC) ?m2 = (r3, m3)" by fastforce
  note m3 = mprotect_okD [OF ok page_of_aligned 3]
  have "\<forall>x \<in> span ?p (2 ^ k). vm_prot ?m2 x \<noteq> None" using m1(3) mapped by simp
  from m3(4) [OF this] have "\<forall>x. vm_prot m3 x = (if x \<in> span ?p (2 ^ k) then Some (PROT_READ OR PROT_EXEC) else vm_prot m x)"
    using m3(2) m1(2) by auto
  then show ?thesis
    using 1 3 copy m3(1) page_offset(3) [OF k, of a] by (simp add: CodePatch_def Let_def)
qed

section \<open>Properties\<close>

text \<open>
  C34. A patch that stays inside one page does what it says: on a page that is mapped, \<^verbatim>\<open>CodePatch\<close>
  returns, the bytes of the buffer are in memory from the address on, every other byte of memory is as
  before, the page is readable and executable again and not writable, and the protection of every
  other page is as before.
\<close>

theorem CodePatch_writes:
  assumes "mprotect_ok k mprotect" "unat (take_bit k a) + length bs \<le> 2 ^ k" "\<forall>x \<in> span (page_of k a) (2 ^ k). vm_prot m x \<noteq> None"
  shows "\<exists>m'. CodePatch (2 ^ k) mprotect a bs m = Inr m' \<and> loaded (vm_bytes m') a bs \<and>
    (\<forall>x. x \<notin> span a (length bs) \<longrightarrow> vm_bytes m' x = vm_bytes m x) \<and>
    (\<forall>x. vm_prot m' x = (if x \<in> span (page_of k a) (2 ^ k) then Some (PROT_READ OR PROT_EXEC) else vm_prot m x))"
proof -
  have "k \<le> 30" using assms(1) by (simp add: mprotect_ok_def)
  then have "length bs < 2 ^ 64" using assms(2) power_increasing [of k 30 "2 :: nat"] by simp
  then show ?thesis
    using CodePatch_page [OF assms] loaded_image_at image_at_outside by metis
qed

text \<open>A kernel that grants every request for memory that is mapped.\<close>

definition wit_mprotect :: "'k mprotect" where
  "wit_mprotect a len prot m =
    (if \<forall>x \<in> span a (unat len). vm_prot m x \<noteq> None
     then (0, m\<lparr>vm_prot := (\<lambda>x. if x \<in> span a (unat len) then Some prot else vm_prot m x)\<rparr>) else (- 1, m))"

lemma wit_mprotect_ok: "mprotect_ok 12 wit_mprotect"
  by (auto simp: mprotect_ok_def wit_mprotect_def split: if_splits)

definition wit_memory :: "unit vmem" where
  "wit_memory = \<lparr>vm_bytes = (\<lambda>_. 0x90), vm_prot = (\<lambda>_. Some (PROT_READ OR PROT_EXEC)), vm_kernel = ()\<rparr>"

theorem CodePatch_writes_witness:
  "\<exists>m'. CodePatch 4096 wit_mprotect 0x1ff0 [0xcc, 0xc3] wit_memory = Inr m' \<and> loaded (vm_bytes m') 0x1ff0 [0xcc, 0xc3] \<and>
     vm_bytes m' 0x2000 = 0x90"
proof -
  have t: "take_bit 12 (0x1ff0 :: u64) = 0xff0" by (simp add: take_bit_eq_mask mask_eq_exp_minus_1)
  then have "unat (take_bit 12 (0x1ff0 :: u64)) + length [0xcc, 0xc3 :: u8] \<le> 2 ^ 12" by simp
  moreover have "\<forall>x \<in> span (page_of 12 0x1ff0) (2 ^ 12). vm_prot wit_memory x \<noteq> None" by (simp add: wit_memory_def)
  ultimately obtain m' where "CodePatch (2 ^ 12) wit_mprotect 0x1ff0 [0xcc, 0xc3] wit_memory = Inr m'"
    "loaded (vm_bytes m') 0x1ff0 [0xcc, 0xc3]" "\<forall>x. x \<notin> span 0x1ff0 2 \<longrightarrow> vm_bytes m' x = vm_bytes wit_memory x"
    using CodePatch_writes [OF wit_mprotect_ok, of "0x1ff0" "[0xcc, 0xc3]" wit_memory] by (auto simp: numeral_2_eq_2)
  then show ?thesis by (auto simp: span_def wit_memory_def)
qed

text \<open>
  C38. \<^verbatim>\<open>CodePatch\<close> makes only the page of the first byte writable: a patch that reaches a byte of the
  next page faults when that page is not writable already, as pages with code are not.
\<close>

theorem CodePatch_across_pages_faults:
  assumes "mprotect_ok k mprotect" "length bs \<le> 2 ^ 31" "x \<in> span a (length bs)" "x \<notin> span (page_of k a) (2 ^ k)" "\<not> writable m x"
  shows "CodePatch (2 ^ k) mprotect a bs m = Inl OutOfBounds"
proof -
  have k: "k \<le> 30" using assms(1) by (simp add: mprotect_ok_def)
  obtain r1 m1 where 1: "mprotect (page_of k a) (2 ^ k) (PROT_READ OR PROT_WRITE OR PROT_EXEC) m = (r1, m1)" by fastforce
  have "\<not> writable m1 x"
    using mprotect_okD(2) [OF assms(1) page_of_aligned 1 assms(4)] assms(5) by (simp add: writable_def)
  then have "vm_memcpy a bs m1 = Inl OutOfBounds" using assms(2,3) by (intro memcpy_fault) auto
  then show ?thesis using 1 page_offset(3) [OF k, of a] by (simp add: CodePatch_def Let_def)
qed

theorem CodePatch_across_pages_faults_witness:
  "CodePatch 4096 wit_mprotect 0x1fff [0xcc, 0xc3] wit_memory = Inl OutOfBounds"
proof -
  have "(0x2000 :: u64) \<in> span 0x1fff (length [0xcc, 0xc3 :: u8])" "\<not> writable wit_memory 0x2000"
    by (simp_all add: span_def writable_def wit_memory_def)
  moreover have "page_of 12 0x1fff = (0x1000 :: u64)" by (simp add: ALIGN_FLOOR_def)
  then have "(0x2000 :: u64) \<notin> span (page_of 12 0x1fff) (2 ^ 12)" by (simp add: span_def)
  ultimately show ?thesis
    using CodePatch_across_pages_faults [OF wit_mprotect_ok, of "[0xcc, 0xc3]" "0x2000" "0x1fff" wit_memory] by simp
qed

end
