(* ===== verification/Process_Layout.thy ===== *)
theory Process_Layout
  imports Memory_Arena
begin

text \<open>
  The memory map of the process: \<^verbatim>\<open>PlatformUtil/Linux/ProcessRuntimeUtility.cc\<close>, which reads
  \<^verbatim>\<open>/proc/self/maps\<close> line by line with \<^verbatim>\<open>fgets\<close> and \<^verbatim>\<open>sscanf\<close>. The text of the file is an argument,
  absent when the file cannot be opened. The line buffer is a local array of the loop body that is
  not initialised: \<open>uninit\<close> gives its contents at the start of a round from those at the end of the
  round before. A string of C is the list of the characters before the terminating zero.
\<close>

section \<open>The functions of the C library\<close>

abbreviation (input) newline :: char where "newline \<equiv> CHR 0x0A"

definition isspace :: "char \<Rightarrow> bool" where
  "isspace c \<longleftrightarrow> c \<in> {CHR 0x09, CHR 0x0A, CHR 0x0B, CHR 0x0C, CHR 0x0D, CHR 0x20}"

definition digit_value :: "nat \<Rightarrow> char \<Rightarrow> nat option" where
  "digit_value base c =
    (let n = of_char c :: nat;
         d = (if 0x30 \<le> n \<and> n \<le> 0x39 then n - 0x30
              else if 0x61 \<le> n \<and> n \<le> 0x66 then n - 0x61 + 10
              else if 0x41 \<le> n \<and> n \<le> 0x46 then n - 0x41 + 10 else 16) in
     if d < base then Some d else None)"

text \<open>
  \<^verbatim>\<open>fgets\<close>: at most \<open>n\<close> characters, up to a newline. The results are the characters read, the rest of the
  stream and whether the end of the file was met; no characters stand for the result \<^verbatim>\<open>NULL\<close>.
\<close>

fun fgets :: "nat \<Rightarrow> string \<Rightarrow> string \<times> string \<times> bool" where
  "fgets 0 s = ([], s, False)"
| "fgets (Suc n) [] = ([], [], True)"
| "fgets (Suc n) (c # cs) = (if c = newline then ([c], cs, False) else (let (l, r, e) = fgets n cs in (c # l, r, e)))"

text \<open>The directives of \<^verbatim>\<open>sscanf\<close>: a result and the rest of the input, or a failure.\<close>

definition skip_space :: "string \<Rightarrow> string" where
  "skip_space = dropWhile isspace"

fun scan_digits :: "nat \<Rightarrow> nat \<Rightarrow> string \<Rightarrow> nat \<times> string" where
  "scan_digits base acc [] = (acc, [])"
| "scan_digits base acc (c # cs) =
    (case digit_value base c of None \<Rightarrow> (acc, c # cs) | Some d \<Rightarrow> scan_digits base (acc * base + d) cs)"

definition scan_sign :: "string \<Rightarrow> bool \<times> string" where
  "scan_sign s = (case s of [] \<Rightarrow> (False, s) | c # cs \<Rightarrow> if c = CHR ''-'' then (True, cs) else if c = CHR ''+'' then (False, cs) else (False, s))"

definition scan_prefix :: "string \<Rightarrow> string" where
  "scan_prefix s = (case s of a # b # cs \<Rightarrow> if a = CHR ''0'' \<and> (b = CHR ''x'' \<or> b = CHR ''X'') then cs else s | _ \<Rightarrow> s)"

definition scan_magnitude :: "nat \<Rightarrow> string \<Rightarrow> (nat \<times> string) option" where
  "scan_magnitude base s =
    (case s of [] \<Rightarrow> None | c # cs \<Rightarrow> if digit_value base c = None then None else Some (scan_digits base 0 s))"

text \<open>\<^verbatim>\<open>%lx\<close> and \<^verbatim>\<open>%hhx\<close>, whose value is cut to the size of the object, and \<^verbatim>\<open>%ld\<close>.\<close>

definition scan_hex :: "string \<Rightarrow> (u64 \<times> string) option" where
  "scan_hex s =
    (let (neg, s) = scan_sign (skip_space s) in
     map_option (\<lambda>(n, r). let v = (if n < 2 ^ 64 then word_of_nat n else - 1) in (if neg \<and> n < 2 ^ 64 then - v else v, r))
       (scan_magnitude 16 (scan_prefix s)))"

definition scan_long :: "string \<Rightarrow> (u64 \<times> string) option" where
  "scan_long s =
    (let (neg, s) = scan_sign (skip_space s) in
     map_option (\<lambda>(n, r). (word_of_int (if neg then max (- (2 ^ 63)) (- int n) else min (2 ^ 63 - 1) (int n)), r)) (scan_magnitude 10 s))"

definition scan_char :: "char \<Rightarrow> string \<Rightarrow> string option" where
  "scan_char c s = (case s of [] \<Rightarrow> None | d # cs \<Rightarrow> if d = c then Some cs else None)"

definition scan_4c :: "string \<Rightarrow> (string \<times> string) option" where
  "scan_4c s = (if length s < 4 then None else Some (take 4 s, drop 4 s))"

section \<open>The memory layout\<close>

record MemoryRegion =
  mr_address :: u64
  mr_length :: u64
  mr_permission :: MemoryPermission

record maps_line =
  ml_start :: u64
  ml_end :: u64
  ml_permissions :: string
  ml_offset :: u64
  ml_major :: u8
  ml_minor :: u8
  ml_inode :: u64
  ml_path_index :: nat

text \<open>The call of \<^verbatim>\<open>sscanf\<close>; nothing stands for a result below 7.\<close>

definition scan_line :: "string \<Rightarrow> maps_line option" where
  "scan_line line =
    Option.bind (scan_hex line) (\<lambda>(st, s).
    Option.bind (scan_char (CHR ''-'') s) (\<lambda>s.
    Option.bind (scan_hex s) (\<lambda>(en, s).
    Option.bind (scan_4c (skip_space s)) (\<lambda>(perms, s).
    Option.bind (scan_hex (skip_space s)) (\<lambda>(offset, s).
    Option.bind (scan_hex (skip_space s)) (\<lambda>(major, s).
    Option.bind (scan_char (CHR '':'') s) (\<lambda>s.
    Option.bind (scan_hex s) (\<lambda>(minor, s).
    Option.bind (scan_long (skip_space s)) (\<lambda>(inode, s).
    Some \<lparr>ml_start = st, ml_end = en, ml_permissions = perms, ml_offset = offset, ml_major = ucast major, ml_minor = ucast minor,
      ml_inode = inode, ml_path_index = length line - length (skip_space s)\<rparr>)))))))))"

abbreviation (input) LINE_MAX :: nat where "LINE_MAX \<equiv> 2048"

text \<open>
  One round of the reading loop: the new contents of the buffer, and the rest of the stream with its
  end-of-file flag, or nothing when the loop is left because a line was skipped up to the end.
\<close>

fun skip_line :: "string \<Rightarrow> string option" where
  "skip_line [] = None"
| "skip_line (c # cs) = (if c = newline then Some cs else skip_line cs)"

definition read_line :: "string \<Rightarrow> string \<Rightarrow> string \<times> (string \<times> bool) option" where
  "read_line buf s =
    (let (l, r, e) = fgets (LINE_MAX - 1) s;
         line_buffer = (if l = [] then buf else l) in
     (line_buffer, if length line_buffer = LINE_MAX then map_option (\<lambda>r. (r, e)) (skip_line r) else Some (r, e)))"

definition permission_of :: "string \<Rightarrow> MemoryPermission" where
  "permission_of permissions =
    (if permissions ! 0 = CHR ''r'' \<and> permissions ! 1 = CHR ''w'' then kReadWrite
     else if permissions ! 0 = CHR ''r'' \<and> permissions ! 2 = CHR ''x'' then kReadExecute
     else if permissions ! 0 = CHR ''r'' \<and> permissions ! 1 = CHR ''w'' \<and> permissions ! 2 = CHR ''x'' then kReadWriteExecute
     else kNoAccess)"

definition memory_region_comparator :: "MemoryRegion \<Rightarrow> MemoryRegion \<Rightarrow> bool" where
  "memory_region_comparator a b \<longleftrightarrow> mr_address a < mr_address b"

lemma fgets_progress: "fgets (Suc n) s = (l, r, e) \<Longrightarrow> (l = [] \<and> r = [] \<and> s = [] \<and> e) \<or> length r < length s"
proof -
  have le: "fgets n s = (l, r, e) \<Longrightarrow> length r \<le> length s" for n s l r e
    by (induction n s arbitrary: l rule: fgets.induct) (auto split: if_splits prod.splits)
  assume "fgets (Suc n) s = (l, r, e)"
  then show ?thesis using le [of n] by (cases s) (auto split: if_splits prod.splits, fastforce)
qed

lemma skip_line_less: "skip_line s = Some r \<Longrightarrow> length r < length s"
  by (induction s) (auto split: if_splits)

lemma read_line_progress:
  "read_line buf s = (b, Some (r, e)) \<Longrightarrow> (r = [] \<and> s = [] \<and> e) \<or> length r < length s"
  using fgets_progress [of 2046 s] skip_line_less
  by (auto simp: read_line_def Let_def split: prod.splits if_splits) (metis length_0_conv less_nat_zero_code less_trans)+

function layout_loop :: "(string \<Rightarrow> string) \<Rightarrow> string \<Rightarrow> string \<Rightarrow> bool \<Rightarrow> MemoryRegion list \<Rightarrow> MemoryRegion list res" where
  "layout_loop uninit buf s eof acc =
    (if eof then Inr acc
     else case read_line (uninit buf) s of
       (_, None) \<Rightarrow> Inr acc
     | (line, Some (s, eof)) \<Rightarrow>
         (case scan_line line of
            None \<Rightarrow> Inl Fatal
          | Some ml \<Rightarrow> layout_loop uninit line s eof
              (acc @ [\<lparr>mr_address = ml_start ml, mr_length = ml_end ml - ml_start ml, mr_permission = permission_of (ml_permissions ml)\<rparr>])))"
  by pat_completeness auto

termination layout_loop
  by (relation "measure (\<lambda>(uninit, buf, s, eof, acc). length s + (if eof then 0 else 1))")
    (auto dest!: sym [of "(_, Some (_, _))"] read_line_progress)

declare layout_loop.simps [simp del]

text \<open>\<^verbatim>\<open>std::sort\<close> with the comparator.\<close>

definition GetProcessMemoryLayout :: "(string \<Rightarrow> string) \<Rightarrow> string option \<Rightarrow> MemoryRegion list res" where
  "GetProcessMemoryLayout uninit maps =
    (case maps of None \<Rightarrow> Inr []
     | Some text \<Rightarrow> bindr (layout_loop uninit [] text False []) (\<lambda>rs. Inr (sort_key mr_address rs)))"

section \<open>The modules\<close>

record RuntimeModule =
  rm_path :: string
  rm_load_address :: u64

definition strip_newline :: "string \<Rightarrow> string" where
  "strip_newline p = (if last p = newline then butlast p else p)"

text \<open>
  A module for a line, when there is one; \<open>mem\<close> is the memory of the process. \<^verbatim>\<open>strncpy\<close> copies at most
  1024 characters, without a terminating zero when the path is that long.
\<close>

definition module_of :: "(u64 \<Rightarrow> u8) \<Rightarrow> string \<Rightarrow> maps_line \<Rightarrow> RuntimeModule option" where
  "module_of mem line ml =
    (let path_buffer = drop (ml_path_index ml) line in
     if ml_permissions ml \<noteq> ''r--p'' \<and> ml_permissions ml \<noteq> ''r-xp'' then None
     else if ld 4 mem (ml_start ml) \<noteq> [0x7f, 0x45, 0x4c, 0x46] then None
     else if path_buffer = [] \<or> hd path_buffer = newline \<or> hd path_buffer = CHR ''['' then None
     else Some \<lparr>rm_path = take 1024 (strip_newline path_buffer), rm_load_address = ml_start ml\<rparr>)"

function module_loop ::
  "(string \<Rightarrow> string) \<Rightarrow> (u64 \<Rightarrow> u8) \<Rightarrow> string \<Rightarrow> string \<Rightarrow> bool \<Rightarrow> RuntimeModule list \<Rightarrow> RuntimeModule list res" where
  "module_loop uninit mem buf s eof acc =
    (if eof then Inr acc
     else case read_line (uninit buf) s of
       (_, None) \<Rightarrow> Inr acc
     | (line, Some (s, eof)) \<Rightarrow>
         (case scan_line line of
            None \<Rightarrow> Inl Fatal
          | Some ml \<Rightarrow> (case module_of mem line ml of
                None \<Rightarrow> module_loop uninit mem line s eof acc
              | Some md \<Rightarrow> module_loop uninit mem (strip_newline line) s eof (acc @ [md]))))"
  by pat_completeness auto

termination module_loop
  by (relation "measure (\<lambda>(uninit, mem, buf, s, eof, acc). length s + (if eof then 0 else 1))")
    (auto dest!: sym [of "(_, Some (_, _))"] read_line_progress)

declare module_loop.simps [simp del]

definition get_process_map_with_proc_maps ::
  "(string \<Rightarrow> string) \<Rightarrow> (u64 \<Rightarrow> u8) \<Rightarrow> string option \<Rightarrow> RuntimeModule list res" where
  "get_process_map_with_proc_maps uninit mem maps =
    (case maps of None \<Rightarrow> Inr [] | Some text \<Rightarrow> module_loop uninit mem [] text False [])"

definition GetProcessModuleMap :: "(string \<Rightarrow> string) \<Rightarrow> (u64 \<Rightarrow> u8) \<Rightarrow> string option \<Rightarrow> RuntimeModule list res" where
  "GetProcessModuleMap = get_process_map_with_proc_maps"

fun strstr :: "string \<Rightarrow> string \<Rightarrow> bool" where
  "strstr [] name \<longleftrightarrow> name = []"
| "strstr (c # cs) name \<longleftrightarrow> take (length name) (c # cs) = name \<or> strstr cs name"

text \<open>A search that fails in a path without a terminating zero goes on behind the array.\<close>

fun find_module :: "string \<Rightarrow> RuntimeModule list \<Rightarrow> RuntimeModule res" where
  "find_module name [] = Inr \<lparr>rm_path = [], rm_load_address = 0\<rparr>"
| "find_module name (md # mds) =
    (if strstr (rm_path md) name then Inr md
     else if length (rm_path md) = 1024 then Inl OutOfBounds
     else find_module name mds)"

definition GetProcessModule :: "(string \<Rightarrow> string) \<Rightarrow> (u64 \<Rightarrow> u8) \<Rightarrow> string option \<Rightarrow> string \<Rightarrow> RuntimeModule res" where
  "GetProcessModule uninit mem maps name = bindr (GetProcessModuleMap uninit mem maps) (find_module name)"

section \<open>The format of the file\<close>

text \<open>Numbers as the kernel prints them.\<close>

definition digit_char :: "nat \<Rightarrow> char" where
  "digit_char d = char_of (if d < 10 then 0x30 + d else 0x57 + d)"

function digits :: "nat \<Rightarrow> nat \<Rightarrow> nat list" where
  "digits b n = (if b < 2 \<or> n < b then [n] else digits b (n div b) @ [n mod b])"
  by pat_completeness auto

termination digits
  by (relation "measure snd") (auto intro!: div_less_dividend)

declare digits.simps [simp del]

definition print_num :: "nat \<Rightarrow> nat \<Rightarrow> nat \<Rightarrow> string" where
  "print_num b w n = map digit_char (replicate (w - length (digits b n)) 0 @ digits b n)"

record vma =
  v_start :: u64
  v_end :: u64
  v_perms :: string
  v_offset :: u64
  v_major :: u8
  v_minor :: u8
  v_inode :: nat
  v_pad :: nat
  v_name :: string

definition print_vma :: "vma \<Rightarrow> string" where
  "print_vma v = print_num 16 8 (unat (v_start v)) @ CHR ''-'' # print_num 16 8 (unat (v_end v)) @ CHR '' '' # v_perms v @
    CHR '' '' # print_num 16 8 (unat (v_offset v)) @ CHR '' '' # print_num 16 2 (unat (v_major v)) @ CHR '':'' #
    print_num 16 2 (unat (v_minor v)) @ CHR '' '' # print_num 10 1 (v_inode v) @ CHR '' '' # replicate (v_pad v) (CHR '' '') @ v_name v @ [newline]"

text \<open>What the kernel guarantees of an entry.\<close>

definition vma_ok :: "vma \<Rightarrow> bool" where
  "vma_ok v \<longleftrightarrow> length (v_perms v) = 4 \<and> \<not> isspace (hd (v_perms v)) \<and> newline \<notin> set (v_perms v) \<and> v_inode v < 2 ^ 63 \<and>
    newline \<notin> set (v_name v) \<and> (v_name v = [] \<or> \<not> isspace (hd (v_name v)))"

definition region_of :: "vma \<Rightarrow> MemoryRegion" where
  "region_of v = \<lparr>mr_address = v_start v, mr_length = v_end v - v_start v, mr_permission = permission_of (v_perms v)\<rparr>"

subsection \<open>Numbers\<close>

lemma digits_less: "2 \<le> b \<Longrightarrow> d \<in> set (digits b n) \<Longrightarrow> d < b"
proof (induction b n rule: digits.induct)
  case (1 b n)
  show ?case
  proof (cases "n < b")
    case True
    then show ?thesis using 1(3) by (simp add: digits.simps [of b n])
  next
    case False
    then have "digits b n = digits b (n div b) @ [n mod b]" using 1(2) by (simp add: digits.simps [of b n])
    then show ?thesis using 1 False by auto
  qed
qed

lemma digits_value: "2 \<le> b \<Longrightarrow> foldl (\<lambda>a d. a * b + d) 0 (digits b n) = n"
proof (induction b n rule: digits.induct)
  case (1 b n)
  show ?case
  proof (cases "n < b")
    case True
    then show ?thesis by (simp add: digits.simps [of b n])
  next
    case False
    then have "digits b n = digits b (n div b) @ [n mod b]" using 1(2) by (simp add: digits.simps [of b n])
    then show ?thesis using 1 False by simp
  qed
qed

lemma digits_ne: "digits b n \<noteq> []"
  by (simp add: digits.simps [of b n])

lemma digit_value_char: "d < b \<Longrightarrow> b \<le> 16 \<Longrightarrow> digit_value b (digit_char d) = Some d"
  by (auto simp: digit_value_def digit_char_def Let_def)

lemma scan_digits_map:
  "\<forall>d \<in> set ds. d < b \<Longrightarrow> b \<le> 16 \<Longrightarrow>
   scan_digits b acc (map digit_char ds @ rest) = scan_digits b (foldl (\<lambda>a d. a * b + d) acc ds) rest"
  by (induction ds arbitrary: acc) (auto simp: digit_value_char)

lemma foldl_zeros: "foldl (\<lambda>a d. a * b + d) 0 (replicate k 0 @ ds) = foldl (\<lambda>a d. a * b + d) (0 :: nat) ds"
  by (induction k) simp_all

text \<open>What may follow a number: no digit of its base, no \<^verbatim>\<open>x\<close>.\<close>

definition ends_number :: "nat \<Rightarrow> string \<Rightarrow> bool" where
  "ends_number b rest \<longleftrightarrow> (case rest of [] \<Rightarrow> True | c # cs \<Rightarrow> digit_value b c = None \<and> c \<noteq> CHR ''x'' \<and> c \<noteq> CHR ''X'')"

lemma scan_digits_ends: "ends_number b rest \<Longrightarrow> scan_digits b acc rest = (acc, rest)"
  by (cases rest) (auto simp: ends_number_def)

lemma digit_char_other:
  assumes "d < 16"
  shows "digit_char d \<noteq> CHR ''-''" "digit_char d \<noteq> CHR ''+''" "digit_char d \<noteq> CHR ''x''" "digit_char d \<noteq> CHR ''X''"
    "\<not> isspace (digit_char d)" "digit_char d \<noteq> newline"
proof -
  have "digit_char d \<in> set (map digit_char [0..<16])" using assms by simp
  also have "set (map digit_char [0..<16]) = set ''0123456789abcdef''" by code_simp
  finally show "digit_char d \<noteq> CHR ''-''" "digit_char d \<noteq> CHR ''+''" "digit_char d \<noteq> CHR ''x''" "digit_char d \<noteq> CHR ''X''"
    "\<not> isspace (digit_char d)" "digit_char d \<noteq> newline"
    by (auto simp: isspace_def)
qed

lemma print_num_shape:
  assumes "2 \<le> b" "b \<le> 16"
  obtains d ds where "print_num b w n = map digit_char (d # ds)" "\<forall>x \<in> set (d # ds). x < b" "foldl (\<lambda>a d. a * b + d) 0 (d # ds) = n"
proof -
  let ?ds = "replicate (w - length (digits b n)) 0 @ digits b n"
  have "\<forall>x \<in> set ?ds. x < b" using assms digits_less [of b] by auto
  moreover have "foldl (\<lambda>a d. a * b + d) 0 ?ds = n" using foldl_zeros digits_value [OF assms(1)] by simp
  moreover have "?ds \<noteq> []" by (simp add: digits_ne)
  ultimately show thesis using that by (metis list.exhaust print_num_def)
qed

lemma scan_magnitude_print:
  assumes "2 \<le> b" "b \<le> 16" "ends_number b rest"
  shows "scan_magnitude b (print_num b w n @ rest) = Some (n, rest)"
proof -
  obtain d ds where ds: "print_num b w n = map digit_char (d # ds)" "\<forall>x \<in> set (d # ds). x < b" "foldl (\<lambda>a d. a * b + d) 0 (d # ds) = n"
    using print_num_shape [OF assms(1,2)] by metis
  then have "scan_digits b 0 (print_num b w n @ rest) = (n, rest)"
    using scan_digits_map [OF ds(2) assms(2), of 0 rest] scan_digits_ends [OF assms(3)] by simp
  moreover have "digit_value b (digit_char d) = Some d" using ds(2) assms(2) by (simp add: digit_value_char)
  ultimately show ?thesis using ds(1) by (simp add: scan_magnitude_def del: scan_digits.simps)
qed

lemma print_num_start:
  assumes "2 \<le> b" "b \<le> 16" "ends_number b rest"
  shows "skip_space (print_num b w n @ rest) = print_num b w n @ rest" "scan_sign (print_num b w n @ rest) = (False, print_num b w n @ rest)"
    "scan_prefix (print_num b w n @ rest) = print_num b w n @ rest"
proof -
  obtain d ds where ds: "print_num b w n = map digit_char (d # ds)" "\<forall>x \<in> set (d # ds). x < b" 
    using print_num_shape [OF assms(1,2)] by metis
  then have lt: "\<forall>x \<in> set (d # ds). x < 16" using assms(2) by auto
  show "skip_space (print_num b w n @ rest) = print_num b w n @ rest" "scan_sign (print_num b w n @ rest) = (False, print_num b w n @ rest)"
    using lt by (simp_all add: ds(1) skip_space_def scan_sign_def digit_char_other)
  have "scan_prefix (digit_char d # map digit_char ds @ rest) = digit_char d # map digit_char ds @ rest"
    using lt assms(3) by (cases ds; cases rest) (auto simp: scan_prefix_def digit_char_other ends_number_def)
  then show "scan_prefix (print_num b w n @ rest) = print_num b w n @ rest" by (simp add: ds(1))
qed

lemma scan_hex_print:
  assumes "ends_number 16 rest" "n < 2 ^ 64"
  shows "scan_hex (print_num 16 w n @ rest) = Some (word_of_nat n, rest)"
  using print_num_start [of 16 rest w n] scan_magnitude_print [of 16 rest w n] assms by (simp add: scan_hex_def)

lemma scan_long_print:
  assumes "ends_number 10 rest" "n < 2 ^ 63"
  shows "scan_long (print_num 10 w n @ rest) = Some (word_of_nat n, rest)"
  using print_num_start [of 10 rest w n] scan_magnitude_print [of 10 rest w n] assms by (simp add: scan_long_def)

lemma ends_number_simps [simp]:
  "ends_number 16 (CHR ''-'' # s)" "ends_number 16 (CHR '' '' # s)" "ends_number 16 (CHR '':'' # s)" "ends_number 10 (CHR '' '' # s)"
  by (simp_all add: ends_number_def digit_value_def)

lemma skip_space_blank [simp]: "skip_space (CHR '' '' # s) = skip_space s" "skip_space (replicate k (CHR '' '') @ s) = skip_space s"
  by (simp_all add: skip_space_def isspace_def) (induction k, simp_all add: isspace_def)

lemma skip_space_num [simp]: "2 \<le> b \<Longrightarrow> b \<le> 16 \<Longrightarrow> ends_number b s \<Longrightarrow> skip_space (print_num b w n @ s) = print_num b w n @ s"
  by (rule print_num_start)

subsection \<open>Lines\<close>

definition path_of :: "vma \<Rightarrow> string" where
  "path_of v = (if v_name v = [] then [] else v_name v @ [newline])"

lemma scan_line_print:
  assumes ok: "vma_ok v"
  shows "scan_line (print_vma v) = Some \<lparr>ml_start = v_start v, ml_end = v_end v, ml_permissions = v_perms v, ml_offset = v_offset v,
    ml_major = v_major v, ml_minor = v_minor v, ml_inode = word_of_nat (v_inode v), ml_path_index = length (print_vma v) - length (path_of v)\<rparr>"
proof -
  have bound: "unat (w :: u64) < 2 ^ 64" "unat (b :: u8) < 2 ^ 64" for w b
    using unsigned_less [of w] unsigned_less [of b, where 'a = nat] by (simp_all add: less_trans)
  have perms: "skip_space (v_perms v @ s) = v_perms v @ s" "scan_4c (v_perms v @ s) = Some (v_perms v, s)" for s
    using ok by (cases "v_perms v"; auto simp: vma_ok_def skip_space_def scan_4c_def)+
  have tail: "skip_space (v_name v @ [newline]) = path_of v"
    using ok by (cases "v_name v") (auto simp: path_of_def vma_ok_def skip_space_def isspace_def)
  have uc: "ucast (ucast b :: u64) = b" for b :: u8 by (intro bit_word_eqI) (auto simp: bit_simps)
  have "v_inode v < 2 ^ 63" using ok by (simp add: vma_ok_def)
  then show ?thesis
    unfolding scan_line_def print_vma_def using bound
    by (simp add: scan_hex_print scan_long_print scan_char_def perms tail uc del: power_numeral)
qed

lemma path_of_line: "drop (length (print_vma v) - length (path_of v)) (print_vma v) = path_of v"
proof -
  have "\<exists>p. print_vma v = p @ path_of v"
    by (cases "v_name v = []") (auto simp: print_vma_def path_of_def)
  then show ?thesis by auto
qed

lemma fgets_line: "newline \<notin> set l \<Longrightarrow> length l < n \<Longrightarrow> fgets n (l @ newline # rest) = (l @ [newline], rest, False)"
proof (induction l arbitrary: n)
  case Nil
  then show ?case by (cases n) auto
next
  case (Cons c l)
  then show ?case by (cases n) auto
qed

lemma print_num_no_newline: "2 \<le> b \<Longrightarrow> b \<le> 16 \<Longrightarrow> newline \<notin> set (print_num b w n)"
proof -
  assume b: "2 \<le> b" "b \<le> 16"
  obtain d ds where ds: "print_num b w n = map digit_char (d # ds)" "\<forall>x \<in> set (d # ds). x < b"
    using print_num_shape [OF b] by metis
  then have "\<forall>x \<in> set (d # ds). digit_char x \<noteq> newline" using b(2) digit_char_other(6) by (meson less_le_trans)
  then show ?thesis unfolding ds(1) by force
qed

lemma read_line_print:
  assumes "vma_ok v" "length (print_vma v) < LINE_MAX"
  shows "read_line buf (print_vma v @ rest) = (print_vma v, Some (rest, False))"
proof -
  have split: "print_vma v = butlast (print_vma v) @ [newline]" "newline \<notin> set (butlast (print_vma v))"
    using assms(1) print_num_no_newline by (auto simp: print_vma_def vma_ok_def butlast_append)
  then have "fgets (LINE_MAX - 1) (butlast (print_vma v) @ newline # rest) = (butlast (print_vma v) @ [newline], rest, False)"
    using assms(2) by (intro fgets_line) auto
  then have "fgets (LINE_MAX - 1) (print_vma v @ rest) = (print_vma v, rest, False)"
    using split(1) by (metis append.assoc append_Cons append_Nil)
  moreover have "print_vma v \<noteq> []" using split(1) by auto
  ultimately show ?thesis using assms(2) by (simp add: read_line_def)
qed

definition readable :: "vma \<Rightarrow> bool" where
  "readable v \<longleftrightarrow> vma_ok v \<and> length (print_vma v) < LINE_MAX"

lemma layout_loop_lines:
  "\<forall>v \<in> set vs. readable v \<Longrightarrow>
   layout_loop uninit buf (concat (map print_vma vs)) False acc =
   layout_loop uninit (if vs = [] then buf else print_vma (last vs)) [] False (acc @ map region_of vs)"
proof (induction vs arbitrary: buf acc)
  case (Cons v vs)
  then have v: "vma_ok v" "length (print_vma v) < LINE_MAX" by (auto simp: readable_def)
  have "layout_loop uninit buf (concat (map print_vma (v # vs))) False acc =
    layout_loop uninit (print_vma v) (concat (map print_vma vs)) False (acc @ [region_of v])"
    by (subst layout_loop.simps) (simp add: read_line_print [OF v] scan_line_print [OF v(1)] region_of_def)
  then show ?case using Cons by simp
qed simp

text \<open>The round after the last line, in which \<^verbatim>\<open>fgets\<close> reads nothing.\<close>

lemma layout_loop_stale:
  assumes "uninit (print_vma v) = print_vma v" "readable v"
  shows "layout_loop uninit (print_vma v) [] False acc = Inr (acc @ [region_of v])"
proof -
  have v: "vma_ok v" "length (print_vma v) \<noteq> LINE_MAX" using assms(2) by (auto simp: readable_def)
  have "fgets (LINE_MAX - 1) [] = ([], [], True)" using fgets.simps(2) [of 2046] by simp
  then have "read_line (print_vma v) [] = (print_vma v, Some ([], True))" using v(2) by (simp add: read_line_def)
  then show ?thesis
    using assms(1) by (subst layout_loop.simps) (simp add: scan_line_print [OF v(1)] region_of_def layout_loop.simps [of _ _ _ True])
qed

section \<open>Order and permissions\<close>

text \<open>The regions are ordered by the comparator, whatever the file holds.\<close>

lemma GetProcessMemoryLayout_sorted:
  assumes "GetProcessMemoryLayout uninit maps = Inr rs"
  shows "sorted_wrt (\<lambda>a b. \<not> memory_region_comparator b a) rs"
proof -
  have "sorted (map mr_address rs)"
    using assms by (auto simp: GetProcessMemoryLayout_def bindr_Inr_iff split: option.splits)
  then show ?thesis by (auto simp: memory_region_comparator_def not_less sorted_map)
qed

text \<open>Two of the five permissions are never reported: read-only memory counts as inaccessible and writable code as data.\<close>

lemma permission_of_range: "permission_of p \<in> {kReadWrite, kReadExecute, kNoAccess}"
  by (simp add: permission_of_def)

lemma permission_of_kernel:
  "permission_of ''r--p'' = kNoAccess" "permission_of ''rwxp'' = kReadWrite" "permission_of ''r-xp'' = kReadExecute" "permission_of ''rw-p'' = kReadWrite"
  by code_simp+

section \<open>Properties\<close>

text \<open>
  C35. Reading back a memory map: for every text in the format of the kernel with lines of less than 2048
  characters, in the order of the addresses, the layout has start, length and permission of every
  entry, in order, whatever the names, padding, offsets, devices and inodes are; and when the line
  buffer keeps its contents from one round to the next, the last region is there twice, because the
  loop asks for the end of the file before the read that meets it.
\<close>

theorem maps_roundtrip:
  assumes "vs \<noteq> []" "\<forall>v \<in> set vs. readable v" "sorted (map v_start vs)" "uninit (print_vma (last vs)) = print_vma (last vs)"
  shows "GetProcessMemoryLayout uninit (Some (concat (map print_vma vs))) = Inr (map region_of vs @ [region_of (last vs)])"
proof -
  have "readable (last vs)" using assms(1,2) by simp
  then have "layout_loop uninit [] (concat (map print_vma vs)) False [] = Inr (map region_of vs @ [region_of (last vs)])"
    using layout_loop_lines [OF assms(2)] layout_loop_stale [of uninit "last vs", OF assms(4)] assms(1) by simp
  moreover have "sorted (map mr_address (map region_of vs @ [region_of (last vs)]))"
  proof -
    have "\<forall>v \<in> set vs. v_start v \<le> v_start (last vs)"
      using assms(1,3) by (induction vs) (auto split: if_splits)
    then show ?thesis using assms(3) by (simp add: region_of_def comp_def sorted_append)
  qed
  ultimately show ?thesis by (simp add: GetProcessMemoryLayout_def sort_key_id_if_sorted)
qed

definition wit_vma :: vma where
  "wit_vma = \<lparr>v_start = 0x08048000, v_end = 0x08056000, v_perms = ''r-xp'', v_offset = 0, v_major = 3, v_minor = 12, v_inode = 64593,
     v_pad = 10, v_name = ''/usr/sbin/gpm''\<rparr>"

lemma replicate_numeral: "replicate (numeral k) x = x # replicate (pred_numeral k) x"
  by (simp add: numeral_eq_Suc)

lemma digit_char_table:
  "digit_char 0 = CHR ''0''" "digit_char (Suc 0) = CHR ''1''" "digit_char 2 = CHR ''2''" "digit_char 3 = CHR ''3''" "digit_char 4 = CHR ''4''" "digit_char 5 = CHR ''5''" "digit_char 6 = CHR ''6''" "digit_char 7 = CHR ''7''" "digit_char 8 = CHR ''8''" "digit_char 9 = CHR ''9''" "digit_char 10 = CHR ''a''" "digit_char 11 = CHR ''b''" "digit_char 12 = CHR ''c''" "digit_char 13 = CHR ''d''" "digit_char 14 = CHR ''e''" "digit_char 15 = CHR ''f''"
  by code_simp+

lemma wit_vma_line: "print_vma wit_vma = ''08048000-08056000 r-xp 00000000 03:0c 64593           /usr/sbin/gpm'' @ [newline]"
proof -
  have "print_num 16 8 0x08048000 = ''08048000''" "print_num 16 8 0x08056000 = ''08056000''" "print_num 16 8 0 = ''00000000''"
    "print_num 16 2 3 = ''03''" "print_num 16 2 12 = ''0c''" "print_num 10 (Suc 0) 64593 = ''64593''"
    by (simp_all add: print_num_def digits.simps digit_char_table replicate_numeral)
  then show ?thesis by (simp add: print_vma_def wit_vma_def replicate_numeral)
qed

theorem maps_roundtrip_witness:
  "GetProcessMemoryLayout id (Some (''08048000-08056000 r-xp 00000000 03:0c 64593           /usr/sbin/gpm'' @ [newline])) =
    Inr (replicate 2 \<lparr>mr_address = 0x08048000, mr_length = 0xe000, mr_permission = kReadExecute\<rparr>)"
proof -
  have "readable wit_vma" unfolding readable_def wit_vma_line by (simp add: vma_ok_def wit_vma_def isspace_def)
  then show ?thesis
    using maps_roundtrip [of "[wit_vma]" id] wit_vma_line permission_of_kernel(3) by (simp add: region_of_def wit_vma_def numeral_2_eq_2)
qed

end
