(* ===== verification/Near_Arena.thy ===== *)
theory Near_Arena
  imports Code_Patch Process_Layout
begin

text \<open>
  The allocator for memory near a given position, \<^verbatim>\<open>NearMemoryArena.cc\<close>: it looks for a page of its own
  that is near enough, else for a place for a new page in the memory map of the process, else for
  zero bytes in code that is already mapped. The kernel and the contents of an uninitialised buffer are
  the record \<open>sys\<close>, a parameter. \<^verbatim>\<open>NearMemoryArena\<close> has a page list of its own.
\<close>

record 'k sys =
  sys_api :: "'k vmem os_api"
  sys_mprotect :: "'k mprotect"
  sys_maps :: "'k vmem \<Rightarrow> string option"
  sys_uninit :: "string \<Rightarrow> string"

section \<open>Address arithmetic\<close>

definition addr_max :: "u64 \<Rightarrow> u64 \<Rightarrow> u64" where
  "addr_max a b = (if a > b then a else b)"

definition addr_sub :: "u64 \<Rightarrow> u64 \<Rightarrow> u64" where
  "addr_sub a b = (if a > a - b then a - b else 0)"

definition addr_add :: "u64 \<Rightarrow> u64 \<Rightarrow> u64" where
  "addr_add a b = (if a < a + b then a + b else - 1)"

definition prev_page :: "u64 \<Rightarrow> int \<Rightarrow> u64" where
  "prev_page cur pagesize =
    (let aligned_addr = ALIGN_FLOOR cur (word_of_int pagesize); ret = aligned_addr - word_of_int pagesize in
     if ret \<le> aligned_addr then ret else aligned_addr)"

definition next_page :: "u64 \<Rightarrow> int \<Rightarrow> u64" where
  "next_page cur pagesize =
    (let aligned_addr = ALIGN_FLOOR cur (word_of_int pagesize); ret = aligned_addr + word_of_int pagesize in
     if ret \<ge> aligned_addr then ret else aligned_addr)"

section \<open>A place for a page\<close>

definition min_page :: "'k sys \<Rightarrow> u64 \<Rightarrow> u64 \<Rightarrow> u64" where
  "min_page sys pos alloc_range = next_page (addr_sub pos alloc_range) (AllocPageSize (sys_api sys))"

definition max_page :: "'k sys \<Rightarrow> u64 \<Rightarrow> u64 \<Rightarrow> u64" where
  "max_page sys pos alloc_range = prev_page (addr_add pos alloc_range) (AllocPageSize (sys_api sys))"

definition region_end :: "MemoryRegion \<Rightarrow> u64" where
  "region_end r = mr_address r + mr_length r"

definition alloc_page_at :: "'k sys \<Rightarrow> u64 \<Rightarrow> 'k vmem \<Rightarrow> u64 \<times> 'k vmem" where
  "alloc_page_at sys a m = OSMemory_Allocate (sys_api sys) a (AllocPageSize (sys_api sys)) kReadExecute m"

text \<open>
  The two places tried for a region with index \<open>i\<close>: the gap before it, for as long as no other place was
  assumed, and the gap behind it. The results are the place assumed, the page, zero when there is none,
  and the memory. The comparison of \<open>i\<close> with the number of regions minus 2 is one of unsigned
  64-bit numbers.
\<close>

definition left_blank :: "'k sys \<Rightarrow> u64 \<Rightarrow> MemoryRegion list \<Rightarrow> nat \<Rightarrow> u64 \<Rightarrow> 'k vmem \<Rightarrow> u64 \<times> u64 \<times> 'k vmem" where
  "left_blank sys lo layout i assumed m =
    (if i \<ge> 1 \<and> assumed = lo then
       (let prev_region_end = next_page (region_end (layout ! (i - 1))) (AllocPageSize (sys_api sys)) in
        if mr_address (layout ! i) > prev_region_end
        then (let assumed = addr_max lo prev_region_end in (assumed, alloc_page_at sys assumed m))
        else (assumed, 0, m))
     else (assumed, 0, m))"

definition right_blank :: "'k sys \<Rightarrow> MemoryRegion list \<Rightarrow> nat \<Rightarrow> u64 \<Rightarrow> 'k vmem \<Rightarrow> (u64 \<times> u64 \<times> 'k vmem) res" where
  "right_blank sys layout i assumed m =
    (if (word_of_nat i :: u64) \<le> word_of_nat (length layout) - 2 then
       (if \<not> i + 1 < length layout then Inl OutOfBounds
        else if region_end (layout ! i) < mr_address (layout ! (i + 1))
        then (let assumed = next_page (region_end (layout ! i)) (AllocPageSize (sys_api sys)) in Inr (assumed, alloc_page_at sys assumed m))
        else Inr (assumed, 0, m))
     else Inr (assumed, 0, m))"

fun blank_loop :: "'k sys \<Rightarrow> u64 \<Rightarrow> u64 \<Rightarrow> MemoryRegion list \<Rightarrow> nat list \<Rightarrow> u64 \<Rightarrow> 'k vmem \<Rightarrow> (u64 \<times> 'k vmem) res" where
  "blank_loop sys lo hi layout [] assumed m = Inr (0, m)"
| "blank_loop sys lo hi layout (i # is) assumed m =
    (if region_end (layout ! i) < hi \<and> mr_address (layout ! i) \<ge> lo then
       (let (assumed, result, m) = left_blank sys lo layout i assumed m in
        if result \<noteq> 0 then Inr (result, m)
        else bindr (right_blank sys layout i assumed m) (\<lambda>(assumed, result, m).
          if result \<noteq> 0 then Inr (result, m) else blank_loop sys lo hi layout is assumed m))
     else blank_loop sys lo hi layout is assumed m)"

definition search_near_blank_page :: "'k sys \<Rightarrow> u64 \<Rightarrow> u64 \<Rightarrow> 'k vmem \<Rightarrow> (u64 \<times> 'k vmem) res" where
  "search_near_blank_page sys pos alloc_range m =
    (let lo = min_page sys pos alloc_range; hi = max_page sys pos alloc_range in
     bindr (GetProcessMemoryLayout (sys_uninit sys) (sys_maps sys m)) (\<lambda>layout.
     if layout = [] then Inl CheckFailed
     else
       (let (result, m) = (if lo < mr_address (layout ! 0) then alloc_page_at sys lo m else (0, m)) in
        if result \<noteq> 0 then Inr (result, m)
        else
          (let (result, m) = (if hi < region_end (last layout) then alloc_page_at sys lo m else (0, m)) in
           if result \<noteq> 0 then Inr (result, m)
           else blank_loop sys lo hi layout [0..<length layout] lo m))))"

section \<open>A place in mapped code\<close>

fun find_blank :: "(u64 \<Rightarrow> u8) \<Rightarrow> nat \<Rightarrow> u64 \<Rightarrow> nat \<Rightarrow> u64" where
  "find_blank mem n a 0 = (if n = 0 then a else 0)"
| "find_blank mem n a (Suc len) =
    (if Suc len < n then 0 else if ld n mem a = replicate n 0 then a else find_blank mem n (a + 1) len)"

text \<open>
  \<open>arm\<close> selects the code for ARM, where the number of bytes compared is increased by 3 behind the
  allocation of the blank bytes to compare with, so that \<^verbatim>\<open>memmem\<close> reads behind them.
\<close>

fun blank_chunk_loop :: "bool \<Rightarrow> u64 \<Rightarrow> u64 \<Rightarrow> nat \<Rightarrow> (u64 \<Rightarrow> u8) \<Rightarrow> MemoryRegion list \<Rightarrow> u64 res" where
  "blank_chunk_loop arm lo hi n mem [] = Inr 0"
| "blank_chunk_loop arm lo hi n mem (r # rs) =
    (if (mr_permission r = kReadExecute \<or> mr_permission r = kRead) \<and> region_end r \<le> hi \<and> mr_address r \<ge> lo then
       (if arm then Inl OutOfBounds
        else (let a = find_blank mem n (mr_address r) (unat (mr_length r)) in
              if a \<noteq> 0 then Inr a else blank_chunk_loop arm lo hi n mem rs))
     else blank_chunk_loop arm lo hi n mem rs)"

definition search_near_blank_memory_chunk :: "bool \<Rightarrow> 'k sys \<Rightarrow> u64 \<Rightarrow> u64 \<Rightarrow> int \<Rightarrow> 'k vmem \<Rightarrow> u64 res" where
  "search_near_blank_memory_chunk arm sys pos alloc_range alloc_size m =
    bindr (GetProcessMemoryLayout (sys_uninit sys) (sys_maps sys m)) (\<lambda>layout.
    blank_chunk_loop arm (min_page sys pos alloc_range) (max_page sys pos alloc_range) (nat alloc_size) (vm_bytes m) layout)"

section \<open>The arena\<close>

definition near_PushPage :: "'k sys \<Rightarrow> u64 \<Rightarrow> MemoryPermission \<Rightarrow> PageChunk list \<Rightarrow> PageChunk list" where
  "near_PushPage sys page_addr perm pages = pages @ [new_page page_addr (PageSize (sys_api sys)) perm]"

definition page_near :: "u64 \<Rightarrow> u64 \<Rightarrow> int \<Rightarrow> MemoryPermission \<Rightarrow> PageChunk \<Rightarrow> bool" where
  "page_near position alloc_range alloc_size perm p \<longleftrightarrow> pg_permission p = perm \<and>
    llabs (pg_cursor p - position) < alloc_range \<and>
    pg_cursor p + word_of_int alloc_size < ck_address (pg_page p) + ck_length (pg_page p)"

text \<open>From the label \<^verbatim>\<open>search_once_more\<close> on; \<^const>\<open>None\<close> is a run that does not end.\<close>

partial_function (option) search_once_more ::
  "bool \<Rightarrow> 'k sys \<Rightarrow> u64 \<Rightarrow> u64 \<Rightarrow> int \<Rightarrow> MemoryPermission \<Rightarrow> PageChunk list \<Rightarrow> 'k vmem \<Rightarrow>
     (MemoryChunk option \<times> PageChunk list \<times> 'k vmem) res option" where
  "search_once_more arm sys position alloc_range alloc_size perm pages m =
    (case find_page (page_near position alloc_range alloc_size perm) pages of
       Some i \<Rightarrow> (let (chunk, pages) = carve_at alloc_size i pages in Some (Inr (Some chunk, pages, m)))
     | None \<Rightarrow>
         (case search_near_blank_page sys position alloc_range m of
            Inl e \<Rightarrow> Some (Inl e)
          | Inr (blank_page_addr, m) \<Rightarrow>
              if blank_page_addr \<noteq> 0 then
                (case SetPermission (sys_mprotect sys) blank_page_addr (PageSize (sys_api sys)) perm m of
                   Inl e \<Rightarrow> Some (Inl e)
                 | Inr (_, m) \<Rightarrow>
                     search_once_more arm sys position alloc_range alloc_size perm (near_PushPage sys blank_page_addr perm pages) m)
              else if perm = kReadWrite then Some (Inr (None, pages, m))
              else
                (case search_near_blank_memory_chunk arm sys position alloc_range alloc_size m of
                   Inl e \<Rightarrow> Some (Inl e)
                 | Inr blank_chunk_addr \<Rightarrow>
                     Some (Inr (if blank_chunk_addr \<noteq> 0 then Some \<lparr>ck_address = blank_chunk_addr, ck_length = word_of_int alloc_size\<rparr> else None,
                       pages, m)))))"

definition near_AllocateChunk ::
  "bool \<Rightarrow> 'k sys \<Rightarrow> u64 \<Rightarrow> u64 \<Rightarrow> int \<Rightarrow> MemoryPermission \<Rightarrow> 'k vmem arena \<Rightarrow> (MemoryChunk option \<times> 'k vmem arena) res option" where
  "near_AllocateChunk arm sys position alloc_range alloc_size perm s =
    map_option (\<lambda>r. bindr r (\<lambda>(c, pages, m). Inr (c, (Some pages, m))))
      (search_once_more arm sys position alloc_range alloc_size perm (case fst s of None \<Rightarrow> [] | Some ps \<Rightarrow> ps) (snd s))"

definition near_AllocateDataChunk ::
  "bool \<Rightarrow> 'k sys \<Rightarrow> u64 \<Rightarrow> u64 \<Rightarrow> int \<Rightarrow> 'k vmem arena \<Rightarrow> (MemoryChunk option \<times> 'k vmem arena) res option" where
  "near_AllocateDataChunk arm sys position alloc_range alloc_size = near_AllocateChunk arm sys position alloc_range alloc_size kReadWrite"

definition near_AllocateCodeChunk ::
  "bool \<Rightarrow> 'k sys \<Rightarrow> u64 \<Rightarrow> u64 \<Rightarrow> int \<Rightarrow> 'k vmem arena \<Rightarrow> (MemoryChunk option \<times> 'k vmem arena) res option" where
  "near_AllocateCodeChunk arm sys position alloc_range alloc_size = near_AllocateChunk arm sys position alloc_range alloc_size kReadExecute"

section \<open>What the code relies on\<close>

text \<open>
  Pages of \<open>2 ^ k\<close> bytes; a call of \<^verbatim>\<open>mmap\<close> with \<^verbatim>\<open>MAP_FIXED\<close> that succeeds returns the address it was
  given; no region of the memory map wraps around.
\<close>

definition near_sys_ok :: "nat \<Rightarrow> 'k sys \<Rightarrow> bool" where
  "near_sys_ok k sys \<longleftrightarrow> os_page_size (sys_api sys) = 2 ^ k \<and> k \<le> 30 \<and>
    (\<forall>a sz prot flags m r m'. os_mmap (sys_api sys) a sz prot flags m = (r, m') \<and> flags AND MAP_FIXED \<noteq> 0 \<and> r \<noteq> MAP_FAILED \<longrightarrow> r = a) \<and>
    (\<forall>m rs. GetProcessMemoryLayout (sys_uninit sys) (sys_maps sys m) = Inr rs \<longrightarrow>
       (\<forall>r \<in> set rs. unat (mr_address r) + unat (mr_length r) < 2 ^ 64))"

text \<open>A position in the lower half of the address space, with the range around it, of at least a page.\<close>

definition near_range :: "nat \<Rightarrow> u64 \<Rightarrow> u64 \<Rightarrow> bool" where
  "near_range k pos alloc_range \<longleftrightarrow> 2 ^ k \<le> unat alloc_range \<and> unat alloc_range \<le> unat pos \<and> unat pos + unat alloc_range < 2 ^ 63"

lemma pow2_word:
  assumes "k \<le> 30"
  shows "unat (2 ^ k :: u64) = 2 ^ k" "(2 :: nat) ^ k \<le> 2 ^ 30"
proof -
  show le: "(2 :: nat) ^ k \<le> 2 ^ 30" using assms by (intro power_increasing) auto
  have "(2 ^ k :: u64) = word_of_nat (2 ^ k)" by simp
  then show "unat (2 ^ k :: u64) = 2 ^ k" using le by (simp only: unat_of_nat) (simp add: take_bit_nat_eq_self)
qed

lemma next_page_unat:
  assumes "unat a + 2 ^ k < 2 ^ 64" "k \<le> 30"
  shows "unat (next_page a (2 ^ k)) = unat a - unat a mod 2 ^ k + 2 ^ k"
proof -
  have u: "unat (page_of k a) = unat a - unat a mod 2 ^ k" by (rule unat_ALIGN_FLOOR_pow2)
  then have "unat (page_of k a + 2 ^ k) = unat a - unat a mod 2 ^ k + 2 ^ k"
    using assms pow2_word [OF assms(2)] by (subst unat_plus_if_size) (simp add: word_size)
  then show ?thesis using u by (simp add: next_page_def Let_def word_le_nat_alt)
qed

lemma prev_page_unat:
  assumes "2 ^ k \<le> unat a" "k \<le> 30"
  shows "unat (prev_page a (2 ^ k)) = unat a - unat a mod 2 ^ k - 2 ^ k"
proof -
  have u: "unat (page_of k a) = unat a - unat a mod 2 ^ k" by (rule unat_ALIGN_FLOOR_pow2)
  have "unat a - unat a mod 2 ^ k = 2 ^ k * (unat a div 2 ^ k)" by (simp add: minus_mod_eq_mult_div)
  moreover have "1 \<le> unat a div 2 ^ k" using assms(1) by (simp add: Suc_le_eq div_greater_zero_iff)
  ultimately have "(2 ^ k :: u64) \<le> page_of k a" unfolding word_le_nat_alt u pow2_word(1) [OF assms(2)] by simp
  then have "unat (page_of k a - 2 ^ k) = unat a - unat a mod 2 ^ k - 2 ^ k"
    using u pow2_word [OF assms(2)] by (simp add: unat_sub)
  moreover from this have "page_of k a - 2 ^ k \<le> page_of k a" unfolding word_le_nat_alt u by linarith
  ultimately show ?thesis by (simp add: prev_page_def Let_def)
qed

lemma next_page_aligned: "take_bit k (next_page a (2 ^ k)) = 0"
proof -
  have "page_of k a = push_bit k (drop_bit k a)"
    using arg_cong [OF bits_ident [of k a], of "\<lambda>x. x - take_bit k a"] by (simp add: ALIGN_FLOOR_pow2 add.commute)
  then have "page_of k a + 2 ^ k = push_bit k (drop_bit k a + 1)"
    by (simp add: push_bit_eq_mult algebra_simps)
  then have "take_bit k (page_of k a + 2 ^ k) = 0"
    by (simp add: take_bit_push_bit)
  then show ?thesis
    by (simp add: next_page_def Let_def page_of_aligned)
qed

lemma aligned_step:
  fixes x y :: nat
  assumes "x < y" "2 ^ k dvd y"
  shows "x - x mod 2 ^ k + 2 ^ k \<le> y"
proof -
  obtain q where q: "y = 2 ^ k * q" using assms(2) by (elim dvdE)
  have "x div 2 ^ k < q" using assms(1) q by (simp add: less_mult_imp_div_less mult.commute)
  then have "2 ^ k * (x div 2 ^ k) + 2 ^ k \<le> 2 ^ k * q" by (metis Suc_leI mult_Suc_right mult_le_mono2 add.commute)
  then show ?thesis by (simp add: q minus_mod_eq_mult_div)
qed

lemma range_bounds:
  assumes ok: "near_sys_ok k sys" and r: "near_range k pos alloc_range"
  shows "unat pos - unat alloc_range < unat (min_page sys pos alloc_range)" "unat (min_page sys pos alloc_range) \<le> unat pos"
    "unat (max_page sys pos alloc_range) < unat pos + unat alloc_range" "2 ^ k dvd unat (max_page sys pos alloc_range)"
proof -
  have k: "k \<le> 30" "AllocPageSize (sys_api sys) = 2 ^ k" using ok by (auto simp: near_sys_ok_def AllocPageSize_def PageSize_def)
  have r': "2 ^ k \<le> unat alloc_range" "unat alloc_range \<le> unat pos" "unat pos + unat alloc_range < 2 ^ 63" "0 < unat alloc_range"
    using r by (auto simp: near_range_def intro: less_le_trans [of 0 "2 ^ k"])
  have sub: "unat (pos - alloc_range) = unat pos - unat alloc_range" using r'(2) by (simp add: unat_sub word_le_nat_alt)
  then have lo: "min_page sys pos alloc_range = next_page (pos - alloc_range) (2 ^ k)"
    using r' by (simp add: min_page_def addr_sub_def word_less_nat_alt k)
  have "unat (pos - alloc_range) + 2 ^ k < 2 ^ 64" using sub r' pow2_word(2) [OF k(1)] by simp
  note lo = lo next_page_unat [OF this k(1)]
  have m: "unat (pos - alloc_range) mod 2 ^ k < 2 ^ k" "unat (pos - alloc_range) mod 2 ^ k \<le> unat (pos - alloc_range)" by simp_all
  show "unat pos - unat alloc_range < unat (min_page sys pos alloc_range)" unfolding lo using m sub by linarith
  show "unat (min_page sys pos alloc_range) \<le> unat pos" unfolding lo using m sub r' by linarith
  have add: "unat (pos + alloc_range) = unat pos + unat alloc_range" using r'(3) by (simp add: unat_plus_if_size word_size)
  then have hi: "max_page sys pos alloc_range = prev_page (pos + alloc_range) (2 ^ k)"
    using r' by (simp add: max_page_def addr_add_def word_less_nat_alt k)
  have big: "2 ^ k \<le> unat (pos + alloc_range)" using add r'(1) by simp
  note hi = hi prev_page_unat [OF big k(1)]
  have "2 ^ k > (0 :: nat)" by simp
  then show "unat (max_page sys pos alloc_range) < unat pos + unat alloc_range" unfolding hi using add r'(4) by linarith
  show "2 ^ k dvd unat (max_page sys pos alloc_range)"
    using hi by (simp add: minus_mod_eq_mult_div dvd_diff_nat)
qed

section \<open>Where a new page lies\<close>

lemma alloc_page_at_fixed:
  assumes ok: "near_sys_ok k sys" and "a \<noteq> 0" "alloc_page_at sys a m = (r, m')" "r \<noteq> 0"
  shows "r = a"
proof -
  have "b = a" if "os_mmap (sys_api sys) a sz prot 0x32 m = (b, n)" "b \<noteq> MAP_FAILED" for sz prot b n
  proof -
    have "(0x32 :: u32) AND MAP_FIXED \<noteq> 0" by simp
    with ok that show ?thesis unfolding near_sys_ok_def by blast
  qed
  then show ?thesis
    using assms(2-4) by (auto simp: alloc_page_at_def OSMemory_Allocate_def Let_def split: prod.splits if_splits)
qed

lemma left_blank_range:
  assumes "near_sys_ok k sys" "lo \<noteq> 0" "left_blank sys lo layout i assumed m = (b, a, m')" "a \<noteq> 0"
    and "unat (mr_address (layout ! i)) \<le> h" "unat lo \<le> h" "take_bit k lo = 0"
  shows "unat lo \<le> unat a \<and> unat a \<le> h \<and> take_bit k a = 0"
proof -
  let ?pe = "next_page (region_end (layout ! (i - 1))) (AllocPageSize (sys_api sys))"
  have *: "alloc_page_at sys (addr_max lo ?pe) m = (a, m')" "mr_address (layout ! i) > ?pe"
    using assms(3,4) by (auto simp: left_blank_def Let_def split: if_splits)
  have le: "unat lo \<le> unat (addr_max lo ?pe)" "unat (addr_max lo ?pe) \<le> h"
    using *(2) assms(5,6) by (auto simp: addr_max_def word_less_nat_alt)
  then have "addr_max lo ?pe \<noteq> 0" using assms(2) by (metis le_zero_eq unat_eq_zero)
  moreover have "AllocPageSize (sys_api sys) = 2 ^ k" using assms(1) by (simp add: near_sys_ok_def AllocPageSize_def PageSize_def)
  then have "take_bit k (addr_max lo ?pe) = 0" using assms(7) by (simp add: addr_max_def next_page_aligned)
  ultimately show ?thesis using alloc_page_at_fixed [OF assms(1) _ *(1) assms(4)] le by simp
qed

lemma right_blank_range:
  assumes ok: "near_sys_ok k sys" and run: "right_blank sys layout i assumed m = Inr (b, a, m')" "a \<noteq> 0"
    and hi: "unat (region_end (layout ! i)) < h" "2 ^ k dvd h" "h < 2 ^ 63"
  shows "unat (region_end (layout ! i)) \<le> unat a \<and> unat a \<le> h \<and> take_bit k a = 0"
proof -
  let ?e = "region_end (layout ! i)"
  have k: "k \<le> 30" "AllocPageSize (sys_api sys) = 2 ^ k" using ok by (auto simp: near_sys_ok_def AllocPageSize_def PageSize_def)
  have *: "alloc_page_at sys (next_page ?e (2 ^ k)) m = (a, m')"
    using run by (auto simp: right_blank_def Let_def k split: if_splits)
  have "unat ?e + 2 ^ k < 2 ^ 64" using hi pow2_word(2) [OF k(1)] by simp
  note np = next_page_unat [OF this k(1)] aligned_step [OF hi(1,2)]
  have m: "unat ?e mod 2 ^ k < 2 ^ k" "unat ?e mod 2 ^ k \<le> unat ?e" by simp_all
  then have le: "unat ?e < unat (next_page ?e (2 ^ k))" unfolding np(1) by linarith
  then have "next_page ?e (2 ^ k) \<noteq> 0" by auto
  then show ?thesis using alloc_page_at_fixed [OF ok _ * run(2)] np le by (simp add: next_page_aligned)
qed

lemma blank_loop_range:
  assumes ok: "near_sys_ok k sys" and hi: "2 ^ k dvd unat hi" "unat hi < 2 ^ 63" and lo: "lo \<noteq> 0" "take_bit k lo = 0"
    and wf: "\<forall>r \<in> set layout. unat (mr_address r) + unat (mr_length r) < 2 ^ 64"
  shows "\<forall>i \<in> set is. i < length layout \<Longrightarrow> blank_loop sys lo hi layout is assumed m = Inr (a, m') \<Longrightarrow> a \<noteq> 0 \<Longrightarrow>
    unat lo \<le> unat a \<and> unat a \<le> unat hi \<and> take_bit k a = 0"
proof (induction "is" arbitrary: assumed m)
  case (Cons i "is")
  let ?r = "layout ! i"
  show ?case
  proof (cases "region_end ?r < hi \<and> mr_address ?r \<ge> lo")
    case False
    then show ?thesis using Cons by auto
  next
    case True
    have "?r \<in> set layout" using Cons.prems(1) by simp
    then have "unat (region_end ?r) = unat (mr_address ?r) + unat (mr_length ?r)"
      using wf by (simp add: region_end_def unat_plus_if_size word_size)
    then have le: "unat lo \<le> unat (mr_address ?r)" "unat (mr_address ?r) \<le> unat (region_end ?r)" "unat (region_end ?r) < unat hi"
      using True by (auto simp: word_less_nat_alt word_le_nat_alt)
    then have le': "unat (mr_address ?r) \<le> unat hi" "unat lo \<le> unat hi" by linarith+
    obtain b1 a1 m1 where l: "left_blank sys lo layout i assumed m = (b1, a1, m1)" by (metis prod.exhaust)
    show ?thesis
    proof (cases "a1 = 0")
      case False
      then show ?thesis
        using left_blank_range [OF ok lo(1) l False le' lo(2)] Cons.prems(2) True l by simp
    next
      case zero: True
      then obtain b2 a2 m2 where r: "right_blank sys layout i b1 m1 = Inr (b2, a2, m2)"
        "(if a2 \<noteq> 0 then Inr (a2, m2) else blank_loop sys lo hi layout is b2 m2) = Inr (a, m')"
        using Cons.prems(2) True l by (auto simp: bindr_Inr_iff)
      show ?thesis
        using right_blank_range [OF ok r(1) _ le(3) hi] r(2) Cons.IH Cons.prems(1,3) le by (auto split: if_splits)
    qed
  qed
qed simp

lemma search_in_range:
  assumes ok: "near_sys_ok k sys" and rng: "near_range k pos alloc_range"
    and run: "search_near_blank_page sys pos alloc_range m = Inr (a, m')" "a \<noteq> 0"
  shows "unat (min_page sys pos alloc_range) \<le> unat a" "unat a \<le> unat pos \<or> unat a \<le> unat (max_page sys pos alloc_range)"
    "take_bit k a = 0"
proof -
  let ?lo = "min_page sys pos alloc_range" and ?hi = "max_page sys pos alloc_range"
  note b = range_bounds [OF ok rng]
  have al: "take_bit k ?lo = 0" using ok by (simp add: min_page_def near_sys_ok_def AllocPageSize_def PageSize_def next_page_aligned)
  have lo: "?lo \<noteq> 0" using b(1) by auto
  have hi: "unat ?hi < 2 ^ 63" using b(3) rng by (simp add: near_range_def)
  obtain layout where l: "GetProcessMemoryLayout (sys_uninit sys) (sys_maps sys m) = Inr layout" "layout \<noteq> []"
    using run(1) by (auto simp: search_near_blank_page_def Let_def bindr_Inr_iff split: if_splits)
  then have wf: "\<forall>r \<in> set layout. unat (mr_address r) + unat (mr_length r) < 2 ^ 64" using ok by (auto simp: near_sys_ok_def)
  obtain r1 m1 where 1: "(if ?lo < mr_address (layout ! 0) then alloc_page_at sys ?lo m else (0, m)) = (r1, m1)" by fastforce
  obtain r2 m2 where 2: "(if ?hi < region_end (last layout) then alloc_page_at sys ?lo m1 else (0, m1)) = (r2, m2)" by fastforce
  have fixed: "r1 = 0 \<or> r1 = ?lo" "r2 = 0 \<or> r2 = ?lo"
    using 1 2 alloc_page_at_fixed [OF ok lo] by (auto split: if_splits)
  have "a = ?lo \<or> blank_loop sys ?lo ?hi layout [0..<length layout] ?lo m2 = Inr (a, m')"
    using run l 1 2 fixed by (simp add: search_near_blank_page_def Let_def split: if_splits)
  then have "a = ?lo \<or> unat ?lo \<le> unat a \<and> unat a \<le> unat ?hi \<and> take_bit k a = 0"
    using blank_loop_range [OF ok b(4) hi lo al wf, of "[0..<length layout]"] run(2) by fastforce
  then show "unat ?lo \<le> unat a" "unat a \<le> unat pos \<or> unat a \<le> unat ?hi" "take_bit k a = 0" using b(2) al by auto
qed

lemma llabs_near:
  assumes "unat a < 2 ^ 63" "unat p < 2 ^ 63" "unat p < unat a + unat r" "unat a < unat p + unat r"
  shows "llabs (a - p) < r"
proof -
  have "sint (word_of_int x :: u64) = x" if "- (2 ^ 63) \<le> x" "x < 2 ^ 63" for x
    using that by (simp add: signed_of_int signed_take_bit_int_eq_self)
  moreover have "- (2 ^ 63) \<le> int x - int y \<and> int x - int y < 2 ^ 63" if "x < 2 ^ 63" "y < 2 ^ 63" for x y
    using that by simp
  from this [OF assms(1,2)] have "- (2 ^ 63) \<le> int (unat a) - int (unat p)" "int (unat a) - int (unat p) < 2 ^ 63" by blast+
  ultimately have "sint (word_of_int (int (unat a) - int (unat p)) :: u64) = int (unat a) - int (unat p)" by blast
  then have "sint (a - p) = int (unat a) - int (unat p)" by simp
  then have neg: "sint (a - p) < 0 \<longleftrightarrow> unat a < unat p" by linarith
  show ?thesis
  proof (cases "unat p \<le> unat a")
    case True
    then have "unat (a - p) = unat a - unat p" by (simp add: unat_sub word_le_nat_alt)
    then show ?thesis using neg True assms(4) by (simp add: llabs_def word_less_nat_alt)
  next
    case False
    then have "unat (p - a) = unat p - unat a" by (simp add: unat_sub word_le_nat_alt)
    then show ?thesis using neg False assms(3) by (simp add: llabs_def word_less_nat_alt)
  qed
qed

text \<open>A new page is one that the next search takes.\<close>

lemma new_page_near:
  assumes ok: "near_sys_ok k sys" and rng: "near_range k pos alloc_range" and n: "0 \<le> n" "n < 2 ^ k"
    and run: "search_near_blank_page sys pos alloc_range m = Inr (a, m')" "a \<noteq> 0"
  shows "page_near pos alloc_range n perm (new_page a (PageSize (sys_api sys)) perm)"
proof -
  note b = range_bounds [OF ok rng] search_in_range [OF ok rng run]
  have r: "unat alloc_range \<le> unat pos" "unat pos + unat alloc_range < 2 ^ 63" "2 ^ k \<le> unat alloc_range" using rng by (auto simp: near_range_def)
  have k: "k \<le> 30" "PageSize (sys_api sys) = 2 ^ k" using ok by (auto simp: near_sys_ok_def PageSize_def)
  have a: "unat a < unat pos + unat alloc_range" using b(3,6) less_le_trans [OF zero_less_power r(3)] by auto
  moreover have "unat pos < unat a + unat alloc_range" using b(1,5) by linarith
  ultimately have near: "llabs (a - pos) < alloc_range" using r by (intro llabs_near) linarith+
  have un: "unat (word_of_int n :: u64) = nat n"
  proof (cases "n = 0")
    case False
    have "(2 :: int) ^ k \<le> 2 ^ 30" using k(1) by (intro power_increasing) auto
    then show ?thesis using n False by (intro page_size_word) auto
  qed simp
  have "nat n < 2 ^ k" using n by (simp add: nat_less_iff)
  moreover have n30: "nat n \<le> 2 ^ 30" using calculation pow2_word(2) [OF k(1)] by (meson less_imp_le_nat order_trans)
  have a63: "unat a < 2 ^ 63" using a r(2) by (rule less_trans)
  have sum: "x + y < 2 ^ 64" if "x < 2 ^ 63" "y \<le> 2 ^ 30" for x y :: nat using that by simp
  have "unat a + nat n < 2 ^ 64" "unat a + 2 ^ k < 2 ^ 64" using sum [OF a63 n30] sum [OF a63 pow2_word(2) [OF k(1)]] .
  then have "unat (a + word_of_int n) = unat a + nat n" "unat (a + 2 ^ k) = unat a + 2 ^ k"
    using un pow2_word(1) [OF k(1)] by (simp_all add: unat_plus_if_size word_size)
  ultimately show ?thesis using near by (simp add: page_near_def new_page_def k word_less_nat_alt)
qed

lemma find_page_append: "fits p \<Longrightarrow> find_page fits (ps @ [p]) \<noteq> None"
  by (induction ps) auto

text \<open>The outcome of the search in a list of pages that has one that is near.\<close>

lemma search_found:
  assumes "find_page (page_near pos r n perm) pages = Some i"
  shows "\<exists>c pages'. search_once_more arm sys pos r n perm pages m = Some (Inr (Some c, pages', m)) \<and>
    carve_at n i pages = (c, pages')"
  using assms by (subst search_once_more.simps) (auto split: prod.splits)

text \<open>On ARM the search for zero bytes in mapped code never finds any: it faults or reports none.\<close>

lemma search_near_blank_memory_chunk_arm:
  "search_near_blank_memory_chunk True sys pos alloc_range n m = Inr a \<Longrightarrow> a = 0"
proof -
  have "blank_chunk_loop True lo hi l mem rs = Inr a \<Longrightarrow> a = 0" for lo hi l mem rs
    by (induction rs) (auto split: if_splits)
  then show "search_near_blank_memory_chunk True sys pos alloc_range n m = Inr a \<Longrightarrow> a = 0"
    by (auto simp: search_near_blank_memory_chunk_def bindr_Inr_iff)
qed

lemma search_once_more_returns:
  assumes ok: "near_sys_ok k sys" and rng: "near_range k pos alloc_range" and n: "0 \<le> n" "n < 2 ^ k"
  shows "\<exists>r. search_once_more arm sys pos alloc_range n perm pages m = Some r \<and>
    (perm = kReadWrite \<or> arm \<longrightarrow> (\<forall>c pages' m'. r = Inr (Some c, pages', m') \<longrightarrow>
       (\<exists>ps i. find_page (page_near pos alloc_range n perm) ps = Some i \<and> carve_at n i ps = (c, pages') \<and>
          (ps = pages \<and> m' = m \<or> (\<exists>a m1. ps = near_PushPage sys a perm pages \<and> search_near_blank_page sys pos alloc_range m = Inr (a, m1) \<and>
             SetPermission (sys_mprotect sys) a (PageSize (sys_api sys)) perm m1 = Inr (True, m'))))))"
proof (cases "find_page (page_near pos alloc_range n perm) pages")
  case (Some i)
  then show ?thesis using search_found [OF Some, of arm sys m] by auto
next
  case None
  note unfold = search_once_more.simps [of arm sys pos alloc_range n perm pages m]
  show ?thesis
  proof (cases "search_near_blank_page sys pos alloc_range m")
    case (Inl e)
    then show ?thesis using None by (simp add: unfold)
  next
    case (Inr am)
    then obtain a m1 where s: "search_near_blank_page sys pos alloc_range m = Inr (a, m1)" by (cases am) auto
    show ?thesis
    proof (cases "a = 0")
      case True
      then show ?thesis using None s search_near_blank_memory_chunk_arm [of sys pos alloc_range n m1] by (auto simp: unfold split: sum.splits)
    next
      case False
      show ?thesis
      proof (cases "SetPermission (sys_mprotect sys) a (PageSize (sys_api sys)) perm m1")
        case (Inl e)
        then show ?thesis using None s False by (simp add: unfold)
      next
        case (Inr bm)
        then obtain m2 where p: "SetPermission (sys_mprotect sys) a (PageSize (sys_api sys)) perm m1 = Inr (True, m2)"
          by (auto simp: SetPermission_def Let_def split: prod.splits if_splits)
        let ?ps = "near_PushPage sys a perm pages"
        obtain i where i: "find_page (page_near pos alloc_range n perm) ?ps = Some i"
          using find_page_append [of "page_near pos alloc_range n perm", OF new_page_near [OF ok rng n s False]] by (auto simp: near_PushPage_def)
        have "search_once_more arm sys pos alloc_range n perm pages m = search_once_more arm sys pos alloc_range n perm ?ps m2"
          using None s False p by (simp add: unfold)
        then show ?thesis using search_found [OF i, of arm sys m2] i s p by auto
      qed
    qed
  qed
qed

lemma search_once_more_none:
  assumes ok: "near_sys_ok k sys" and rng: "near_range k pos alloc_range" and n: "0 \<le> n" "n < 2 ^ k"
    and run: "search_once_more arm sys pos alloc_range n perm pages m = Some (Inr (None, pages', m'))"
  shows "pages' = pages"
proof (cases "find_page (page_near pos alloc_range n perm) pages")
  case (Some i)
  then show ?thesis using search_found [OF Some, of arm sys m] run by auto
next
  case None
  note unfold = search_once_more.simps [of arm sys pos alloc_range n perm pages m]
  obtain a m1 where s: "search_near_blank_page sys pos alloc_range m = Inr (a, m1)"
    using run None by (cases "search_near_blank_page sys pos alloc_range m") (auto simp: unfold)
  show ?thesis
  proof (cases "a = 0")
    case True
    then show ?thesis using None s run by (auto simp: unfold split: sum.splits if_splits)
  next
    case False
    obtain b m2 where p: "SetPermission (sys_mprotect sys) a (PageSize (sys_api sys)) perm m1 = Inr (b, m2)"
      using run None s False by (cases "SetPermission (sys_mprotect sys) a (PageSize (sys_api sys)) perm m1") (auto simp: unfold)
    let ?ps = "near_PushPage sys a perm pages"
    obtain i where i: "find_page (page_near pos alloc_range n perm) ?ps = Some i"
      using find_page_append [of "page_near pos alloc_range n perm", OF new_page_near [OF ok rng n s False]] by (auto simp: near_PushPage_def)
    have "search_once_more arm sys pos alloc_range n perm pages m = search_once_more arm sys pos alloc_range n perm ?ps m2"
      using None s False p by (simp add: unfold)
    then show ?thesis using search_found [OF i, of arm sys m2] run by auto
  qed
qed

section \<open>Properties\<close>

lemma carve_at_near:
  assumes "find_page (page_near pos r n perm) ps = Some i" "carve_at n i ps = (c, ps')"
  shows "llabs (ck_address c - pos) < r" "ck_length c = word_of_int n" "\<exists>p \<in> set ps'. pg_permission p = perm \<and> c \<in> set (pg_chunks p)"
proof -
  have i: "i < length ps" "page_near pos r n perm (ps ! i)" using find_page_Some [OF assms(1)] by auto
  have c: "c = \<lparr>ck_address = pg_cursor (ps ! i), ck_length = word_of_int n\<rparr>"
    "ps' = ps[i := (ps ! i)\<lparr>pg_chunks := pg_chunks (ps ! i) @ [c], pg_cursor := pg_cursor (ps ! i) + word_of_int n\<rparr>]"
    using assms(2) by (auto simp: carve_at_def carve_def Let_def)
  show "llabs (ck_address c - pos) < r" "ck_length c = word_of_int n" using c i(2) by (simp_all add: page_near_def)
  have "ps' ! i \<in> set ps'" using i(1) c(2) by (intro nth_mem) simp
  moreover have "pg_permission (ps' ! i) = perm" "c \<in> set (pg_chunks (ps' ! i))" using i c(2) by (auto simp: page_near_def)
  ultimately show "\<exists>p \<in> set ps'. pg_permission p = perm \<and> c \<in> set (pg_chunks p)" by blast
qed

text \<open>
  Code chunks on ARM, where every chunk comes from a page of the arena: instruction-aligned requests from an
  arena whose code pages are filled up to an instruction boundary are answered in range and at such a
  boundary, and leave such an arena. New pages are aligned because all places for them are.
\<close>

definition code_aligned :: "'k vmem arena \<Rightarrow> bool" where
  "code_aligned s \<longleftrightarrow> (\<forall>p \<in> set (pages_of s). pg_permission p = kReadExecute \<longrightarrow> take_bit 2 (pg_cursor p) = 0)"

lemma take_bit_2_le:
  assumes "take_bit k (a :: u64) = 0" "2 \<le> k"
  shows "take_bit 2 a = 0"
proof -
  have "take_bit 2 (take_bit k a) = take_bit 2 a" using assms(2) by (simp add: min_def)
  then show ?thesis using assms(1) by simp
qed

lemma multiple_of_4: "take_bit 2 a = 0 \<longleftrightarrow> (\<exists>b. a = 4 * b)" for a :: u64
proof
  assume "take_bit 2 a = 0"
  then have "a = 4 * drop_bit 2 a" using bits_ident [of 2 a] by (simp add: push_bit_eq_mult mult.commute)
  then show "\<exists>b. a = 4 * b" ..
next
  assume "\<exists>b. a = 4 * b"
  then obtain b where "a = push_bit 2 b" by (auto simp: push_bit_eq_mult mult.commute)
  then show "take_bit 2 a = 0" by (simp add: take_bit_push_bit)
qed

lemma aligned_add: "take_bit 2 a = 0 \<Longrightarrow> take_bit 2 b = 0 \<Longrightarrow> take_bit 2 (a + b) = 0" for a b :: u64
proof -
  assume "take_bit 2 a = 0" "take_bit 2 b = 0"
  then obtain x y where "a = 4 * x" "b = 4 * y" unfolding multiple_of_4 by blast
  then have "a + b = 4 * (x + y)" by (simp add: distrib_left)
  then show "take_bit 2 (a + b) = 0" unfolding multiple_of_4 ..
qed

lemma word_of_multiple_4: "4 dvd n \<Longrightarrow> take_bit 2 (word_of_int n :: u64) = 0"
  unfolding multiple_of_4 by (elim dvdE) (rule exI [of _ "word_of_int (n div 4)"], simp)

lemma carve_at_aligned:
  assumes "find_page (page_near pos r n kReadExecute) ps = Some i" "carve_at n i ps = (c, ps')" "4 dvd n"
    and "\<forall>p \<in> set ps. pg_permission p = kReadExecute \<longrightarrow> take_bit 2 (pg_cursor p) = 0"
  shows "take_bit 2 (ck_address c) = 0 \<and> (\<forall>p \<in> set ps'. pg_permission p = kReadExecute \<longrightarrow> take_bit 2 (pg_cursor p) = 0)"
proof -
  have i: "i < length ps" "page_near pos r n kReadExecute (ps ! i)" using find_page_Some [OF assms(1)] by auto
  then have a: "take_bit 2 (pg_cursor (ps ! i)) = 0" using assms(4) by (simp add: page_near_def)
  have c: "c = \<lparr>ck_address = pg_cursor (ps ! i), ck_length = word_of_int n\<rparr>"
    "ps' = ps[i := (ps ! i)\<lparr>pg_chunks := pg_chunks (ps ! i) @ [c], pg_cursor := pg_cursor (ps ! i) + word_of_int n\<rparr>]"
    using assms(2) by (auto simp: carve_at_def carve_def Let_def)
  have "take_bit 2 (pg_cursor (ps ! i) + word_of_int n) = 0"
    by (rule aligned_add [OF a word_of_multiple_4 [OF assms(3)]])
  then show ?thesis
    using c assms(4) set_update_subset_insert [of ps i "(ps ! i)\<lparr>pg_chunks := pg_chunks (ps ! i) @ [c], pg_cursor := pg_cursor (ps ! i) + word_of_int n\<rparr>"] a
    by (auto dest!: subsetD)
qed

lemma near_code_chunk:
  assumes ok: "near_sys_ok k sys" and rng: "near_range k pos r" and n: "0 \<le> n" "n < 2 ^ k" "4 dvd n"
    and k: "2 \<le> k" and al: "code_aligned s"
  shows "\<exists>res. near_AllocateCodeChunk True sys pos r n s = Some res \<and>
    (\<forall>c s'. res = Inr (Some c, s') \<longrightarrow> llabs (ck_address c - pos) < r \<and> ck_length c = word_of_int n \<and> take_bit 2 (ck_address c) = 0) \<and>
    (\<forall>c s'. res = Inr (c, s') \<longrightarrow> code_aligned s')"
proof -
  let ?al = "\<lambda>ps. \<forall>p \<in> set ps. pg_permission p = kReadExecute \<longrightarrow> take_bit 2 (pg_cursor p) = 0"
  obtain res where r: "search_once_more True sys pos r n kReadExecute (pages_of s) (snd s) = Some res"
    "\<forall>c ps' m'. res = Inr (Some c, ps', m') \<longrightarrow>
       (\<exists>ps i. find_page (page_near pos r n kReadExecute) ps = Some i \<and> carve_at n i ps = (c, ps') \<and>
          (ps = pages_of s \<and> m' = snd s \<or> (\<exists>a m1. ps = near_PushPage sys a kReadExecute (pages_of s) \<and>
             search_near_blank_page sys pos r (snd s) = Inr (a, m1) \<and>
             SetPermission (sys_mprotect sys) a (PageSize (sys_api sys)) kReadExecute m1 = Inr (True, m'))))"
    using search_once_more_returns [OF ok rng n(1,2), of True kReadExecute "pages_of s" "snd s"] by blast
  have some: "llabs (ck_address c - pos) < r \<and> ck_length c = word_of_int n \<and> take_bit 2 (ck_address c) = 0 \<and> ?al ps'"
    if c: "res = Inr (Some c, ps', m')" for c ps' m'
  proof -
    obtain ps i where f: "find_page (page_near pos r n kReadExecute) ps = Some i" "carve_at n i ps = (c, ps')"
      "ps = pages_of s \<or> (\<exists>a m1. ps = near_PushPage sys a kReadExecute (pages_of s) \<and> search_near_blank_page sys pos r (snd s) = Inr (a, m1))"
      using r(2) c by blast
    have "?al ps"
    proof (cases "ps = pages_of s")
      case False
      then obtain a m1 where p: "ps = near_PushPage sys a kReadExecute (pages_of s)" "search_near_blank_page sys pos r (snd s) = Inr (a, m1)"
        using f(3) by blast
      have "take_bit 2 a = 0"
        using search_in_range(3) [OF ok rng p(2)] take_bit_2_le [OF _ k] by (cases "a = 0") auto
      then show ?thesis
        using al p(1) by (auto simp: code_aligned_def near_PushPage_def new_page_def)
    qed (use al in \<open>simp add: code_aligned_def\<close>)
    then show ?thesis
      using carve_at_near [OF f(1,2)] carve_at_aligned [OF f(1,2) n(3)] by simp
  qed
  have none: "ps' = pages_of s" if "res = Inr (None, ps', m')" for ps' m'
    using search_once_more_none [OF ok rng n(1,2)] r(1) that by blast
  have "?al ps'" if "res = Inr (c, ps', m')" for c ps' m'
    using some [of _ ps' m'] none [of ps' m'] that al by (cases c) (auto simp: code_aligned_def)
  then show ?thesis
    using r(1) some unfolding near_AllocateCodeChunk_def near_AllocateChunk_def pages_of_def code_aligned_def
    by (auto simp: bindr_Inr_iff)
qed

text \<open>
  C36. The search for memory near a position ends: for a request of less than a page, a range of at least a
  page around a position in the lower half of the address space, whatever the memory map says and
  whether \<^verbatim>\<open>mmap\<close> and \<^verbatim>\<open>mprotect\<close> succeed or not, the allocator returns or reports a failure, because a
  page it has mapped is always one the next search accepts; and a data chunk it returns is nearer to
  the position than the range, has the requested length and belongs to a page for data.
\<close>

theorem near_allocation_returns_in_range:
  assumes "near_sys_ok k sys" "near_range k pos alloc_range" "0 \<le> n" "n < 2 ^ k"
  shows "\<exists>res. near_AllocateChunk arm sys pos alloc_range n perm s = Some res \<and>
    (perm = kReadWrite \<longrightarrow> (\<forall>c s'. res = Inr (Some c, s') \<longrightarrow>
       llabs (ck_address c - pos) < alloc_range \<and> ck_length c = word_of_int n \<and>
       (\<exists>p \<in> set (pages_of s'). pg_permission p = kReadWrite \<and> c \<in> set (pg_chunks p))))"
proof -
  obtain r where r: "search_once_more arm sys pos alloc_range n perm (pages_of s) (snd s) = Some r"
    "perm = kReadWrite \<or> arm \<longrightarrow> (\<forall>c ps' m'. r = Inr (Some c, ps', m') \<longrightarrow>
       (\<exists>ps i. find_page (page_near pos alloc_range n perm) ps = Some i \<and> carve_at n i ps = (c, ps')))"
    using search_once_more_returns [OF assms, of arm perm "pages_of s" "snd s"] by blast
  then show ?thesis
    using carve_at_near unfolding near_AllocateChunk_def pages_of_def
    by (fastforce simp: bindr_Inr_iff split: prod.splits)
qed

text \<open>A kernel with one region in its map, printed twice by the parser, that maps what it is asked for at fixed addresses.\<close>

definition wit_sys :: "unit sys" where
  "wit_sys = \<lparr>sys_api = \<lparr>os_mmap = (\<lambda>a sz prot flags m. if flags AND MAP_FIXED \<noteq> 0
       then (a, m\<lparr>vm_prot := (\<lambda>x. if x \<in> span a (unat sz) then Some prot else vm_prot m x)\<rparr>) else (MAP_FAILED, m)), os_page_size = 4096\<rparr>,
     sys_mprotect = wit_mprotect, sys_maps = (\<lambda>m. Some (print_vma wit_vma)), sys_uninit = id\<rparr>"

definition wit_region :: MemoryRegion where
  "wit_region = \<lparr>mr_address = 0x08048000, mr_length = 0xe000, mr_permission = kReadExecute\<rparr>"

lemma wit_layout: "GetProcessMemoryLayout (sys_uninit wit_sys) (sys_maps wit_sys m) = Inr [wit_region, wit_region]"
proof -
  have "readable wit_vma" unfolding readable_def wit_vma_line by (simp add: vma_ok_def wit_vma_def isspace_def)
  moreover have "region_of wit_vma = wit_region" by (simp add: region_of_def wit_vma_def wit_region_def permission_of_kernel)
  ultimately show ?thesis
    using layout_loop_lines [of "[wit_vma]" id "[]" "[]"] layout_loop_stale [of id wit_vma] by (simp add: GetProcessMemoryLayout_def wit_sys_def)
qed

lemma wit_near_sys_ok: "near_sys_ok 12 wit_sys"
  using wit_layout by (auto simp: near_sys_ok_def wit_region_def) (auto simp: wit_sys_def split: if_splits)

theorem near_allocation_returns_in_range_witness:
  "\<exists>res. near_AllocateDataChunk False wit_sys 0x5000 0x4000 8 (None, wit_memory) = Some res \<and>
     (\<forall>c s'. res = Inr (Some c, s') \<longrightarrow> llabs (ck_address c - 0x5000) < 0x4000)"
proof -
  have "near_range 12 0x5000 0x4000" by (simp add: near_range_def)
  from near_allocation_returns_in_range [OF wit_near_sys_ok this, of 8 False kReadWrite "(None, wit_memory)"] show ?thesis
    by (auto simp: near_AllocateDataChunk_def)
qed

text \<open>
  C37. A new page may be mapped over memory in use: whenever the lowest page in range lies in a region of
  the memory map and the map reaches beyond the range, the search maps its page there, with
  \<^verbatim>\<open>MAP_FIXED\<close>, and returns it.
\<close>

theorem near_page_replaces_mapping:
  assumes layout: "GetProcessMemoryLayout (sys_uninit sys) (sys_maps sys m) = Inr layout"
    and used: "r \<in> set layout" "mr_address r \<le> min_page sys pos alloc_range" "min_page sys pos alloc_range < region_end r"
    and beyond: "max_page sys pos alloc_range < region_end (last layout)"
    and granted: "os_mmap (sys_api sys) (min_page sys pos alloc_range) (word_of_int (os_page_size (sys_api sys))) (PROT_READ OR PROT_EXEC)
        (MAP_PRIVATE OR MAP_ANONYMOUS OR MAP_FIXED) m = (min_page sys pos alloc_range, m')"
      "min_page sys pos alloc_range \<noteq> MAP_FAILED" "min_page sys pos alloc_range \<noteq> 0"
  shows "search_near_blank_page sys pos alloc_range m = Inr (min_page sys pos alloc_range, m')"
proof -
  let ?lo = "min_page sys pos alloc_range"
  have ne: "layout \<noteq> []" using used(1) by auto
  have "sorted_wrt (\<lambda>a b. \<not> memory_region_comparator b a) layout" using GetProcessMemoryLayout_sorted [OF layout] .
  then have "mr_address (layout ! 0) \<le> mr_address r"
    using used(1) by (cases layout) (auto simp: memory_region_comparator_def not_less)
  then have "\<not> ?lo < mr_address (layout ! 0)" using used(2) by simp
  moreover have "alloc_page_at sys ?lo m = (?lo, m')"
    using granted by (simp add: alloc_page_at_def OSMemory_Allocate_def AllocPageSize_def PageSize_def Let_def)
  ultimately show ?thesis
    using layout ne beyond granted(3) by (simp add: search_near_blank_page_def Let_def)
qed

theorem near_page_replaces_mapping_witness:
  "\<exists>m'. search_near_blank_page wit_sys 0x8050000 0x3000 wit_memory = Inr (0x804e000, m') \<and>
     mr_address wit_region \<le> 0x804e000 \<and> 0x804e000 < region_end wit_region"
proof -
  have lo: "min_page wit_sys 0x8050000 0x3000 = 0x804e000" and hi: "max_page wit_sys 0x8050000 0x3000 = 0x8052000"
    by (simp_all add: min_page_def max_page_def next_page_def prev_page_def addr_sub_def addr_add_def AllocPageSize_def PageSize_def
        wit_sys_def ALIGN_FLOOR_def)
  have "mr_address wit_region \<le> 0x804e000" "0x804e000 < region_end wit_region" "0x8052000 < region_end (last [wit_region, wit_region])"
    by (simp_all add: wit_region_def region_end_def)
  moreover have "fst (os_mmap (sys_api wit_sys) 0x804e000 (word_of_int (os_page_size (sys_api wit_sys))) (PROT_READ OR PROT_EXEC)
      (MAP_PRIVATE OR MAP_ANONYMOUS OR MAP_FIXED) wit_memory) = 0x804e000" by (simp add: wit_sys_def)
  then obtain m' where "os_mmap (sys_api wit_sys) 0x804e000 (word_of_int (os_page_size (sys_api wit_sys))) (PROT_READ OR PROT_EXEC)
      (MAP_PRIVATE OR MAP_ANONYMOUS OR MAP_FIXED) wit_memory = (0x804e000, m')" by (metis prod.collapse)
  ultimately show ?thesis
    using near_page_replaces_mapping [OF wit_layout, of wit_region "0x8050000" "0x3000" wit_memory m'] lo hi by auto
qed

end
