(* ===== verification/Arm64_Near_Trampoline.thy ===== *)
theory Arm64_Near_Trampoline
  imports Arm64_Trampoline Near_Arena
begin



section \<open>The forwarding chunk\<close>









section \<open>The branch\<close>


section \<open>Properties\<close>













end
