(* ===== verification/Lite_Containers.thy ===== *)
theory Lite_Containers
  imports Dobby_Prelude
begin

text \<open>
  The containers of \<^verbatim>\<open>external/xnucxx\<close>: \<^verbatim>\<open>LiteMutableBuffer\<close> (a growable byte
  buffer with a write cursor, the storage of every code buffer), \<^verbatim>\<open>LiteMutableArray\<close> (a
  growable array of object pointers) and its iterator. Memory blocks are byte lists; a
  pointer that may be \<^verbatim>\<open>NULL\<close> is an option. The C library's \<^verbatim>\<open>malloc\<close> is a
  parameter: \<open>malloc n\<close> is the block handed out for a request of \<open>n\<close> bytes, with
  \<^const>\<open>None\<close> for failure; \<open>malloc_ok\<close> is what the C standard library documents of it.
\<close>

section \<open>Allocation\<close>

type_synonym allocator = "u64 \<Rightarrow> bytes option"

definition malloc_ok :: "allocator \<Rightarrow> bool" where
  "malloc_ok malloc \<longleftrightarrow> (\<forall>n b. malloc n = Some b \<longrightarrow> length b = unat n \<and> unat n < 2 ^ 63)"

text \<open>\<^verbatim>\<open>LiteMemOpt::alloc\<close> takes an \<^verbatim>\<open>int\<close>: the sz is sign-extended to \<^verbatim>\<open>size_t\<close>.\<close>

definition alloc :: "allocator \<Rightarrow> u32 \<Rightarrow> bytes option" where
  "alloc malloc sz = malloc (scast sz)"

definition memset :: "bytes \<Rightarrow> u8 \<Rightarrow> nat \<Rightarrow> bytes" where
  "memset dest ch count = store_bytes dest 0 (replicate count ch)"

definition memcpy :: "bytes \<Rightarrow> bytes \<Rightarrow> nat \<Rightarrow> bytes" where
  "memcpy dest src len = store_bytes dest 0 (take len src)"

section \<open>LiteMutableBuffer\<close>

record lite_buffer =
  buffer :: "bytes option"
  buffer_cursor :: nat
  buffer_capacity :: u32

definition getSize :: "lite_buffer \<Rightarrow> u32" where
  "getSize b = word_of_nat (buffer_cursor b)"

definition getCapacity :: "lite_buffer \<Rightarrow> u32" where
  "getCapacity b = buffer_capacity b"

definition initWithCapacity :: "allocator \<Rightarrow> u32 \<Rightarrow> lite_buffer \<Rightarrow> bool \<times> lite_buffer" where
  "initWithCapacity malloc initCapacity b =
    (if initCapacity \<le> 0 then (False, b)
     else (True, \<lparr>buffer = alloc malloc initCapacity, buffer_cursor = 0, buffer_capacity = initCapacity\<rparr>))"

definition ensureCapacity :: "allocator \<Rightarrow> u32 \<Rightarrow> lite_buffer \<Rightarrow> (u32 \<times> lite_buffer) res" where
  "ensureCapacity malloc newCapacity b =
    (if newCapacity \<le> buffer_capacity b then Inr (buffer_capacity b, b)
     else
       (let newCapacity = newCapacity + newCapacity div 2 in
        case alloc malloc newCapacity of
          None \<Rightarrow> Inr (0, b)
        | Some newBuffer \<Rightarrow>
            (let newBuffer = memset newBuffer 0x41 (length newBuffer);
                 originContentSize = unat (getSize b) in
             case buffer b of
               None \<Rightarrow> if originContentSize = 0
                        then Inr (newCapacity, b\<lparr>buffer := Some newBuffer, buffer_cursor := 0,
                                                buffer_capacity := newCapacity\<rparr>)
                        else Inl NullPointer
             | Some old \<Rightarrow>
                 if length old < originContentSize \<or> length newBuffer < originContentSize then Inl OutOfBounds
                 else Inr (newCapacity,
                           b\<lparr>buffer := Some (memcpy newBuffer old originContentSize),
                             buffer_cursor := originContentSize,
                             buffer_capacity := newCapacity\<rparr>))))"

definition release :: "lite_buffer \<Rightarrow> lite_buffer" where
  "release b = (case buffer b of None \<Rightarrow> b | Some _ \<Rightarrow> b\<lparr>buffer := None\<rparr>)"

text \<open>
  \<open>buffer_wf\<close> is the representation invariant; \<open>content\<close> the abstract value: the bytes
  between the start of the buffer and the cursor.
\<close>

definition buffer_wf :: "lite_buffer \<Rightarrow> bool" where
  "buffer_wf b \<longleftrightarrow> (case buffer b of None \<Rightarrow> False
     | Some blk \<Rightarrow> length blk = unat (buffer_capacity b) \<and> buffer_cursor b \<le> length blk
                  \<and> length blk < 2 ^ 31)"

definition content :: "lite_buffer \<Rightarrow> bytes" where
  "content b = (case buffer b of None \<Rightarrow> [] | Some blk \<Rightarrow> take (buffer_cursor b) blk)"

lemma buffer_wfE:
  assumes "buffer_wf b"
  obtains blk where "buffer b = Some blk" "length blk = unat (buffer_capacity b)"
    "buffer_cursor b \<le> length blk" "length blk < 2 ^ 31"
  using assms by (auto simp: buffer_wf_def split: option.splits)

lemma scast_small:
  assumes "unat (n :: u32) < 2 ^ 31"
  shows "unat (scast n :: u64) = unat n"
proof -
  have nb: "\<not> bit n 31"
    using unat_less_half_iff [of n] assms by simp
  have "k = 31" if "bit n k" "31 \<le> k" for k
    using bit_imp_le_length [OF that(1)] that(2) by simp
  with nb have "scast n = (ucast n :: u64)"
    by (intro bit_word_eqI) (auto simp: bit_simps min_def)
  then show ?thesis
    using assms by (simp add: unsigned_ucast_eq take_bit_nat_eq_self)
qed

lemma alloc_lengthD:
  assumes "malloc_ok malloc" "alloc malloc sz = Some blk"
  shows "length blk = unat sz" "unat sz < 2 ^ 31"
proof -
  have len: "length blk = unat (scast sz :: u64)" "unat (scast sz :: u64) < 2 ^ 63"
    using assms by (auto simp: malloc_ok_def alloc_def)
  have nb: "\<not> bit sz 31"
    using unat_less_half_iff [of "scast sz :: u64"] len(2) by (simp add: bit_simps)
  then show lt: "unat sz < 2 ^ 31"
    using unat_less_half_iff [of sz] by simp
  show "length blk = unat sz"
    using len(1) scast_small [OF lt] by simp
qed

lemma length_memset [simp]: "count \<le> length dest \<Longrightarrow> length (memset dest ch count) = length dest"
  by (simp add: memset_def)

lemma memcpy_take:
  "len \<le> length src \<Longrightarrow> len \<le> length dest \<Longrightarrow> take len (memcpy dest src len) = take len src"
  by (simp add: memcpy_def store_bytes_def)

lemma length_memcpy [simp]:
  "len \<le> length src \<Longrightarrow> len \<le> length dest \<Longrightarrow> length (memcpy dest src len) = length dest"
  by (simp add: memcpy_def)

lemma unat_getSize: "buffer_wf b \<Longrightarrow> unat (getSize b) = buffer_cursor b"
  by (elim buffer_wfE) (simp add: getSize_def unat_of_nat take_bit_nat_eq_self)

lemma length_content: "buffer_wf b \<Longrightarrow> length (content b) = buffer_cursor b"
  by (elim buffer_wfE) (simp add: content_def)

text \<open>
  Growing: unless the request itself overflows 32 bits, the call never faults; it either
  leaves the buffer as it was and reports 0 because the allocation failed, or it yields a
  well-formed buffer with the same content and at least the requested capacity.
\<close>

lemma ensureCapacity_cases:
  assumes "malloc_ok malloc" "buffer_wf b" "unat n + unat n div 2 < 2 ^ 32"
  obtains
    (fail) "ensureCapacity malloc n b = Inr (0, b)" "buffer_capacity b < n"
      "alloc malloc (n + n div 2) = None"
  | (ok) r b' where "ensureCapacity malloc n b = Inr (r, b')" "n \<le> buffer_capacity b'"
      "buffer_wf b'" "content b' = content b" "buffer_cursor b' = buffer_cursor b"
proof (cases "n \<le> buffer_capacity b")
  case True
  with assms(2) show thesis
    by (intro ok [of "buffer_capacity b" b]) (auto simp: ensureCapacity_def)
next
  case big: False
  show thesis
  proof (cases "alloc malloc (n + n div 2)")
    case None
    with big show thesis
      by (intro fail) (auto simp: ensureCapacity_def)
  next
    case (Some nb)
    note len = alloc_lengthD [OF assms(1) Some]
    have cap: "unat (n + n div 2) = unat n + unat n div 2"
      using assms(3) by (simp add: unat_word_ariths unat_div)
    obtain blk where blk: "buffer b = Some blk" "length blk = unat (buffer_capacity b)"
      "buffer_cursor b \<le> length blk"
      using assms(2) by (elim buffer_wfE)
    have "unat (buffer_capacity b) < unat n"
      using big by (simp add: word_less_nat_alt not_le)
    then have room: "buffer_cursor b \<le> length nb"
      using blk len(1) cap by simp
    let ?b' = "b\<lparr>buffer := Some (memcpy (memset nb 0x41 (length nb)) blk (buffer_cursor b)),
                buffer_capacity := n + n div 2\<rparr>"
    have "ensureCapacity malloc n b = Inr (n + n div 2, ?b')"
      using big Some blk room unat_getSize [OF assms(2)]
      by (simp add: ensureCapacity_def Let_def)
    moreover have "n \<le> n + n div 2"
      using cap by (simp add: word_le_nat_alt)
    ultimately show thesis
      using len room blk
      by (intro ok [of "n + n div 2" ?b']) (auto simp: buffer_wf_def content_def memcpy_take)
  qed
qed

section \<open>LiteMutableArray\<close>

text \<open>
  The array block holds 8-byte object pointers; an object is the address it lives at.
\<close>

record lite_array =
  array :: "bytes option"
  array_count :: u32
  array_capacity :: u32

definition LiteMutableArray :: "allocator \<Rightarrow> u32 \<Rightarrow> lite_array" where
  "LiteMutableArray malloc initCapacity =
    \<lparr>array = alloc malloc (initCapacity * 8), array_count = 0, array_capacity = initCapacity\<rparr>"

definition array_load :: "lite_array \<Rightarrow> u32 \<Rightarrow> u64 res" where
  "array_load a index = (case array a of None \<Rightarrow> Inl NullPointer
     | Some blk \<Rightarrow> if 8 * unat index + 8 \<le> length blk
                    then Inr (le_word (load_bytes blk (8 * unat index) 8)) else Inl OutOfBounds)"

definition array_store :: "lite_array \<Rightarrow> u32 \<Rightarrow> u64 \<Rightarrow> lite_array res" where
  "array_store a index object = (case array a of None \<Rightarrow> Inl NullPointer
     | Some blk \<Rightarrow> if 8 * unat index + 8 \<le> length blk
                    then Inr (a\<lparr>array := Some (store_bytes blk (8 * unat index) (le_bytes 8 object))\<rparr>)
                    else Inl OutOfBounds)"

definition getObject :: "lite_array \<Rightarrow> u32 \<Rightarrow> u64 res" where
  "getObject a index = array_load a index"

definition getCount :: "lite_array \<Rightarrow> u32" where
  "getCount a = array_count a"

definition array_ensureCapacity :: "allocator \<Rightarrow> u32 \<Rightarrow> lite_array \<Rightarrow> (u32 \<times> lite_array) res" where
  "array_ensureCapacity malloc newCapacity a =
    (if newCapacity \<le> array_capacity a then Inr (array_capacity a, a)
     else
       (let newCapacity = ucast (ALIGN_FLOOR (ucast newCapacity + 64 :: u64) 64) :: u32;
            newSize = 8 * newCapacity in
        case alloc malloc newSize of
          None \<Rightarrow> Inr (0, a)
        | Some newArray \<Rightarrow>
            (let newArray = memset newArray 0x41 (length newArray);
                 originContentSize = unat (8 * array_count a) in
             case array a of
               None \<Rightarrow> if originContentSize = 0
                        then Inr (newCapacity, a\<lparr>array := Some newArray, array_capacity := newCapacity\<rparr>)
                        else Inl NullPointer
             | Some old \<Rightarrow>
                 if length old < originContentSize \<or> length newArray < originContentSize then Inl OutOfBounds
                 else Inr (newCapacity, a\<lparr>array := Some (memcpy newArray old originContentSize),
                                          array_capacity := newCapacity\<rparr>))))"

definition pushObject :: "allocator \<Rightarrow> u64 \<Rightarrow> lite_array \<Rightarrow> (bool \<times> lite_array) res" where
  "pushObject malloc object a =
    (let newCount = array_count a + 1 in
     bindr (if newCount > array_capacity a then array_ensureCapacity malloc newCount a
            else Inr (newCount, a))
       (\<lambda>(cap, a).
         if newCount > cap then Inr (False, a)
         else bindr (array_store a (array_count a) object)
                (\<lambda>a. Inr (True, a\<lparr>array_count := array_count a + 1\<rparr>))))"

definition array_release :: "lite_array \<Rightarrow> lite_array" where
  "array_release a = (case array a of None \<Rightarrow> a | Some _ \<Rightarrow> a\<lparr>array := None\<rparr>)"

text \<open>
  The iterator keeps only the next index; \<^verbatim>\<open>getNextObject\<close> hands out the objects in order
  and \<^verbatim>\<open>NULL\<close> (address 0) once they are used up.
\<close>

definition initIterator :: u32 where
  "initIterator = 0"

definition getNextObjectForIterator :: "lite_array \<Rightarrow> u32 \<Rightarrow> (u32 \<times> bool \<times> u64) res" where
  "getNextObjectForIterator a ndx =
    (if ndx < array_count a then bindr (array_load a ndx) (\<lambda>obj. Inr (ndx + 1, True, obj))
     else Inr (ndx + 1, False, 0))"

definition getNextObject :: "lite_array \<Rightarrow> u32 \<Rightarrow> (u32 \<times> u64) res" where
  "getNextObject a ndx = bindr (getNextObjectForIterator a ndx) (\<lambda>(ndx, _, obj). Inr (ndx, obj))"

text \<open>
  The loop \<^verbatim>\<open>while ((entry = iter.getNextObject()) != NULL) f(entry)\<close> that the callers
  of the iterator write, as the list of objects it visits; \<open>fuel\<close> bounds the visits.
\<close>

fun iterate :: "nat \<Rightarrow> lite_array \<Rightarrow> u32 \<Rightarrow> u64 list option" where
  "iterate 0 a ndx = None"
| "iterate (Suc fuel) a ndx = (case getNextObject a ndx of
     Inl _ \<Rightarrow> None
   | Inr (ndx, obj) \<Rightarrow> if obj = 0 then Some [] else map_option ((#) obj) (iterate fuel a ndx))"

definition array_wf :: "lite_array \<Rightarrow> bool" where
  "array_wf a \<longleftrightarrow> (case array a of None \<Rightarrow> False
     | Some blk \<Rightarrow> length blk = 8 * unat (array_capacity a) \<and> array_count a \<le> array_capacity a
                  \<and> length blk < 2 ^ 31)"

definition objects :: "lite_array \<Rightarrow> u64 list" where
  "objects a = (case array a of None \<Rightarrow> []
     | Some blk \<Rightarrow> map (\<lambda>i. le_word (load_bytes blk (8 * i) 8)) [0..<unat (array_count a)])"

lemma array_wfE:
  assumes "array_wf a"
  obtains blk where "array a = Some blk" "length blk = 8 * unat (array_capacity a)"
    "unat (array_count a) \<le> unat (array_capacity a)" "length blk < 2 ^ 31"
  using assms by (auto simp: array_wf_def word_le_nat_alt split: option.splits)

lemma length_objects: "array_wf a \<Longrightarrow> length (objects a) = unat (array_count a)"
  by (elim array_wfE) (simp add: objects_def)

lemma array_load_ok:
  assumes "array_wf a" "unat ndx < unat (array_count a)"
  shows "array_load a ndx = Inr (objects a ! unat ndx)"
  using assms by (elim array_wfE) (simp add: array_load_def objects_def)

lemma array_step_capacity:
  assumes "unat n \<le> 2 ^ 28"
  shows "unat n < unat (ucast (ALIGN_FLOOR (ucast n + 64 :: u64) 64) :: u32)"
    "unat (ucast (ALIGN_FLOOR (ucast n + 64 :: u64) 64) :: u32) \<le> unat n + 64"
proof -
  have u: "unat (ucast n + 64 :: u64) = unat n + 64"
    using assms by (simp add: unat_word_ariths unsigned_ucast_eq take_bit_nat_eq_self)
  have "unat (ALIGN_FLOOR (ucast n + 64 :: u64) 64) = unat n + 64 - (unat n + 64) mod 64"
    using unat_ALIGN_FLOOR_pow2 [of "ucast n + 64 :: u64" 6] u by simp
  then have c: "unat (ucast (ALIGN_FLOOR (ucast n + 64 :: u64) 64) :: u32) = unat n + 64 - unat n mod 64"
    using assms by (simp add: unsigned_ucast_eq take_bit_nat_eq_self)
  have "unat n mod 64 < 64"
    by simp
  then show "unat n < unat (ucast (ALIGN_FLOOR (ucast n + 64 :: u64) 64) :: u32)"
    "unat (ucast (ALIGN_FLOOR (ucast n + 64 :: u64) 64) :: u32) \<le> unat n + 64"
    unfolding c by linarith+
qed

lemma load_memcpy:
  assumes "8 * i + 8 \<le> len" "len \<le> length src" "len \<le> length dest"
  shows "load_bytes (memcpy dest src len) (8 * i) 8 = load_bytes src (8 * i) 8"
  using assms by (simp add: memcpy_def store_bytes_def load_bytes_append_left)
    (simp add: load_bytes_def take_drop min_def)

lemma array_ensureCapacity_cases:
  assumes "malloc_ok malloc" "array_wf a" "unat n \<le> 2 ^ 28"
  obtains
    (fail) "array_ensureCapacity malloc n a = Inr (0, a)" "array_capacity a < n"
  | (ok) a' where "array_ensureCapacity malloc n a = Inr (array_capacity a', a')"
      "n \<le> array_capacity a'" "array_wf a'" "objects a' = objects a" "array_count a' = array_count a"
proof (cases "n \<le> array_capacity a")
  case True
  with assms(2) show thesis
    by (intro ok [of a]) (auto simp: array_ensureCapacity_def)
next
  case big: False
  define cap where "cap = (ucast (ALIGN_FLOOR (ucast n + 64 :: u64) 64) :: u32)"
  note step = array_step_capacity [OF assms(3), folded cap_def]
  have bytes: "unat (8 * cap) = 8 * unat cap"
    using step(2) assms(3) by (simp add: unat_word_ariths)
  obtain blk where blk: "array a = Some blk" "length blk = 8 * unat (array_capacity a)"
    "unat (array_count a) \<le> unat (array_capacity a)" "length blk < 2 ^ 31"
    using assms(2) by (elim array_wfE)
  have cnt: "unat (8 * array_count a) = 8 * unat (array_count a)"
    using blk by (simp add: unat_word_ariths)
  show thesis
  proof (cases "alloc malloc (8 * cap)")
    case None
    with big show thesis
      by (intro fail) (auto simp: array_ensureCapacity_def Let_def cap_def)
  next
    case (Some nb)
    note len = alloc_lengthD [OF assms(1) Some]
    have lt: "unat (array_capacity a) < unat n"
      using big by (simp add: word_less_nat_alt not_le)
    let ?nb = "memset nb 0x41 (length nb)"
    let ?a' = "a\<lparr>array := Some (memcpy ?nb blk (8 * unat (array_count a))), array_capacity := cap\<rparr>"
    have room: "8 * unat (array_count a) \<le> length ?nb"
      using blk len(1) bytes step(1) lt by simp
    have "array_ensureCapacity malloc n a = Inr (cap, ?a')"
      using big Some blk room cnt by (simp add: array_ensureCapacity_def Let_def cap_def)
    moreover have "n \<le> cap" "array_count a \<le> cap"
      using step(1) lt blk(3) by (simp_all add: word_le_nat_alt)
    moreover have "objects ?a' = objects a"
      using blk room by (auto simp: objects_def intro!: arg_cong [where f = le_word] load_memcpy)
    ultimately show thesis
      using len room blk bytes
      by (intro ok [of ?a']) (auto simp: array_wf_def)
  qed
qed

text \<open>
  Pushing: the call never faults; it answers true and appends the object, or answers false
  and leaves the array as it was.
\<close>

lemma pushObject_cases:
  assumes "malloc_ok malloc" "array_wf a"
  obtains
    (full) "pushObject malloc obj a = Inr (False, a)"
  | (pushed) a' where "pushObject malloc obj a = Inr (True, a')" "array_wf a'"
      "objects a' = objects a @ [obj]"
proof -
  have small: "unat (array_count a) < 2 ^ 28"
    using assms(2) by (elim array_wfE) simp
  then have inc: "unat (array_count a + 1) = unat (array_count a) + 1"
    by (simp add: unat_word_ariths)
  have fin: "\<exists>a''. bindr (array_store a' (array_count a') obj)
                   (\<lambda>a. Inr (True, a\<lparr>array_count := array_count a + 1\<rparr>)) = Inr (True, a'')
      \<and> array_wf a'' \<and> objects a'' = objects a @ [obj]"
    if a': "array_wf a'" "objects a' = objects a" "array_count a' = array_count a"
      "array_count a + 1 \<le> array_capacity a'" for a'
  proof -
    obtain blk where blk: "array a' = Some blk" "length blk = 8 * unat (array_capacity a')"
      "length blk < 2 ^ 31"
      using a'(1) by (elim array_wfE)
    have le: "unat (array_count a) + 1 \<le> unat (array_capacity a')"
      using a'(4) inc by (simp add: word_le_nat_alt)
    let ?blk = "store_bytes blk (8 * unat (array_count a)) (le_bytes 8 obj)"
    let ?a'' = "a'\<lparr>array := Some ?blk, array_count := array_count a + 1\<rparr>"
    have "objects ?a'' = objects a' @ [obj]"
      using blk le a'(3) inc
      by (auto simp: objects_def bytes intro!: arg_cong [where f = le_word] load_store_disjoint)
    then show ?thesis
      unfolding a'(2)
      using blk le a'(3,4) inc by (auto simp: array_store_def array_wf_def)
  qed
  show thesis
  proof (cases "array_count a + 1 \<le> array_capacity a")
    case True
    with fin [of a] assms(2) show thesis
      by (auto simp: pushObject_def Let_def not_less [symmetric] intro: pushed)
  next
    case False
    have "unat (array_count a + 1) \<le> 2 ^ 28"
      using inc small by simp
    with assms show thesis
    proof (cases rule: array_ensureCapacity_cases)
      case fail
      moreover have "0 < array_count a + 1"
        using inc by (simp add: word_less_nat_alt)
      ultimately show thesis
        using False by (intro full) (auto simp: pushObject_def Let_def)
    next
      case (ok a')
      then obtain a'' where "bindr (array_store a' (array_count a') obj)
          (\<lambda>a. Inr (True, a\<lparr>array_count := array_count a + 1\<rparr>)) = Inr (True, a'')"
        "array_wf a''" "objects a'' = objects a @ [obj]"
        using fin by blast
      with ok False show thesis
        by (intro pushed [of a'']) (auto simp: pushObject_def Let_def)
    qed
  qed
qed

text \<open>Iterating visits the objects in insertion order and stops at the end.\<close>

lemma iterate_from:
  assumes "array_wf a" "0 \<notin> set (objects a)" "unat ndx \<le> unat (array_count a)"
    "unat (array_count a) - unat ndx < fuel"
  shows "iterate fuel a ndx = Some (drop (unat ndx) (objects a))"
  using assms(3,4)
proof (induction fuel arbitrary: ndx)
  case 0
  then show ?case by simp
next
  case (Suc fuel)
  show ?case
  proof (cases "ndx < array_count a")
    case True
    then have lt: "unat ndx < unat (array_count a)"
      by (simp add: word_less_nat_alt)
    moreover have "unat (array_count a) < 2 ^ LENGTH(32)"
      by (rule unsigned_less)
    ultimately have inc: "unat (ndx + 1) = unat ndx + 1"
      by (simp add: unat_word_ariths)
    have "objects a ! unat ndx \<noteq> 0"
      using assms(1,2) lt by (metis length_objects nth_mem)
    moreover have "drop (unat ndx) (objects a) = objects a ! unat ndx # drop (unat (ndx + 1)) (objects a)"
      using lt assms(1) inc by (simp add: Cons_nth_drop_Suc length_objects)
    ultimately show ?thesis
      using True lt inc Suc array_load_ok [OF assms(1) lt]
      by (simp add: getNextObject_def getNextObjectForIterator_def)
  next
    case False
    then have "unat (array_count a) \<le> unat ndx"
      by (simp add: word_less_nat_alt)
    with False show ?thesis
      using Suc assms(1) by (simp add: getNextObject_def getNextObjectForIterator_def length_objects)
  qed
qed

section \<open>Properties\<close>

text \<open>A total allocator for the concrete instances.\<close>

definition wit_malloc :: allocator where
  "wit_malloc n = (if unat n < 2 ^ 63 then Some (replicate (unat n) 0) else None)"

lemma wit_malloc_ok: "malloc_ok wit_malloc"
  by (auto simp: malloc_ok_def wit_malloc_def split: if_splits)

lemma wit_array_wf: "array_wf (LiteMutableArray wit_malloc 1)"
  by (simp add: LiteMutableArray_def alloc_def wit_malloc_def array_wf_def)

text \<open>
  C12. \<^verbatim>\<open>LiteMutableArray::pushObject\<close> is safe and all-or-nothing for every allocator that
  keeps its documented contract: it never accesses memory outside its block, it answers true
  exactly when the object was appended after the objects already there, and when it answers
  false the array is untouched; the representation invariant is kept.
\<close>

theorem pushObject_all_or_nothing:
  assumes "malloc_ok malloc" "array_wf a"
  shows "case pushObject malloc obj a of Inl _ \<Rightarrow> False
    | Inr (ok, a') \<Rightarrow> array_wf a' \<and> (if ok then objects a' = objects a @ [obj] else a' = a)"
  using assms(2) by (cases rule: pushObject_cases [OF assms, where obj = obj]) simp_all

theorem pushObject_all_or_nothing_witness:
  "case pushObject wit_malloc 7 (LiteMutableArray wit_malloc 1) of Inl _ \<Rightarrow> False
    | Inr (ok, a') \<Rightarrow> array_wf a' \<and>
        (if ok then objects a' = objects (LiteMutableArray wit_malloc 1) @ [7] else a' = LiteMutableArray wit_malloc 1)"
  by (rule pushObject_all_or_nothing [OF wit_malloc_ok wit_array_wf])

text \<open>
  C13. The iterator hands out exactly the objects pushed, in order, and then \<^verbatim>\<open>NULL\<close>: the
  loop of a client that calls \<^verbatim>\<open>LiteCollectionIterator::getNextObject\<close> until it answers
  \<^verbatim>\<open>NULL\<close> (\<open>iterate\<close>) sees all objects of the array and ends, as long as no null pointer
  was stored; one call more than there are objects is enough.
\<close>

theorem iteration_visits_all:
  assumes "array_wf a" "0 \<notin> set (objects a)" "unat (getCount a) < fuel"
  shows "iterate fuel a initIterator = Some (objects a)"
  using iterate_from [OF assms(1,2), of initIterator fuel] assms(3) by (simp add: initIterator_def getCount_def)

lemma pushObject_room:
  assumes "malloc_ok malloc" "array_wf a" "array_count a + 1 \<le> array_capacity a"
  shows "\<exists>a'. pushObject malloc obj a = Inr (True, a') \<and> array_wf a' \<and> objects a' = objects a @ [obj] \<and>
    array_capacity a' = array_capacity a \<and> array_count a' = array_count a + 1"
  using assms(1,2)
proof (cases rule: pushObject_cases [where obj = obj])
  case full
  then show ?thesis
    using assms(3) by (auto simp: pushObject_def Let_def bindr_Inr_iff)
next
  case (pushed a')
  then have "array_capacity a' = array_capacity a \<and> array_count a' = array_count a + 1"
    using assms(3) by (auto simp: pushObject_def Let_def bindr_Inr_iff array_store_def split: option.splits if_splits)
  then show ?thesis
    using pushed by blast
qed

lemma wit_pushed:
  "\<exists>a a'. pushObject wit_malloc 7 (LiteMutableArray wit_malloc 2) = Inr (True, a) \<and>
     pushObject wit_malloc 9 a = Inr (True, a') \<and> array_wf a' \<and> objects a' = [7, 9]"
proof -
  let ?a = "LiteMutableArray wit_malloc 2"
  have a: "array_wf ?a" "array_count ?a = 0" "array_capacity ?a = 2" "objects ?a = []"
    by (simp_all add: LiteMutableArray_def alloc_def wit_malloc_def array_wf_def objects_def)
  obtain a1 where 1: "pushObject wit_malloc 7 ?a = Inr (True, a1)" "array_wf a1" "objects a1 = [7]"
    "array_capacity a1 = 2" "array_count a1 = 1"
    using pushObject_room [OF wit_malloc_ok a(1), of 7] a by auto
  obtain a2 where "pushObject wit_malloc 9 a1 = Inr (True, a2)" "array_wf a2" "objects a2 = [7, 9]"
    using pushObject_room [OF wit_malloc_ok 1(2), of 9] 1 by auto
  with 1 show ?thesis
    by blast
qed

theorem iteration_visits_all_witness:
  "\<exists>a a'. pushObject wit_malloc 7 (LiteMutableArray wit_malloc 2) = Inr (True, a) \<and>
     pushObject wit_malloc 9 a = Inr (True, a') \<and> iterate 3 a' initIterator = Some [7, 9]"
proof -
  obtain a a' where p: "pushObject wit_malloc 7 (LiteMutableArray wit_malloc 2) = Inr (True, a)"
    "pushObject wit_malloc 9 a = Inr (True, a')" "array_wf a'" "objects a' = [7, 9]"
    using wit_pushed by blast
  moreover have "unat (getCount a') < 3"
    using p(4) length_objects [OF p(3)] by (simp add: getCount_def)
  ultimately show ?thesis
    using iteration_visits_all [of a' 3] by auto
qed

end
