(* ===== verification/Code_Buffer.thy ===== *)
theory Code_Buffer
  imports Lite_Containers
begin

text \<open>
  The code buffers of \<^verbatim>\<open>source/MemoryAllocator/CodeBuffer\<close>: a \<open>lite_buffer\<close> written
  through its cursor (\<^verbatim>\<open>Emit*\<close>) and patched or read at an offset
  (\<^verbatim>\<open>LoadInst\<close>, \<^verbatim>\<open>FixBindLabel\<close>, \<^verbatim>\<open>Rewrite*\<close>). None of the
  \<^verbatim>\<open>Emit*\<close> functions looks at the result of \<^verbatim>\<open>ensureCapacity\<close>; a store beyond the
  block is the fault \<^const>\<open>OutOfBounds\<close> here. The locale \<open>byte_sink\<close> is the contract
  the assemblers rely on: a buffer behaves as a byte list to which the emitters append. Its
  interpretation on the code buffer is what lets the assembler theories keep the buffer as a
  plain byte list.
\<close>

section \<open>Stores and loads through a buffer\<close>

definition write_cursor :: "bytes \<Rightarrow> lite_buffer \<Rightarrow> lite_buffer res" where
  "write_cursor bs b = (case buffer b of
     None \<Rightarrow> Inl NullPointer
   | Some blk \<Rightarrow>
       if buffer_cursor b + length bs \<le> length blk
       then Inr (b\<lparr>buffer := Some (store_bytes blk (buffer_cursor b) bs),
                   buffer_cursor := buffer_cursor b + length bs\<rparr>)
       else Inl OutOfBounds)"

definition write_at :: "nat \<Rightarrow> bytes \<Rightarrow> lite_buffer \<Rightarrow> lite_buffer res" where
  "write_at offset bs b = (case buffer b of
     None \<Rightarrow> Inl NullPointer
   | Some blk \<Rightarrow>
       if offset + length bs \<le> length blk
       then Inr (b\<lparr>buffer := Some (store_bytes blk offset bs)\<rparr>)
       else Inl OutOfBounds)"

definition read_at :: "nat \<Rightarrow> nat \<Rightarrow> lite_buffer \<Rightarrow> bytes res" where
  "read_at offset n b = (case buffer b of
     None \<Rightarrow> Inl NullPointer
   | Some blk \<Rightarrow> if offset + n \<le> length blk then Inr (load_bytes blk offset n) else Inl OutOfBounds)"

section \<open>CodeBufferBase\<close>

definition Emit8 :: "allocator \<Rightarrow> u8 \<Rightarrow> lite_buffer \<Rightarrow> lite_buffer res" where
  "Emit8 malloc v b =
    bindr (ensureCapacity malloc (1 + getSize b) b) (\<lambda>(_, b). write_cursor (le_bytes 1 v) b)"

definition Emit16 :: "allocator \<Rightarrow> u16 \<Rightarrow> lite_buffer \<Rightarrow> lite_buffer res" where
  "Emit16 malloc v b =
    bindr (ensureCapacity malloc (2 + getSize b) b) (\<lambda>(_, b). write_cursor (le_bytes 2 v) b)"

definition Emit32 :: "allocator \<Rightarrow> u32 \<Rightarrow> lite_buffer \<Rightarrow> lite_buffer res" where
  "Emit32 malloc v b =
    bindr (ensureCapacity malloc (4 + getSize b) b) (\<lambda>(_, b). write_cursor (le_bytes 4 v) b)"

definition Emit64 :: "allocator \<Rightarrow> u64 \<Rightarrow> lite_buffer \<Rightarrow> lite_buffer res" where
  "Emit64 malloc v b =
    bindr (ensureCapacity malloc (8 + getSize b) b) (\<lambda>(_, b). write_cursor (le_bytes 8 v) b)"

definition EmitBuffer :: "allocator \<Rightarrow> bytes \<Rightarrow> lite_buffer \<Rightarrow> lite_buffer res" where
  "EmitBuffer malloc bs b =
    bindr (ensureCapacity malloc (word_of_nat (length bs) + getSize b) b) (\<lambda>(_, b). write_cursor bs b)"

definition CodeBufferBase :: "allocator \<Rightarrow> u32 \<Rightarrow> lite_buffer" where
  "CodeBufferBase malloc sz =
    snd (initWithCapacity malloc sz \<lparr>buffer = None, buffer_cursor = 0, buffer_capacity = 0\<rparr>)"

definition Copy :: "allocator \<Rightarrow> lite_buffer \<Rightarrow> lite_buffer res" where
  "Copy malloc b =
    bindr (read_at 0 (unat (getSize b)) b)
      (\<lambda>bs. EmitBuffer malloc bs (CodeBufferBase malloc (getCapacity b)))"

section \<open>The per-architecture code buffers\<close>

text \<open>\<^verbatim>\<open>code-buffer-arm64.cc\<close>\<close>

definition LoadInst :: "nat \<Rightarrow> lite_buffer \<Rightarrow> u32 res" where
  "LoadInst offset b = bindr (read_at offset 4 b) (\<lambda>bs. Inr (le_word bs))"

definition FixBindLabel :: "nat \<Rightarrow> u32 \<Rightarrow> lite_buffer \<Rightarrow> lite_buffer res" where
  "FixBindLabel offset instr b = write_at offset (le_bytes 4 instr) b"

definition EmitInst :: "allocator \<Rightarrow> u32 \<Rightarrow> lite_buffer \<Rightarrow> lite_buffer res" where
  "EmitInst malloc instr b =
    bindr (ensureCapacity malloc (getSize b + 4) b) (\<lambda>(_, b). write_cursor (le_bytes 4 instr) b)"

definition arm64_Emit64 :: "allocator \<Rightarrow> u64 \<Rightarrow> lite_buffer \<Rightarrow> lite_buffer res" where
  "arm64_Emit64 malloc data b =
    bindr (ensureCapacity malloc (getSize b + 8) b) (\<lambda>(_, b). write_cursor (le_bytes 8 data) b)"

text \<open>\<^verbatim>\<open>code-buffer-arm.cc\<close>: ARM and Thumb-2 instructions are 4 bytes, Thumb-1 ones 2.\<close>

definition LoadARMInst :: "nat \<Rightarrow> lite_buffer \<Rightarrow> u32 res" where
  "LoadARMInst offset b = bindr (read_at offset 4 b) (\<lambda>bs. Inr (le_word bs))"

definition LoadThumb1Inst :: "nat \<Rightarrow> lite_buffer \<Rightarrow> u16 res" where
  "LoadThumb1Inst offset b = bindr (read_at offset 2 b) (\<lambda>bs. Inr (le_word bs))"

definition LoadThumb2Inst :: "nat \<Rightarrow> lite_buffer \<Rightarrow> u32 res" where
  "LoadThumb2Inst offset b = bindr (read_at offset 4 b) (\<lambda>bs. Inr (le_word bs))"

definition RewriteAddr :: "nat \<Rightarrow> u32 \<Rightarrow> lite_buffer \<Rightarrow> lite_buffer res" where
  "RewriteAddr offset a b = write_at offset (le_bytes 4 a) b"

definition RewriteARMInst :: "nat \<Rightarrow> u32 \<Rightarrow> lite_buffer \<Rightarrow> lite_buffer res" where
  "RewriteARMInst offset instr b = write_at offset (le_bytes 4 instr) b"

definition RewriteThumb1Inst :: "nat \<Rightarrow> u16 \<Rightarrow> lite_buffer \<Rightarrow> lite_buffer res" where
  "RewriteThumb1Inst offset instr b = write_at offset (le_bytes 2 instr) b"

definition RewriteThumb2Inst :: "nat \<Rightarrow> u32 \<Rightarrow> lite_buffer \<Rightarrow> lite_buffer res" where
  "RewriteThumb2Inst offset instr b = write_at offset (le_bytes 4 instr) b"

definition EmitARMInst :: "allocator \<Rightarrow> u32 \<Rightarrow> lite_buffer \<Rightarrow> lite_buffer res" where
  "EmitARMInst malloc instr b =
    bindr (ensureCapacity malloc (getSize b + 4) b) (\<lambda>(_, b). write_cursor (le_bytes 4 instr) b)"

definition EmitThumb1Inst :: "allocator \<Rightarrow> u16 \<Rightarrow> lite_buffer \<Rightarrow> lite_buffer res" where
  "EmitThumb1Inst malloc instr b =
    bindr (ensureCapacity malloc (getSize b + 2) b) (\<lambda>(_, b). write_cursor (le_bytes 2 instr) b)"

definition EmitThumb2Inst :: "allocator \<Rightarrow> u32 \<Rightarrow> lite_buffer \<Rightarrow> lite_buffer res" where
  "EmitThumb2Inst malloc instr b =
    bindr (ensureCapacity malloc (getSize b + 4) b) (\<lambda>(_, b). write_cursor (le_bytes 4 instr) b)"

section \<open>Emitting appends\<close>

lemma write_cursor_ok:
  assumes "buffer_wf b" "buffer_cursor b + length bs \<le> unat (buffer_capacity b)"
  obtains b' where "write_cursor bs b = Inr b'" "buffer_wf b'" "content b' = content b @ bs"
    "buffer_capacity b' = buffer_capacity b"
proof -
  obtain blk where blk: "buffer b = Some blk" "length blk = unat (buffer_capacity b)"
    "buffer_cursor b \<le> length blk" "length blk < 2 ^ 31"
    using assms(1) by (elim buffer_wfE)
  show thesis
    using blk assms(2)
    by (intro that [of "b\<lparr>buffer := Some (store_bytes blk (buffer_cursor b) bs),
                        buffer_cursor := buffer_cursor b + length bs\<rparr>"])
      (auto simp: write_cursor_def buffer_wf_def content_def store_bytes_def)
qed

text \<open>
  \<open>emit\<close> is the common shape of the emitters. It appends the bytes, except that a failed
  allocation is not noticed and the store runs past the block.
\<close>

definition emit :: "allocator \<Rightarrow> bytes \<Rightarrow> lite_buffer \<Rightarrow> lite_buffer res" where
  "emit malloc bs b =
    bindr (ensureCapacity malloc (word_of_nat (length bs) + getSize b) b) (\<lambda>(_, b). write_cursor bs b)"

lemma emitters:
  "Emit8 malloc v1 b = emit malloc (le_bytes 1 v1) b"
  "Emit16 malloc v2 b = emit malloc (le_bytes 2 v2) b"
  "Emit32 malloc v4 b = emit malloc (le_bytes 4 v4) b"
  "Emit64 malloc v8 b = emit malloc (le_bytes 8 v8) b"
  "EmitBuffer malloc bs b = emit malloc bs b"
  "EmitInst malloc v4 b = emit malloc (le_bytes 4 v4) b"
  "arm64_Emit64 malloc v8 b = emit malloc (le_bytes 8 v8) b"
  "EmitARMInst malloc v4 b = emit malloc (le_bytes 4 v4) b"
  "EmitThumb1Inst malloc v2 b = emit malloc (le_bytes 2 v2) b"
  "EmitThumb2Inst malloc v4 b = emit malloc (le_bytes 4 v4) b"
  by (simp_all add: emit_def Emit8_def Emit16_def Emit32_def Emit64_def EmitBuffer_def EmitInst_def
      arm64_Emit64_def EmitARMInst_def EmitThumb1Inst_def EmitThumb2Inst_def add.commute)

lemma emit_cases:
  assumes "malloc_ok malloc" "buffer_wf b" "length bs \<le> 2 ^ 29"
  obtains
    (ok) b' where "emit malloc bs b = Inr b'" "buffer_wf b'" "content b' = content b @ bs"
  | (nomem) n where "emit malloc bs b = Inl OutOfBounds" "alloc malloc n = None"
      "unat n \<le> 2 * (length (content b) + length bs)"
proof -
  define n :: u32 where "n = word_of_nat (length bs) + getSize b"
  have cur: "buffer_cursor b < 2 ^ 31" and size: "unat (getSize b) = buffer_cursor b"
    using assms(2) unat_getSize by (auto elim: buffer_wfE)
  have n: "unat n = length bs + buffer_cursor b"
    using cur size assms(3) by (simp add: n_def unat_word_ariths unat_of_nat take_bit_nat_eq_self)
  then have "unat n + unat n div 2 < 2 ^ 32"
    using cur assms(3) by simp
  with assms(1,2) show thesis
  proof (cases rule: ensureCapacity_cases)
    case fail
    have "write_cursor bs b = Inl OutOfBounds"
      using assms(2) fail(2) n by (elim buffer_wfE) (simp add: write_cursor_def word_less_nat_alt)
    moreover have "unat (n + n div 2) \<le> 2 * (length (content b) + length bs)"
      using n cur assms(3) by (simp add: length_content [OF assms(2)] unat_word_ariths unat_div)
    ultimately show thesis
      using fail(1,3) by (intro nomem) (auto simp: emit_def n_def)
  next
    case (ok r b')
    have "buffer_cursor b' + length bs \<le> unat (buffer_capacity b')"
      using ok(2,5) n by (simp add: word_le_nat_alt)
    with ok(3) obtain b'' where "write_cursor bs b' = Inr b''" "buffer_wf b''"
      "content b'' = content b' @ bs"
      by (rule write_cursor_ok)
    with ok show thesis
      by (intro that(1)) (auto simp: emit_def n_def)
  qed
qed

lemma write_at_ok:
  assumes "buffer_wf b" "offset + length bs \<le> length (content b)"
  obtains b' where "write_at offset bs b = Inr b'" "buffer_wf b'"
    "content b' = store_bytes (content b) offset bs"
proof -
  obtain blk where blk: "buffer b = Some blk" "length blk = unat (buffer_capacity b)"
    "buffer_cursor b \<le> length blk" "length blk < 2 ^ 31"
    using assms(1) by (elim buffer_wfE)
  then have "take (buffer_cursor b) (store_bytes blk offset bs) = store_bytes (take (buffer_cursor b) blk) offset bs"
    using assms(2) length_content [OF assms(1)] by (intro take_store_bytes) simp_all
  with blk show thesis
    using assms(2) length_content [OF assms(1)]
    by (intro that [of "b\<lparr>buffer := Some (store_bytes blk offset bs)\<rparr>"])
      (auto simp: write_at_def buffer_wf_def content_def)
qed

lemma read_at_ok:
  assumes "buffer_wf b" "offset + n \<le> length (content b)"
  shows "read_at offset n b = Inr (load_bytes (content b) offset n)"
  using assms length_content [OF assms(1)]
  by (elim buffer_wfE) (simp add: read_at_def content_def load_bytes_def drop_take min_def)

section \<open>The contract of a code buffer\<close>

text \<open>
  A byte sink holds a byte list up to a capacity \<open>room\<close>; emitting appends, patching
  overwrites in place, reading returns what the list has there. \<open>run\<close> executes a script of
  emits and patches on the sink, \<open>replay\<close> on the list.
\<close>

datatype sink_op = Append bytes | Patch nat bytes

fun replay :: "sink_op list \<Rightarrow> bytes \<Rightarrow> bytes" where
  "replay [] xs = xs"
| "replay (Append bs # ops) xs = replay ops (xs @ bs)"
| "replay (Patch off bs # ops) xs = replay ops (store_bytes xs off bs)"

fun script_ok :: "nat \<Rightarrow> sink_op list \<Rightarrow> nat \<Rightarrow> bool" where
  "script_ok room [] n = (n \<le> room)"
| "script_ok room (Append bs # ops) n = script_ok room ops (n + length bs)"
| "script_ok room (Patch off bs # ops) n = (off + length bs \<le> n \<and> script_ok room ops n)"

lemma script_ok_room: "script_ok room ops n \<Longrightarrow> n \<le> room"
  by (induction room ops n rule: script_ok.induct) auto

locale byte_sink =
  fixes inv :: "'s \<Rightarrow> bool"
    and view :: "'s \<Rightarrow> bytes"
    and put :: "bytes \<Rightarrow> 's \<Rightarrow> 's res"
    and poke :: "nat \<Rightarrow> bytes \<Rightarrow> 's \<Rightarrow> 's res"
    and peek :: "nat \<Rightarrow> nat \<Rightarrow> 's \<Rightarrow> bytes res"
    and room :: nat
  assumes put_view: "inv s \<Longrightarrow> length (view s) + length bs \<le> room \<Longrightarrow>
      \<exists>s'. put bs s = Inr s' \<and> inv s' \<and> view s' = view s @ bs"
    and poke_view: "inv s \<Longrightarrow> off + length bs \<le> length (view s) \<Longrightarrow>
      \<exists>s'. poke off bs s = Inr s' \<and> inv s' \<and> view s' = store_bytes (view s) off bs"
    and peek_view: "inv s \<Longrightarrow> off + n \<le> length (view s) \<Longrightarrow>
      peek off n s = Inr (load_bytes (view s) off n)"
begin

fun exec_op :: "sink_op \<Rightarrow> 's \<Rightarrow> 's res" where
  "exec_op (Append bs) s = put bs s"
| "exec_op (Patch off bs) s = poke off bs s"

fun run :: "sink_op list \<Rightarrow> 's \<Rightarrow> 's res" where
  "run [] s = Inr s"
| "run (x # xs) s = bindr (exec_op x s) (run xs)"

lemma run_refines:
  assumes "inv s" "script_ok room ops (length (view s))"
  shows "\<exists>s'. run ops s = Inr s' \<and> inv s' \<and> view s' = replay ops (view s)"
  using assms
proof (induction ops arbitrary: s)
  case Nil
  then show ?case by simp
next
  case (Cons x xs)
  show ?case
  proof (cases x)
    case (Append bs)
    with Cons.prems(2) have "script_ok room xs (length (view s) + length bs)"
      by simp
    moreover from script_ok_room [OF this] obtain s' where
      "put bs s = Inr s'" "inv s'" "view s' = view s @ bs"
      using put_view [OF Cons.prems(1)] by blast
    ultimately show ?thesis
      using Cons.IH [of s'] Append by simp
  next
    case (Patch off bs)
    with Cons.prems(2) have ok: "off + length bs \<le> length (view s)" "script_ok room xs (length (view s))"
      by simp_all
    obtain s' where "poke off bs s = Inr s'" "inv s'" "view s' = store_bytes (view s) off bs"
      using poke_view [OF Cons.prems(1) ok(1)] by blast
    with ok show ?thesis
      using Cons.IH [of s'] Patch by simp
  qed
qed

lemma peek_after_put:
  assumes "inv s" "length (view s) + length bs \<le> room"
  shows "bindr (put bs s) (peek (length (view s)) (length bs)) = Inr bs"
  using put_view [OF assms] by (auto simp: peek_view load_bytes_def)

end

text \<open>
  The code buffer is a byte sink as long as \<^verbatim>\<open>malloc\<close> delivers blocks of up to 2 GiB:
  the state pairs the allocator with the buffer.
\<close>

definition malloc_supplies :: "allocator \<Rightarrow> bool" where
  "malloc_supplies malloc \<longleftrightarrow> malloc_ok malloc \<and> (\<forall>n. unat n < 2 ^ 31 \<longrightarrow> malloc n \<noteq> None)"

definition sink_inv :: "allocator \<times> lite_buffer \<Rightarrow> bool" where
  "sink_inv s \<longleftrightarrow> malloc_supplies (fst s) \<and> buffer_wf (snd s)"

definition sink_put :: "bytes \<Rightarrow> allocator \<times> lite_buffer \<Rightarrow> (allocator \<times> lite_buffer) res" where
  "sink_put bs s = bindr (EmitBuffer (fst s) bs (snd s)) (\<lambda>b. Inr (fst s, b))"

definition sink_poke :: "nat \<Rightarrow> bytes \<Rightarrow> allocator \<times> lite_buffer \<Rightarrow> (allocator \<times> lite_buffer) res" where
  "sink_poke off bs s = bindr (write_at off bs (snd s)) (\<lambda>b. Inr (fst s, b))"

interpretation code_sink: byte_sink sink_inv "\<lambda>s. content (snd s)" sink_put sink_poke
  "\<lambda>off n s. read_at off n (snd s)" "2 ^ 29"
proof unfold_locales
  fix s :: "allocator \<times> lite_buffer" and bs :: bytes
  assume inv: "sink_inv s" and len: "length (content (snd s)) + length bs \<le> 2 ^ 29"
  then have m: "malloc_ok (fst s)" and supplies: "\<And>n. unat n < 2 ^ 31 \<Longrightarrow> fst s n \<noteq> None"
    and wf: "buffer_wf (snd s)"
    by (auto simp: sink_inv_def malloc_supplies_def)
  have "length bs \<le> 2 ^ 29"
    using len by simp
  with m wf show "\<exists>s'. sink_put bs s = Inr s' \<and> sink_inv s' \<and> content (snd s') = content (snd s) @ bs"
  proof (cases rule: emit_cases)
    case (ok b')
    with inv show ?thesis
      by (auto simp: sink_put_def emitters sink_inv_def)
  next
    case (nomem n)
    then have "unat n < 2 ^ 31"
      using len by simp
    then have False
      using nomem(2) supplies [of "scast n"] scast_small [of n] by (auto simp: alloc_def)
    then show ?thesis ..
  qed
next
  fix s :: "allocator \<times> lite_buffer" and off and bs :: bytes
  assume "sink_inv s" "off + length bs \<le> length (content (snd s))"
  then show "\<exists>s'. sink_poke off bs s = Inr s' \<and> sink_inv s' \<and>
      content (snd s') = store_bytes (content (snd s)) off bs"
    using write_at_ok [of "snd s" off bs] by (fastforce simp: sink_poke_def sink_inv_def)
next
  fix s :: "allocator \<times> lite_buffer" and off n
  assume "sink_inv s" "off + n \<le> length (content (snd s))"
  then show "read_at off n (snd s) = Inr (load_bytes (content (snd s)) off n)"
    by (simp add: sink_inv_def read_at_ok)
qed

section \<open>Properties\<close>

text \<open>
  The operations of the code buffers as a client calls them, and a script of such calls.
  \<open>exec_buffer_op\<close> runs the operation of the code; \<open>list_op\<close> says what it means for a
  byte list, where an overwrite outside the list is not allowed; \<open>op_view\<close> places it in the
  contract.
\<close>

datatype buffer_op =
    Do_Emit8 u8 | Do_Emit16 u16 | Do_Emit32 u32 | Do_Emit64 u64 | Do_EmitBuffer bytes
  | Do_EmitInst u32 | Do_arm64_Emit64 u64
  | Do_EmitARMInst u32 | Do_EmitThumb1Inst u16 | Do_EmitThumb2Inst u32
  | Do_FixBindLabel nat u32 | Do_RewriteAddr nat u32
  | Do_RewriteARMInst nat u32 | Do_RewriteThumb1Inst nat u16 | Do_RewriteThumb2Inst nat u32

fun exec_buffer_op :: "allocator \<Rightarrow> buffer_op \<Rightarrow> lite_buffer \<Rightarrow> lite_buffer res" where
  "exec_buffer_op malloc (Do_Emit8 v) b = Emit8 malloc v b"
| "exec_buffer_op malloc (Do_Emit16 v) b = Emit16 malloc v b"
| "exec_buffer_op malloc (Do_Emit32 v) b = Emit32 malloc v b"
| "exec_buffer_op malloc (Do_Emit64 v) b = Emit64 malloc v b"
| "exec_buffer_op malloc (Do_EmitBuffer bs) b = EmitBuffer malloc bs b"
| "exec_buffer_op malloc (Do_EmitInst v) b = EmitInst malloc v b"
| "exec_buffer_op malloc (Do_arm64_Emit64 v) b = arm64_Emit64 malloc v b"
| "exec_buffer_op malloc (Do_EmitARMInst v) b = EmitARMInst malloc v b"
| "exec_buffer_op malloc (Do_EmitThumb1Inst v) b = EmitThumb1Inst malloc v b"
| "exec_buffer_op malloc (Do_EmitThumb2Inst v) b = EmitThumb2Inst malloc v b"
| "exec_buffer_op malloc (Do_FixBindLabel off v) b = FixBindLabel off v b"
| "exec_buffer_op malloc (Do_RewriteAddr off v) b = RewriteAddr off v b"
| "exec_buffer_op malloc (Do_RewriteARMInst off v) b = RewriteARMInst off v b"
| "exec_buffer_op malloc (Do_RewriteThumb1Inst off v) b = RewriteThumb1Inst off v b"
| "exec_buffer_op malloc (Do_RewriteThumb2Inst off v) b = RewriteThumb2Inst off v b"

fun run_buffer :: "allocator \<Rightarrow> buffer_op list \<Rightarrow> lite_buffer \<Rightarrow> lite_buffer res" where
  "run_buffer malloc [] b = Inr b"
| "run_buffer malloc (x # xs) b = bindr (exec_buffer_op malloc x b) (run_buffer malloc xs)"

definition overwrite :: "nat \<Rightarrow> bytes \<Rightarrow> bytes \<Rightarrow> bytes option" where
  "overwrite off bs xs =
    (if off + length bs \<le> length xs then Some (take off xs @ bs @ drop (off + length bs) xs) else None)"

fun list_op :: "buffer_op \<Rightarrow> bytes \<Rightarrow> bytes option" where
  "list_op (Do_Emit8 v) xs = Some (xs @ [v])"
| "list_op (Do_Emit16 v) xs = Some (xs @ le_bytes 2 v)"
| "list_op (Do_Emit32 v) xs = Some (xs @ le_bytes 4 v)"
| "list_op (Do_Emit64 v) xs = Some (xs @ le_bytes 8 v)"
| "list_op (Do_EmitBuffer bs) xs = Some (xs @ bs)"
| "list_op (Do_EmitInst v) xs = Some (xs @ le_bytes 4 v)"
| "list_op (Do_arm64_Emit64 v) xs = Some (xs @ le_bytes 8 v)"
| "list_op (Do_EmitARMInst v) xs = Some (xs @ le_bytes 4 v)"
| "list_op (Do_EmitThumb1Inst v) xs = Some (xs @ le_bytes 2 v)"
| "list_op (Do_EmitThumb2Inst v) xs = Some (xs @ le_bytes 4 v)"
| "list_op (Do_FixBindLabel off v) xs = overwrite off (le_bytes 4 v) xs"
| "list_op (Do_RewriteAddr off v) xs = overwrite off (le_bytes 4 v) xs"
| "list_op (Do_RewriteARMInst off v) xs = overwrite off (le_bytes 4 v) xs"
| "list_op (Do_RewriteThumb1Inst off v) xs = overwrite off (le_bytes 2 v) xs"
| "list_op (Do_RewriteThumb2Inst off v) xs = overwrite off (le_bytes 4 v) xs"

fun run_list :: "buffer_op list \<Rightarrow> bytes \<Rightarrow> bytes option" where
  "run_list [] xs = Some xs"
| "run_list (x # ops) xs = Option.bind (list_op x xs) (run_list ops)"

fun op_view :: "buffer_op \<Rightarrow> sink_op" where
  "op_view (Do_Emit8 v) = Append (le_bytes 1 v)"
| "op_view (Do_Emit16 v) = Append (le_bytes 2 v)"
| "op_view (Do_Emit32 v) = Append (le_bytes 4 v)"
| "op_view (Do_Emit64 v) = Append (le_bytes 8 v)"
| "op_view (Do_EmitBuffer bs) = Append bs"
| "op_view (Do_EmitInst v) = Append (le_bytes 4 v)"
| "op_view (Do_arm64_Emit64 v) = Append (le_bytes 8 v)"
| "op_view (Do_EmitARMInst v) = Append (le_bytes 4 v)"
| "op_view (Do_EmitThumb1Inst v) = Append (le_bytes 2 v)"
| "op_view (Do_EmitThumb2Inst v) = Append (le_bytes 4 v)"
| "op_view (Do_FixBindLabel off v) = Patch off (le_bytes 4 v)"
| "op_view (Do_RewriteAddr off v) = Patch off (le_bytes 4 v)"
| "op_view (Do_RewriteARMInst off v) = Patch off (le_bytes 4 v)"
| "op_view (Do_RewriteThumb1Inst off v) = Patch off (le_bytes 2 v)"
| "op_view (Do_RewriteThumb2Inst off v) = Patch off (le_bytes 4 v)"

lemmas patchers = FixBindLabel_def RewriteAddr_def RewriteARMInst_def RewriteThumb1Inst_def RewriteThumb2Inst_def

lemma exec_buffer_op_view:
  "code_sink.exec_op (op_view x) (malloc, b) = bindr (exec_buffer_op malloc x b) (\<lambda>b. Inr (malloc, b))"
  by (cases x) (simp_all add: sink_put_def sink_poke_def emitters patchers)

lemma run_buffer_view:
  "code_sink.run (map op_view ops) (malloc, b) = bindr (run_buffer malloc ops b) (\<lambda>b. Inr (malloc, b))"
proof (induction ops arbitrary: b)
  case (Cons x xs)
  then show ?case by (cases "exec_buffer_op malloc x b") (simp_all add: exec_buffer_op_view)
qed simp

lemma overwrite_Some:
  "overwrite off bs xs = Some ys \<longleftrightarrow> off + length bs \<le> length xs \<and> ys = store_bytes xs off bs"
  by (auto simp: overwrite_def store_bytes_def)

lemma le_bytes_one: "le_bytes 1 (v :: u8) = [v]"
  by (simp add: le_bytes_Suc [of 0, simplified])

lemma list_op_alt:
  "list_op x xs = (case op_view x of Append bs \<Rightarrow> Some (xs @ bs) | Patch off bs \<Rightarrow> overwrite off bs xs)"
  by (cases x) (simp_all add: le_bytes_one [simplified])

lemma list_op_view:
  assumes "list_op x xs = Some ys"
  shows "replay (op_view x # ops) xs = replay ops ys" "length xs \<le> length ys"
    "script_ok room (op_view x # ops) (length xs) = script_ok room ops (length ys)"
  using assms by (auto simp: list_op_alt overwrite_Some split: sink_op.splits)

lemma run_list_length: "run_list ops xs = Some ys \<Longrightarrow> length xs \<le> length ys"
  using list_op_view(2) by (induction ops arbitrary: xs) (force simp: bind_eq_Some_conv)+

lemma run_list_view:
  assumes "run_list ops xs = Some ys"
  shows "replay (map op_view ops) xs = ys" "length ys \<le> room \<Longrightarrow> script_ok room (map op_view ops) (length xs)"
  using assms
proof (induction ops arbitrary: xs)
  case (Cons x ops)
  { case 1 then show ?case using Cons.IH(1) by (auto simp: bind_eq_Some_conv list_op_view(1) simp del: replay.simps) }
  { case 2 then show ?case using Cons.IH(2) by (auto simp: bind_eq_Some_conv list_op_view(3) simp del: script_ok.simps) }
qed simp_all

text \<open>
  C11. A code buffer behaves as a byte list: any script of calls of the emitters and of the
  functions that overwrite an instruction or an address, those of the base class and of the
  arm64 and arm buffers alike, runs without a fault on the growing buffer when no overwrite is
  outside the bytes emitted so far, and leaves exactly the bytes the script leaves on a list;
  \<^verbatim>\<open>getSize\<close> is their number and \<^verbatim>\<open>LoadInst\<close> reads them back. This holds as long as the
  allocator delivers and the total stays within 512 MiB.
\<close>

theorem code_buffer_refines_list:
  assumes "malloc_supplies malloc" "buffer_wf b" "run_list ops (content b) = Some xs" "length xs \<le> 2 ^ 29"
  shows "\<exists>b'. run_buffer malloc ops b = Inr b' \<and> buffer_wf b' \<and> content b' = xs \<and> unat (getSize b') = length xs \<and>
    (\<forall>off. off + 4 \<le> length xs \<longrightarrow> LoadInst off b' = Inr (le_word (take 4 (drop off xs))))"
proof -
  have "script_ok (2 ^ 29) (map op_view ops) (length (content b))"
    using run_list_view(2) [OF assms(3,4)] .
  then obtain m' b' where run: "code_sink.run (map op_view ops) (malloc, b) = Inr (m', b')"
    "buffer_wf b'" "content b' = xs"
    using code_sink.run_refines [of "(malloc, b)" "map op_view ops"] assms run_list_view(1) [OF assms(3)]
    by (auto simp: sink_inv_def)
  then have "run_buffer malloc ops b = Inr b'"
    by (auto simp: run_buffer_view bindr_Inr_iff)
  moreover have "unat (getSize b') = length xs"
    using run(2,3) unat_getSize [OF run(2)] length_content [OF run(2)] by simp
  ultimately show ?thesis
    using run(2,3) read_at_ok [OF run(2)] by (auto simp: LoadInst_def load_bytes_def)
qed

lemma wit_malloc_supplies: "malloc_supplies wit_malloc"
  using wit_malloc_ok by (auto simp: malloc_supplies_def wit_malloc_def)

lemma wit_buffer: "buffer_wf (CodeBufferBase wit_malloc 8)" "content (CodeBufferBase wit_malloc 8) = []"
  by (simp_all add: CodeBufferBase_def initWithCapacity_def alloc_def wit_malloc_def buffer_wf_def content_def)

theorem code_buffer_refines_list_witness:
  "\<exists>b'. run_buffer wit_malloc [Do_Emit8 1, Do_EmitInst 0xD503201F, Do_Emit64 7, Do_FixBindLabel 1 0x14000002, Do_RewriteThumb1Inst 5 0xBF00]
      (CodeBufferBase wit_malloc 8) = Inr b' \<and>
     content b' = [1, 2, 0, 0, 0x14, 0, 0xBF, 0, 0, 0, 0, 0, 0] \<and> LoadInst 1 b' = Inr 0x14000002"
  using code_buffer_refines_list [OF wit_malloc_supplies wit_buffer(1),
    of "[Do_Emit8 1, Do_EmitInst 0xD503201F, Do_Emit64 7, Do_FixBindLabel 1 0x14000002, Do_RewriteThumb1Inst 5 0xBF00]"
      "[1, 2, 0, 0, 0x14, 0, 0xBF, 0, 0, 0, 0, 0, 0]"]
  by (auto simp: wit_buffer(2) overwrite_def le_bytes_def byte_of_def upt_rec push_bit_eq_mult)

text \<open>
  \<^verbatim>\<open>EmitInst\<close> appends the four little-endian bytes of the instruction; the only fault
  it can have is a store past the end of the block, and that happens only when
  \<^verbatim>\<open>ensureCapacity\<close> could not allocate, a failure the function does not look at.
\<close>

theorem EmitInst_appends_or_no_memory:
  assumes "malloc_ok malloc" "buffer_wf b"
  shows "(\<exists>b'. EmitInst malloc instr b = Inr b' \<and> buffer_wf b' \<and> content b' = content b @ le_bytes 4 instr) \<or>
    EmitInst malloc instr b = Inl OutOfBounds \<and> (\<exists>n. alloc malloc n = None \<and> unat n \<le> 2 * (length (content b) + 4))"
proof -
  have "length (le_bytes 4 instr) \<le> 2 ^ 29"
    by simp
  with assms show ?thesis
  proof (cases rule: emit_cases)
    case (ok b')
    then show ?thesis
      by (simp add: emitters)
  next
    case (nomem n)
    then show ?thesis
      by (auto simp: emitters)
  qed
qed

theorem EmitInst_appends_or_no_memory_witness:
  "(\<exists>b'. EmitInst wit_malloc 0xD503201F (CodeBufferBase wit_malloc 8) = Inr b' \<and> buffer_wf b' \<and>
      content b' = le_bytes 4 (0xD503201F :: u32)) \<or>
    EmitInst wit_malloc 0xD503201F (CodeBufferBase wit_malloc 8) = Inl OutOfBounds"
  using EmitInst_appends_or_no_memory [OF wit_malloc_ok wit_buffer(1), of "0xD503201F"] by (auto simp: wit_buffer(2))

end
