(* ===== verification/X86_Opcode_Map.thy ===== *)
theory X86_Opcode_Map
  imports Dobby_Prelude
begin

text \<open>
  The opcode tables of the x86 instruction decoder: the types, macros and flag encodings of
  \<^verbatim>\<open>x86_insn_decode.h\<close> and of the head of \<^verbatim>\<open>x86_insn_decode.c\<close>, the one-byte and two-byte
  maps (\<^verbatim>\<open>x86_opcode_one_byte.c\<close>, \<^verbatim>\<open>x86_opcode_two_byte.c\<close>), the groups selected by the
  \<^verbatim>\<open>reg\<close> field of the ModRM byte (\<^verbatim>\<open>x86_opcode_modrm_reg_group.c\<close>) and the three SSE group
  tables (\<^verbatim>\<open>x86_opcode_sse_group.c\<close>). Each row of sixteen entries of a map and each group of
  eight is one definition. The lemmas at the end say that the tables are complete and consistent
  with the lookups the decoder performs, and which opcodes take a ModRM byte.
\<close>

section \<open>Specifications and the macros that build them\<close>

text \<open>
  \<^verbatim>\<open>x86_insn_operand_spec_t\<close> is a two-character code: the first character (\<^verbatim>\<open>code\<close>) is the
  addressing method, the second (\<^verbatim>\<open>type\<close>) the operand type. The operands of an instruction
  are an array of three; unused ones hold two underscores.
\<close>

record x86_insn_spec =
  spec_name :: string
  spec_operands :: "(char \<times> char) list"
  spec_flags :: u16

definition X86_INSN_SPEC_DEFAULT_64_BIT :: u16 where "X86_INSN_SPEC_DEFAULT_64_BIT = 1"

fun operand_spec :: "string \<Rightarrow> char \<times> char" where
  "operand_spec (c # t # _) = (c, t)"
| "operand_spec cs = (CHR 0x00, CHR 0x00)"

definition op3f :: "string \<Rightarrow> u16 \<Rightarrow> string \<Rightarrow> string \<Rightarrow> string \<Rightarrow> x86_insn_spec" where
  "op3f x f o0 o1 o2 =
    \<lparr>spec_name = x, spec_operands = [operand_spec o0, operand_spec o1, operand_spec o2], spec_flags = f\<rparr>"

definition op2f :: "string \<Rightarrow> u16 \<Rightarrow> string \<Rightarrow> string \<Rightarrow> x86_insn_spec" where
  "op2f x f o0 o1 = op3f x f o0 o1 ''__''"

definition op1f :: "string \<Rightarrow> u16 \<Rightarrow> string \<Rightarrow> x86_insn_spec" where
  "op1f x f o0 = op2f x f o0 ''__''"

definition op0f :: "string \<Rightarrow> u16 \<Rightarrow> x86_insn_spec" where
  "op0f x f = op1f x f ''__''"

definition op3 :: "string \<Rightarrow> string \<Rightarrow> string \<Rightarrow> string \<Rightarrow> x86_insn_spec" where
  "op3 x o0 o1 o2 = op3f x 0 o0 o1 o2"

definition op2 :: "string \<Rightarrow> string \<Rightarrow> string \<Rightarrow> x86_insn_spec" where
  "op2 x o0 o1 = op2f x 0 o0 o1"

definition op1 :: "string \<Rightarrow> string \<Rightarrow> x86_insn_spec" where
  "op1 x o0 = op1f x 0 o0"

definition op0 :: "string \<Rightarrow> x86_insn_spec" where
  "op0 x = op0f x 0"

section \<open>Groups and flags\<close>

datatype x86_insn_group =
  MODRM_REG_GROUP_1 | MODRM_REG_GROUP_1a | MODRM_REG_GROUP_2 | MODRM_REG_GROUP_3
  | MODRM_REG_GROUP_4 | MODRM_REG_GROUP_5 | MODRM_REG_GROUP_6 | MODRM_REG_GROUP_7
  | MODRM_REG_GROUP_8 | MODRM_REG_GROUP_9 | MODRM_REG_GROUP_10 | MODRM_REG_GROUP_11
  | MODRM_REG_GROUP_12 | MODRM_REG_GROUP_13 | MODRM_REG_GROUP_14 | MODRM_REG_GROUP_15
  | MODRM_REG_GROUP_16 | MODRM_REG_GROUP_p | SSE_GROUP_10 | SSE_GROUP_28
  | SSE_GROUP_50 | SSE_GROUP_58 | SSE_GROUP_60 | SSE_GROUP_68
  | SSE_GROUP_70 | SSE_GROUP_78 | SSE_GROUP_c0 | SSE_GROUP_d0
  | SSE_GROUP_d8 | SSE_GROUP_e0 | SSE_GROUP_e8 | SSE_GROUP_f0
  | SSE_GROUP_f8

fun group_value :: "x86_insn_group \<Rightarrow> nat" where
  "group_value MODRM_REG_GROUP_1 = 1"
| "group_value MODRM_REG_GROUP_1a = 2"
| "group_value MODRM_REG_GROUP_2 = 3"
| "group_value MODRM_REG_GROUP_3 = 4"
| "group_value MODRM_REG_GROUP_4 = 5"
| "group_value MODRM_REG_GROUP_5 = 6"
| "group_value MODRM_REG_GROUP_6 = 7"
| "group_value MODRM_REG_GROUP_7 = 8"
| "group_value MODRM_REG_GROUP_8 = 9"
| "group_value MODRM_REG_GROUP_9 = 10"
| "group_value MODRM_REG_GROUP_10 = 11"
| "group_value MODRM_REG_GROUP_11 = 12"
| "group_value MODRM_REG_GROUP_12 = 13"
| "group_value MODRM_REG_GROUP_13 = 14"
| "group_value MODRM_REG_GROUP_14 = 15"
| "group_value MODRM_REG_GROUP_15 = 16"
| "group_value MODRM_REG_GROUP_16 = 17"
| "group_value MODRM_REG_GROUP_p = 18"
| "group_value SSE_GROUP_10 = 20"
| "group_value SSE_GROUP_28 = 21"
| "group_value SSE_GROUP_50 = 22"
| "group_value SSE_GROUP_58 = 23"
| "group_value SSE_GROUP_60 = 24"
| "group_value SSE_GROUP_68 = 25"
| "group_value SSE_GROUP_70 = 26"
| "group_value SSE_GROUP_78 = 27"
| "group_value SSE_GROUP_c0 = 28"
| "group_value SSE_GROUP_d0 = 29"
| "group_value SSE_GROUP_d8 = 30"
| "group_value SSE_GROUP_e0 = 31"
| "group_value SSE_GROUP_e8 = 32"
| "group_value SSE_GROUP_f0 = 33"
| "group_value SSE_GROUP_f8 = 34"

definition X86_INSN_GROUP_START :: nat where "X86_INSN_GROUP_START = 0"
definition X86_INSN_SSE_GROUP_START :: nat where "X86_INSN_SSE_GROUP_START = 19"
definition X86_INSN_GROUP_END :: nat where "X86_INSN_GROUP_END = 35"

definition X86_INSN_FLAG_SET_GROUP :: "nat \<Rightarrow> u16" where
  "X86_INSN_FLAG_SET_GROUP n = push_bit 5 (word_of_nat n)"

definition X86_INSN_FLAG_GET_GROUP :: "u16 \<Rightarrow> nat" where
  "X86_INSN_FLAG_GET_GROUP f = unat (drop_bit 5 f AND (push_bit 6 1 - 1))"

definition group_flag :: "x86_insn_group \<Rightarrow> u16" where
  "group_flag g = X86_INSN_FLAG_SET_GROUP (group_value g)"

definition foreach_x86_operand_combine :: "string \<Rightarrow> x86_insn_spec list" where
  "foreach_x86_operand_combine x =
    [op2 x ''Eb'' ''Gb'', op2 x ''Ev'' ''Gv'', op2 x ''Gb'' ''Eb'', op2 x ''Gv'' ''Ev'',
     op2 x ''AL'' ''Ib'', op2 x ''AX'' ''Iz'']"

definition foreach_x86_gp_reg :: "(string \<Rightarrow> 'a) \<Rightarrow> 'a list" where
  "foreach_x86_gp_reg f = map f [''AX'', ''CX'', ''DX'', ''BX'', ''SP'', ''BP'', ''SI'', ''DI'']"

definition foreach_x86_condition :: "(string \<Rightarrow> 'a) \<Rightarrow> 'a list" where
  "foreach_x86_condition f =
    map f [''o'', ''no'', ''b'', ''nb'', ''z'', ''nz'', ''be'', ''nbe'',
           ''s'', ''ns'', ''p'', ''np'', ''l'', ''nl'', ''le'', ''nle'']"

section \<open>The one-byte opcode map\<close>

definition one_byte_00 :: "x86_insn_spec list" where
  "one_byte_00 =
    foreach_x86_operand_combine ''add'' @
    [op0 ''push_es'',
     op0f ''pop_es'' X86_INSN_SPEC_DEFAULT_64_BIT] @
    foreach_x86_operand_combine ''or'' @
    [op0f ''push_cs'' X86_INSN_SPEC_DEFAULT_64_BIT,
     op0 ''escape_two_byte'']"

definition one_byte_10 :: "x86_insn_spec list" where
  "one_byte_10 =
    foreach_x86_operand_combine ''adc'' @
    [op0 ''push_ss'',
     op0 ''pop_ss''] @
    foreach_x86_operand_combine ''sbb'' @
    [op0 ''push_ds'',
     op0 ''pop_ds'']"

definition one_byte_20 :: "x86_insn_spec list" where
  "one_byte_20 =
    foreach_x86_operand_combine ''and'' @
    [op0 ''segment_es'',
     op0 ''daa''] @
    foreach_x86_operand_combine ''sub'' @
    [op0 ''segment_cs'',
     op0 ''das'']"

definition one_byte_30 :: "x86_insn_spec list" where
  "one_byte_30 =
    foreach_x86_operand_combine ''xor'' @
    [op0 ''segment_ss'',
     op0 ''aaa''] @
    foreach_x86_operand_combine ''cmp'' @
    [op0 ''segment_ds'',
     op0 ''aas'']"

definition one_byte_40 :: "x86_insn_spec list" where
  "one_byte_40 =
    foreach_x86_gp_reg (\<lambda>r. op1 ''inc'' r) @
    foreach_x86_gp_reg (\<lambda>r. op1 ''dec'' r)"

definition one_byte_50 :: "x86_insn_spec list" where
  "one_byte_50 =
    foreach_x86_gp_reg (\<lambda>r. op1f ''push'' X86_INSN_SPEC_DEFAULT_64_BIT r) @
    foreach_x86_gp_reg (\<lambda>r. op1f ''pop'' X86_INSN_SPEC_DEFAULT_64_BIT r)"

definition one_byte_60 :: "x86_insn_spec list" where
  "one_byte_60 =
    [op0 ''pusha'',
     op0 ''popa'',
     op2 ''bound'' ''Gv'' ''Ma'',
     op2 ''movsxd'' ''Gv'' ''Ed'',
     op0 ''segment_fs'',
     op0 ''segment_gs'',
     op0 ''operand_type'',
     op0 ''address_size'',
     op1f ''push'' X86_INSN_SPEC_DEFAULT_64_BIT ''Iz'',
     op3 ''imul'' ''Gv'' ''Ev'' ''Iz'',
     op1f ''push'' X86_INSN_SPEC_DEFAULT_64_BIT ''Ib'',
     op3 ''imul'' ''Gv'' ''Ev'' ''Ib'',
     op1 ''insb'' ''DX'',
     op1 ''insw'' ''DX'',
     op1 ''outsb'' ''DX'',
     op1 ''outsw'' ''DX'']"

definition one_byte_70 :: "x86_insn_spec list" where
  "one_byte_70 =
    foreach_x86_condition (\<lambda>x. op1 (''j'' @ x) ''Jb'')"

definition one_byte_80 :: "x86_insn_spec list" where
  "one_byte_80 =
    [op2f ''modrm_group_1'' (group_flag MODRM_REG_GROUP_1) ''Eb'' ''Ib'',
     op2f ''modrm_group_1'' (group_flag MODRM_REG_GROUP_1) ''Ev'' ''Iz'',
     op2f ''modrm_group_1'' (group_flag MODRM_REG_GROUP_1) ''Eb'' ''Ib'',
     op2f ''modrm_group_1'' (group_flag MODRM_REG_GROUP_1) ''Ev'' ''Ib'',
     op2 ''test'' ''Eb'' ''Gb'',
     op2 ''test'' ''Ev'' ''Gv'',
     op2 ''xchg'' ''Eb'' ''Gb'',
     op2 ''xchg'' ''Ev'' ''Gv'',
     op2 ''mov'' ''Eb'' ''Gb'',
     op2 ''mov'' ''Ev'' ''Gv'',
     op2 ''mov'' ''Gb'' ''Eb'',
     op2 ''mov'' ''Gv'' ''Ev'',
     op2 ''mov'' ''Ev'' ''Sw'',
     op2 ''lea'' ''Gv'' ''Ev'',
     op2 ''mov'' ''Sw'' ''Ew'',
     op1f ''modrm_group_1a'' (group_flag MODRM_REG_GROUP_1a) ''Ev'']"

definition one_byte_90 :: "x86_insn_spec list" where
  "one_byte_90 =
    [op0 ''nop'',
     op1 ''xchg'' ''CX'',
     op1 ''xchg'' ''DX'',
     op1 ''xchg'' ''BX'',
     op1 ''xchg'' ''SP'',
     op1 ''xchg'' ''BP'',
     op1 ''xchg'' ''SI'',
     op1 ''xchg'' ''DI'',
     op0 ''cbw'',
     op0 ''cwd'',
     op1 ''call'' ''Ap'',
     op0 ''wait'',
     op0 ''pushf'',
     op0 ''popf'',
     op0 ''sahf'',
     op0 ''lahf'']"

definition one_byte_a0 :: "x86_insn_spec list" where
  "one_byte_a0 =
    [op2 ''mov'' ''AL'' ''Ob'',
     op2 ''mov'' ''AX'' ''Ov'',
     op2 ''mov'' ''Ob'' ''AL'',
     op2 ''mov'' ''Ov'' ''AX'',
     op0 ''movsb'',
     op0 ''movsw'',
     op0 ''cmpsb'',
     op0 ''cmpsw'',
     op2 ''test'' ''AL'' ''Ib'',
     op2 ''test'' ''AX'' ''Iz'',
     op1 ''stosb'' ''AL'',
     op1 ''stosw'' ''AX'',
     op1 ''lodsb'' ''AL'',
     op1 ''lodsw'' ''AX'',
     op1 ''scasb'' ''AL'',
     op1 ''scasw'' ''AX'']"

definition one_byte_b0 :: "x86_insn_spec list" where
  "one_byte_b0 =
    [op2 ''mov'' ''AL'' ''Ib'',
     op2 ''mov'' ''CL'' ''Ib'',
     op2 ''mov'' ''DL'' ''Ib'',
     op2 ''mov'' ''BL'' ''Ib'',
     op2 ''mov'' ''AH'' ''Ib'',
     op2 ''mov'' ''CH'' ''Ib'',
     op2 ''mov'' ''DH'' ''Ib'',
     op2 ''mov'' ''BH'' ''Ib''] @
    foreach_x86_gp_reg (\<lambda>r. op2 ''mov'' r ''Iv'')"

definition one_byte_c0 :: "x86_insn_spec list" where
  "one_byte_c0 =
    [op2f ''modrm_group_2'' (group_flag MODRM_REG_GROUP_2) ''Eb'' ''Ib'',
     op2f ''modrm_group_2'' (group_flag MODRM_REG_GROUP_2) ''Ev'' ''Ib'',
     op1 ''ret'' ''Iw'',
     op0 ''ret'',
     op2 ''les'' ''Gz'' ''Mp'',
     op2 ''lds'' ''Gz'' ''Mp'',
     op2f ''modrm_group_11'' (group_flag MODRM_REG_GROUP_11) ''Eb'' ''Ib'',
     op2f ''modrm_group_11'' (group_flag MODRM_REG_GROUP_11) ''Ev'' ''Iz'',
     op2 ''enter'' ''Iw'' ''Ib'',
     op0 ''leave'',
     op1 ''ret'' ''Iw'',
     op0 ''ret'',
     op0 ''int3'',
     op1 ''int'' ''Ib'',
     op0 ''into'',
     op0 ''iret'']"

definition one_byte_d0 :: "x86_insn_spec list" where
  "one_byte_d0 =
    [op2f ''modrm_group_2'' (group_flag MODRM_REG_GROUP_2) ''Eb'' ''1b'',
     op2f ''modrm_group_2'' (group_flag MODRM_REG_GROUP_2) ''Ev'' ''1b'',
     op2f ''modrm_group_2'' (group_flag MODRM_REG_GROUP_2) ''Eb'' ''CL'',
     op2f ''modrm_group_2'' (group_flag MODRM_REG_GROUP_2) ''Ev'' ''CL'',
     op0 ''aam'',
     op0 ''aad'',
     op0 ''salc'',
     op0 ''xlat'',
     op0 ''bad'',
     op0 ''bad'',
     op0 ''bad'',
     op0 ''bad'',
     op0 ''bad'',
     op0 ''bad'',
     op0 ''bad'',
     op0 ''bad'']"

definition one_byte_e0 :: "x86_insn_spec list" where
  "one_byte_e0 =
    [op1 ''loopnz'' ''Jb'',
     op1 ''loopz'' ''Jb'',
     op1 ''loop'' ''Jb'',
     op1 ''jcxz'' ''Jb'',
     op2 ''in'' ''AL'' ''Ib'',
     op2 ''in'' ''AX'' ''Ib'',
     op2 ''out'' ''Ib'' ''AL'',
     op2 ''out'' ''Ib'' ''AX'',
     op1f ''call'' X86_INSN_SPEC_DEFAULT_64_BIT ''Jz'',
     op1f ''jmp'' X86_INSN_SPEC_DEFAULT_64_BIT ''Jz'',
     op1 ''jmp'' ''Ap'',
     op1 ''jmp'' ''Jb'',
     op2 ''in'' ''AL'' ''DX'',
     op2 ''in'' ''AX'' ''DX'',
     op2 ''out'' ''DX'' ''AL'',
     op2 ''out'' ''DX'' ''AX'']"

definition one_byte_f0 :: "x86_insn_spec list" where
  "one_byte_f0 =
    [op0 ''lock'',
     op0 ''int1'',
     op0 ''repne'',
     op0 ''rep'',
     op0 ''hlt'',
     op0 ''cmc'',
     op0f ''modrm_group_3'' (group_flag MODRM_REG_GROUP_3),
     op0f ''modrm_group_3'' (group_flag MODRM_REG_GROUP_3),
     op0 ''clc'',
     op0 ''stc'',
     op0 ''cli'',
     op0 ''sti'',
     op0 ''cld'',
     op0 ''std'',
     op1f ''modrm_group_4'' (group_flag MODRM_REG_GROUP_4) ''Eb'',
     op0f ''modrm_group_5'' (group_flag MODRM_REG_GROUP_5)]"

definition x86_opcode_map_one_byte :: "x86_insn_spec list" where
  "x86_opcode_map_one_byte =
    one_byte_00 @ one_byte_10 @ one_byte_20 @ one_byte_30 @ one_byte_40 @ one_byte_50 @ one_byte_60 @ one_byte_70 @
    one_byte_80 @ one_byte_90 @ one_byte_a0 @ one_byte_b0 @ one_byte_c0 @ one_byte_d0 @ one_byte_e0 @ one_byte_f0"

section \<open>The two-byte opcode map\<close>

definition two_byte_00 :: "x86_insn_spec list" where
  "two_byte_00 =
    [op0f ''modrm_group_6'' (group_flag MODRM_REG_GROUP_6),
     op0f ''modrm_group_7'' (group_flag MODRM_REG_GROUP_7),
     op2 ''lar'' ''Gv'' ''Ew'',
     op2 ''lsl'' ''Gv'' ''Ew'',
     op0 ''bad'',
     op0 ''syscall'',
     op0 ''clts'',
     op0 ''sysret'',
     op0 ''invd'',
     op0 ''wbinvd'',
     op0 ''bad'',
     op0 ''ud2'',
     op0 ''bad'',
     op0f ''modrm_group_p'' (group_flag MODRM_REG_GROUP_p),
     op0 ''femms'',
     op0 ''escape_3dnow'']"

definition two_byte_10 :: "x86_insn_spec list" where
  "two_byte_10 =
    [op2f ''movups'' (group_flag SSE_GROUP_10) ''Gx'' ''Ex'',
     op2f ''movups'' (group_flag SSE_GROUP_10) ''Ex'' ''Gx'',
     op2f ''movlps'' (group_flag SSE_GROUP_10) ''Ex'' ''Gx'',
     op2f ''movlps'' (group_flag SSE_GROUP_10) ''Gx'' ''Ex'',
     op2f ''unpcklps'' (group_flag SSE_GROUP_10) ''Gx'' ''Ex'',
     op2f ''unpckhps'' (group_flag SSE_GROUP_10) ''Gx'' ''Ex'',
     op2f ''movhps'' (group_flag SSE_GROUP_10) ''Ex'' ''Gx'',
     op2f ''movhps'' (group_flag SSE_GROUP_10) ''Gx'' ''Ex'',
     op0f ''modrm_group_16'' (group_flag MODRM_REG_GROUP_16),
     op0 ''nop'',
     op0 ''nop'',
     op0 ''nop'',
     op0 ''nop'',
     op0 ''nop'',
     op0 ''nop'',
     op0 ''nop'']"

definition two_byte_20 :: "x86_insn_spec list" where
  "two_byte_20 =
    [op2 ''mov'' ''Rv'' ''Cv'',
     op2 ''mov'' ''Rv'' ''Dv'',
     op2 ''mov'' ''Cv'' ''Rv'',
     op2 ''mov'' ''Dv'' ''Rv'',
     op0 ''bad'',
     op0 ''bad'',
     op0 ''bad'',
     op0 ''bad'',
     op2f ''movaps'' (group_flag SSE_GROUP_28) ''Gx'' ''Ex'',
     op2f ''movaps'' (group_flag SSE_GROUP_28) ''Ex'' ''Gx'',
     op2f ''cvtpi2ps'' (group_flag SSE_GROUP_28) ''Gx'' ''Ex'',
     op2f ''movntps'' (group_flag SSE_GROUP_28) ''Mx'' ''Gx'',
     op2f ''cvttps2pi'' (group_flag SSE_GROUP_28) ''Gx'' ''Ex'',
     op2f ''cvtps2pi'' (group_flag SSE_GROUP_28) ''Gx'' ''Ex'',
     op2f ''ucomiss'' (group_flag SSE_GROUP_28) ''Gx'' ''Ex'',
     op2f ''comiss'' (group_flag SSE_GROUP_28) ''Gx'' ''Ex'']"

definition two_byte_30 :: "x86_insn_spec list" where
  "two_byte_30 =
    [op0 ''wrmsr'',
     op0 ''rdtsc'',
     op0 ''rdmsr'',
     op0 ''rdpmc'',
     op0 ''sysenter'',
     op0 ''sysexit'',
     op0 ''bad'',
     op0 ''bad'',
     op0 ''bad'',
     op0 ''bad'',
     op0 ''bad'',
     op0 ''bad'',
     op0 ''bad'',
     op0 ''bad'',
     op0 ''bad'',
     op0 ''bad'']"

definition two_byte_40 :: "x86_insn_spec list" where
  "two_byte_40 =
    foreach_x86_condition (\<lambda>x. op2 (''cmov'' @ x) ''Gv'' ''Ev'')"

definition two_byte_50 :: "x86_insn_spec list" where
  "two_byte_50 =
    [op2f ''movmskps'' (group_flag SSE_GROUP_50) ''Gd'' ''Rx'',
     op2f ''sqrtps'' (group_flag SSE_GROUP_50) ''Gx'' ''Ex'',
     op2f ''rsqrtps'' (group_flag SSE_GROUP_50) ''Gx'' ''Ex'',
     op2f ''rcpps'' (group_flag SSE_GROUP_50) ''Gx'' ''Ex'',
     op2f ''andps'' (group_flag SSE_GROUP_50) ''Gx'' ''Ex'',
     op2f ''andnps'' (group_flag SSE_GROUP_50) ''Gx'' ''Ex'',
     op2f ''orps'' (group_flag SSE_GROUP_50) ''Gx'' ''Ex'',
     op2f ''xorps'' (group_flag SSE_GROUP_50) ''Gx'' ''Ex'',
     op2f ''addps'' (group_flag SSE_GROUP_58) ''Gx'' ''Ex'',
     op2f ''mulps'' (group_flag SSE_GROUP_58) ''Gx'' ''Ex'',
     op2f ''cvtps2pd'' (group_flag SSE_GROUP_58) ''Gx'' ''Ex'',
     op2f ''cvtdq2ps'' (group_flag SSE_GROUP_58) ''Gx'' ''Ex'',
     op2f ''subps'' (group_flag SSE_GROUP_58) ''Gx'' ''Ex'',
     op2f ''minps'' (group_flag SSE_GROUP_58) ''Gx'' ''Ex'',
     op2f ''divps'' (group_flag SSE_GROUP_58) ''Gx'' ''Ex'',
     op2f ''maxps'' (group_flag SSE_GROUP_58) ''Gx'' ''Ex'']"

definition two_byte_60 :: "x86_insn_spec list" where
  "two_byte_60 =
    [op2f ''punpcklbw'' (group_flag SSE_GROUP_60) ''Gm'' ''Em'',
     op2f ''punpcklwd'' (group_flag SSE_GROUP_60) ''Gm'' ''Em'',
     op2f ''punpckldq'' (group_flag SSE_GROUP_60) ''Gm'' ''Em'',
     op2f ''packsswb'' (group_flag SSE_GROUP_60) ''Gm'' ''Em'',
     op2f ''pcmpgtb'' (group_flag SSE_GROUP_60) ''Gm'' ''Em'',
     op2f ''pcmpgtw'' (group_flag SSE_GROUP_60) ''Gm'' ''Em'',
     op2f ''pcmpgtd'' (group_flag SSE_GROUP_60) ''Gm'' ''Em'',
     op2f ''packuswb'' (group_flag SSE_GROUP_60) ''Gm'' ''Em'',
     op2f ''punpckhbw'' (group_flag SSE_GROUP_68) ''Gm'' ''Em'',
     op2f ''punpckhwd'' (group_flag SSE_GROUP_68) ''Gm'' ''Em'',
     op2f ''punpckhdq'' (group_flag SSE_GROUP_68) ''Gm'' ''Em'',
     op2f ''packssdw'' (group_flag SSE_GROUP_68) ''Gm'' ''Em'',
     op0f ''bad'' (group_flag SSE_GROUP_68),
     op0f ''bad'' (group_flag SSE_GROUP_68),
     op2f ''movd'' (group_flag SSE_GROUP_68) ''Gm'' ''Em'',
     op2f ''movq'' (group_flag SSE_GROUP_68) ''Gm'' ''Em'']"

definition two_byte_70 :: "x86_insn_spec list" where
  "two_byte_70 =
    [op3f ''pshufw'' (group_flag SSE_GROUP_70) ''Gm'' ''Em'' ''Ib'',
     op0f ''modrm_group_12'' (group_flag MODRM_REG_GROUP_12),
     op0f ''modrm_group_13'' (group_flag MODRM_REG_GROUP_13),
     op0f ''modrm_group_14'' (group_flag MODRM_REG_GROUP_14),
     op2f ''pcmpeqb'' (group_flag SSE_GROUP_70) ''Gm'' ''Em'',
     op2f ''pcmpeqw'' (group_flag SSE_GROUP_70) ''Gm'' ''Em'',
     op2f ''pcmpeqd'' (group_flag SSE_GROUP_70) ''Gm'' ''Em'',
     op0f ''emms'' (group_flag SSE_GROUP_70),
     op0f ''bad'' (group_flag SSE_GROUP_78),
     op0f ''bad'' (group_flag SSE_GROUP_78),
     op0f ''bad'' (group_flag SSE_GROUP_78),
     op0f ''bad'' (group_flag SSE_GROUP_78),
     op0f ''bad'' (group_flag SSE_GROUP_78),
     op0f ''bad'' (group_flag SSE_GROUP_78),
     op2f ''movd'' (group_flag SSE_GROUP_78) ''Em'' ''Gm'',
     op2f ''movq'' (group_flag SSE_GROUP_78) ''Em'' ''Gm'']"

definition two_byte_80 :: "x86_insn_spec list" where
  "two_byte_80 =
    foreach_x86_condition (\<lambda>x. op1 (''jmp'' @ x) ''Jz'')"

definition two_byte_90 :: "x86_insn_spec list" where
  "two_byte_90 =
    foreach_x86_condition (\<lambda>x. op1 (''set'' @ x) ''Eb'')"

definition two_byte_a0 :: "x86_insn_spec list" where
  "two_byte_a0 =
    [op0 ''push_fs'',
     op0 ''pop_fs'',
     op0 ''cpuid'',
     op2 ''bt'' ''Ev'' ''Gv'',
     op3 ''shld'' ''Ev'' ''Gv'' ''Ib'',
     op3 ''shld'' ''Ev'' ''Gv'' ''CL'',
     op0 ''bad'',
     op0 ''bad'',
     op0 ''push_gs'',
     op0 ''pop_gs'',
     op0 ''rsm'',
     op2 ''bts'' ''Ev'' ''Gv'',
     op3 ''shrd'' ''Ev'' ''Gv'' ''Ib'',
     op3 ''shrd'' ''Ev'' ''Gv'' ''CL'',
     op0f ''modrm_group_15'' (group_flag MODRM_REG_GROUP_15),
     op2 ''imul'' ''Gv'' ''Ev'']"

definition two_byte_b0 :: "x86_insn_spec list" where
  "two_byte_b0 =
    [op2 ''cmpxchg'' ''Eb'' ''Gb'',
     op2 ''cmpxchg'' ''Ev'' ''Gv'',
     op2 ''lss'' ''Gz'' ''Mp'',
     op2 ''btr'' ''Ev'' ''Gv'',
     op2 ''lfs'' ''Gz'' ''Mp'',
     op2 ''lgs'' ''Gz'' ''Mp'',
     op2 ''movzbl'' ''Gv'' ''Eb'',
     op2 ''movzwl'' ''Gv'' ''Ew'',
     op0 ''bad'',
     op0f ''modrm_group_10'' (group_flag MODRM_REG_GROUP_10),
     op2f ''modrm_group_8'' (group_flag MODRM_REG_GROUP_8) ''Ev'' ''Ib'',
     op2 ''btc'' ''Ev'' ''Gv'',
     op2 ''bsf'' ''Gv'' ''Ev'',
     op2 ''bsr'' ''Gv'' ''Ev'',
     op2 ''movsx'' ''Gv'' ''Eb'',
     op2 ''movsx'' ''Gv'' ''Ew'']"

definition two_byte_c0 :: "x86_insn_spec list" where
  "two_byte_c0 =
    [op2 ''xadd'' ''Eb'' ''Gb'',
     op2 ''xadd'' ''Ev'' ''Gv'',
     op3f ''cmpps'' (group_flag SSE_GROUP_c0) ''Gx'' ''Ex'' ''Ib'',
     op2 ''movnti'' ''Mv'' ''Gv'',
     op3f ''pinsrw'' (group_flag SSE_GROUP_c0) ''Gm'' ''Ew'' ''Ib'',
     op3f ''pextrw'' (group_flag SSE_GROUP_c0) ''Gd'' ''Rm'' ''Ib'',
     op3f ''shufps'' (group_flag SSE_GROUP_c0) ''Gx'' ''Ex'' ''Ib'',
     op1f ''modrm_group_9'' (group_flag MODRM_REG_GROUP_9) ''Mx''] @
    foreach_x86_gp_reg (\<lambda>r. op1 ''bswap'' r)"

definition two_byte_d0 :: "x86_insn_spec list" where
  "two_byte_d0 =
    [op0f ''bad'' (group_flag SSE_GROUP_d0),
     op2f ''psrlw'' (group_flag SSE_GROUP_d0) ''Gm'' ''Em'',
     op2f ''psrld'' (group_flag SSE_GROUP_d0) ''Gm'' ''Em'',
     op2f ''psrlq'' (group_flag SSE_GROUP_d0) ''Gm'' ''Em'',
     op2f ''paddq'' (group_flag SSE_GROUP_d0) ''Gm'' ''Em'',
     op2f ''pmullw'' (group_flag SSE_GROUP_d0) ''Gm'' ''Em'',
     op0f ''bad'' (group_flag SSE_GROUP_d0),
     op2f ''pmovmskb'' (group_flag SSE_GROUP_d0) ''Gd'' ''Rm'',
     op2f ''psubusb'' (group_flag SSE_GROUP_d8) ''Gm'' ''Em'',
     op2f ''psubusw'' (group_flag SSE_GROUP_d8) ''Gm'' ''Em'',
     op2f ''pminub'' (group_flag SSE_GROUP_d8) ''Gm'' ''Em'',
     op2f ''pand'' (group_flag SSE_GROUP_d8) ''Gm'' ''Em'',
     op2f ''paddusb'' (group_flag SSE_GROUP_d8) ''Gm'' ''Em'',
     op2f ''paddusw'' (group_flag SSE_GROUP_d8) ''Gm'' ''Em'',
     op2f ''pmaxub'' (group_flag SSE_GROUP_d8) ''Gm'' ''Em'',
     op2f ''pandn'' (group_flag SSE_GROUP_d8) ''Gm'' ''Em'']"

definition two_byte_e0 :: "x86_insn_spec list" where
  "two_byte_e0 =
    [op2f ''pavgb'' (group_flag SSE_GROUP_e0) ''Gm'' ''Em'',
     op2f ''psraw'' (group_flag SSE_GROUP_e0) ''Gm'' ''Em'',
     op2f ''psrad'' (group_flag SSE_GROUP_e0) ''Gm'' ''Em'',
     op2f ''pavgw'' (group_flag SSE_GROUP_e0) ''Gm'' ''Em'',
     op2f ''pmulhuw'' (group_flag SSE_GROUP_e0) ''Gm'' ''Em'',
     op2f ''pmulhw'' (group_flag SSE_GROUP_e0) ''Gm'' ''Em'',
     op2f ''bad'' (group_flag SSE_GROUP_e0) ''Gm'' ''Em'',
     op2f ''movntq'' (group_flag SSE_GROUP_e0) ''Mm'' ''Gm'',
     op2f ''psubsb'' (group_flag SSE_GROUP_e8) ''Gm'' ''Em'',
     op2f ''psubsw'' (group_flag SSE_GROUP_e8) ''Gm'' ''Em'',
     op2f ''pminsw'' (group_flag SSE_GROUP_e8) ''Gm'' ''Em'',
     op2f ''por'' (group_flag SSE_GROUP_e8) ''Gm'' ''Em'',
     op2f ''paddsb'' (group_flag SSE_GROUP_e8) ''Gm'' ''Em'',
     op2f ''paddsw'' (group_flag SSE_GROUP_e8) ''Gm'' ''Em'',
     op2f ''pmaxsw'' (group_flag SSE_GROUP_e8) ''Gm'' ''Em'',
     op2f ''pxor'' (group_flag SSE_GROUP_e8) ''Gm'' ''Em'']"

definition two_byte_f0 :: "x86_insn_spec list" where
  "two_byte_f0 =
    [op0f ''bad'' (group_flag SSE_GROUP_f0),
     op2f ''psllw'' (group_flag SSE_GROUP_f0) ''Gm'' ''Em'',
     op2f ''pslld'' (group_flag SSE_GROUP_f0) ''Gm'' ''Em'',
     op2f ''psllq'' (group_flag SSE_GROUP_f0) ''Gm'' ''Em'',
     op2f ''pmuludq'' (group_flag SSE_GROUP_f0) ''Gm'' ''Em'',
     op2f ''pmaddwd'' (group_flag SSE_GROUP_f0) ''Gm'' ''Em'',
     op2f ''psadbw'' (group_flag SSE_GROUP_f0) ''Gm'' ''Em'',
     op2f ''maskmovq'' (group_flag SSE_GROUP_f0) ''Gm'' ''Em'',
     op2f ''psubb'' (group_flag SSE_GROUP_f8) ''Gm'' ''Em'',
     op2f ''psubw'' (group_flag SSE_GROUP_f8) ''Gm'' ''Em'',
     op2f ''psubd'' (group_flag SSE_GROUP_f8) ''Gm'' ''Em'',
     op2f ''psubq'' (group_flag SSE_GROUP_f8) ''Gm'' ''Em'',
     op2f ''paddb'' (group_flag SSE_GROUP_f8) ''Gm'' ''Em'',
     op2f ''paddw'' (group_flag SSE_GROUP_f8) ''Gm'' ''Em'',
     op2f ''paddd'' (group_flag SSE_GROUP_f8) ''Gm'' ''Em'',
     op0f ''bad'' (group_flag SSE_GROUP_f8)]"

definition x86_opcode_map_two_byte :: "x86_insn_spec list" where
  "x86_opcode_map_two_byte =
    two_byte_00 @ two_byte_10 @ two_byte_20 @ two_byte_30 @ two_byte_40 @ two_byte_50 @ two_byte_60 @ two_byte_70 @
    two_byte_80 @ two_byte_90 @ two_byte_a0 @ two_byte_b0 @ two_byte_c0 @ two_byte_d0 @ two_byte_e0 @ two_byte_f0"

section \<open>Groups selected by the reg field of ModRM\<close>

text \<open>
  The C arrays use designated initialisers; an index without one holds zeroed specifications, among
  them index 0.
\<close>

definition zero_spec :: x86_insn_spec where
  "zero_spec = \<lparr>spec_name = [], spec_operands = replicate 3 (CHR 0x00, CHR 0x00), spec_flags = 0\<rparr>"

type_synonym x86_insn_group8 = "x86_insn_spec list"

definition zero_group :: x86_insn_group8 where
  "zero_group = replicate 8 zero_spec"

definition modrm_reg_group_1 :: x86_insn_group8 where
  "modrm_reg_group_1 =
    [op0 ''add'', op0 ''or'',
     op0 ''adc'', op0 ''sbb'',
     op0 ''and'', op0 ''sub'',
     op0 ''xor'', op0 ''cmp'']"

definition modrm_reg_group_1a :: x86_insn_group8 where
  "modrm_reg_group_1a =
    [op0f ''pop'' X86_INSN_SPEC_DEFAULT_64_BIT, op0 ''bad'',
     op0 ''bad'', op0 ''bad'',
     op0 ''bad'', op0 ''bad'',
     op0 ''bad'', op0 ''bad'']"

definition modrm_reg_group_2 :: x86_insn_group8 where
  "modrm_reg_group_2 =
    [op0 ''rol'', op0 ''ror'',
     op0 ''rcl'', op0 ''rcr'',
     op0 ''shl'', op0 ''shr'',
     op0 ''sal'', op0 ''sar'']"

definition modrm_reg_group_3 :: x86_insn_group8 where
  "modrm_reg_group_3 =
    [op0 ''test'', op0 ''test'',
     op0 ''not'', op0 ''neg'',
     op0 ''mul'', op0 ''imul'',
     op0 ''div'', op0 ''idiv'']"

definition modrm_reg_group_4 :: x86_insn_group8 where
  "modrm_reg_group_4 =
    [op0 ''inc'', op0 ''dec'',
     op0 ''bad'', op0 ''bad'',
     op0 ''bad'', op0 ''bad'',
     op0 ''bad'', op0 ''bad'']"

definition modrm_reg_group_5 :: x86_insn_group8 where
  "modrm_reg_group_5 =
    [op1 ''inc'' ''Ev'', op1 ''dec'' ''Ev'',
     op1f ''call'' X86_INSN_SPEC_DEFAULT_64_BIT ''Ev'', op1 ''call'' ''Mp'',
     op1f ''jmp'' X86_INSN_SPEC_DEFAULT_64_BIT ''Ev'', op1 ''jmp'' ''Mp'',
     op1f ''push'' X86_INSN_SPEC_DEFAULT_64_BIT ''Ev'', op0 ''bad'']"

definition modrm_reg_group_6 :: x86_insn_group8 where
  "modrm_reg_group_6 =
    [op1 ''sldt'' ''Ev'', op1 ''str'' ''Ev'',
     op1 ''lldt'' ''Ev'', op1 ''ltr'' ''Ev'',
     op1 ''verr'' ''Ev'', op1 ''verw'' ''Ev'',
     op0 ''bad'', op0 ''bad'']"

definition modrm_reg_group_7 :: x86_insn_group8 where
  "modrm_reg_group_7 =
    [op1 ''sgdt'' ''Mv'', op1 ''sidt'' ''Mv'',
     op1 ''lgdt'' ''Mv'', op1 ''lidt'' ''Mv'',
     op1 ''smsw'' ''Ev'', op0 ''bad'',
     op1 ''lmsw'' ''Ew'', op1 ''invlpg'' ''Mv'']"

definition modrm_reg_group_8 :: x86_insn_group8 where
  "modrm_reg_group_8 =
    [op0 ''bad'', op0 ''bad'',
     op0 ''bad'', op0 ''bad'',
     op2 ''bt'' ''Ev'' ''Ib'', op2 ''bts'' ''Ev'' ''Ib'',
     op2 ''btr'' ''Ev'' ''Ib'', op2 ''btc'' ''Ev'' ''Ib'']"

definition modrm_reg_group_9 :: x86_insn_group8 where
  "modrm_reg_group_9 =
    [op0 ''bad'', op1 ''cmpxchg'' ''Mx'',
     op0 ''bad'', op0 ''bad'',
     op0 ''bad'', op0 ''bad'',
     op0 ''bad'', op0 ''bad'']"

definition modrm_reg_group_10 :: x86_insn_group8 where
  "modrm_reg_group_10 =
    [op0 ''bad'', op0 ''bad'',
     op0 ''bad'', op0 ''bad'',
     op0 ''bad'', op0 ''bad'',
     op0 ''bad'', op0 ''bad'']"

definition modrm_reg_group_11 :: x86_insn_group8 where
  "modrm_reg_group_11 =
    [op0 ''mov'', op0 ''bad'',
     op0 ''bad'', op0 ''bad'',
     op0 ''bad'', op0 ''bad'',
     op0 ''bad'', op0 ''bad'']"

definition modrm_reg_group_12 :: x86_insn_group8 where
  "modrm_reg_group_12 =
    [op0 ''bad'', op0 ''bad'',
     op2 ''psrlw'' ''Rm'' ''Ib'', op0 ''bad'',
     op2 ''psraw'' ''Rm'' ''Ib'', op0 ''bad'',
     op2 ''psllw'' ''Rm'' ''Ib'', op0 ''bad'']"

definition modrm_reg_group_13 :: x86_insn_group8 where
  "modrm_reg_group_13 =
    [op0 ''bad'', op0 ''bad'',
     op2 ''psrld'' ''Rm'' ''Ib'', op0 ''bad'',
     op2 ''psrad'' ''Rm'' ''Ib'', op0 ''bad'',
     op2 ''pslld'' ''Rm'' ''Ib'', op0 ''bad'']"

definition modrm_reg_group_14 :: x86_insn_group8 where
  "modrm_reg_group_14 =
    [op0 ''bad'', op0 ''bad'',
     op2 ''psrlq'' ''Rm'' ''Ib'', op0f ''bad'' 0,
     op0 ''bad'', op0 ''bad'',
     op2 ''psllq'' ''Rm'' ''Ib'', op0f ''bad'' 0]"

definition modrm_reg_group_15 :: x86_insn_group8 where
  "modrm_reg_group_15 =
    [op1 ''fxsave'' ''Mv'', op1 ''fxrstor'' ''Mv'',
     op1 ''ldmxcsr'' ''Mv'', op1 ''stmxcsr'' ''Mv'',
     op0 ''bad'', op1 ''lfence'' ''Mv'',
     op1 ''mfence'' ''Mv'', op1 ''sfence'' ''Mv'']"

definition modrm_reg_group_16 :: x86_insn_group8 where
  "modrm_reg_group_16 =
    [op1 ''prefetch_nta'' ''Mv'', op1 ''prefetch_t0'' ''Mv'',
     op1 ''prefetch_t1'' ''Mv'', op1 ''prefetch_t2'' ''Mv'',
     op1 ''prefetch_nop'' ''Mv'', op1 ''prefetch_nop'' ''Mv'',
     op1 ''prefetch_nop'' ''Mv'', op1 ''prefetch_nop'' ''Mv'']"

definition modrm_reg_group_p :: x86_insn_group8 where
  "modrm_reg_group_p =
    [op1 ''prefetch_exclusive'' ''Mv'', op1 ''prefetch_modified'' ''Mv'',
     op1 ''prefetch_nop'' ''Mv'', op1 ''prefetch_modified'' ''Mv'',
     op1 ''prefetch_nop'' ''Mv'', op1 ''prefetch_nop'' ''Mv'',
     op1 ''prefetch_nop'' ''Mv'', op1 ''prefetch_nop'' ''Mv'']"

definition x86_insn_modrm_reg_groups :: "x86_insn_group8 list" where
  "x86_insn_modrm_reg_groups = [zero_group] @
    [modrm_reg_group_1, modrm_reg_group_1a, modrm_reg_group_2, modrm_reg_group_3, modrm_reg_group_4, modrm_reg_group_5,
     modrm_reg_group_6, modrm_reg_group_7, modrm_reg_group_8, modrm_reg_group_9, modrm_reg_group_10, modrm_reg_group_11,
     modrm_reg_group_12, modrm_reg_group_13, modrm_reg_group_14, modrm_reg_group_15, modrm_reg_group_16, modrm_reg_group_p]"

section \<open>SSE groups\<close>

definition sse_repz_10 :: x86_insn_group8 where
  "sse_repz_10 =
    [op2 ''movss'' ''Gx'' ''Ex'', op2 ''movss'' ''Ex'' ''Gx'',
     op2 ''movsldup'' ''Gx'' ''Ex'', op0 ''bad'',
     op0 ''bad'', op0 ''bad'',
     op2 ''movshdup'' ''Gx'' ''Ex'', op0 ''bad'']"

definition sse_repz_28 :: x86_insn_group8 where
  "sse_repz_28 =
    [op0 ''bad'', op0 ''bad'',
     op2 ''cvtsi2ss'' ''Gx'' ''Ev'', op0 ''bad'',
     op2 ''cvttss2si'' ''Gv'' ''Ex'', op2 ''cvtss2si'' ''Gv'' ''Ex'',
     op0 ''bad'', op0 ''bad'']"

definition sse_repz_50 :: x86_insn_group8 where
  "sse_repz_50 =
    [op0 ''bad'', op2 ''sqrtss'' ''Gx'' ''Ex'',
     op2 ''rsqrtps'' ''Gx'' ''Ex'', op2 ''rcpss'' ''Gx'' ''Ex'',
     op0 ''bad'', op0 ''bad'',
     op0 ''bad'', op0 ''bad'']"

definition sse_repz_58 :: x86_insn_group8 where
  "sse_repz_58 =
    [op2 ''addss'' ''Gx'' ''Ex'', op2 ''mulss'' ''Gx'' ''Ex'',
     op2 ''cvtss2sd'' ''Gx'' ''Ex'', op2 ''cvttps2dq'' ''Gx'' ''Ex'',
     op2 ''subss'' ''Gx'' ''Ex'', op2 ''minss'' ''Gx'' ''Ex'',
     op2 ''divss'' ''Gx'' ''Ex'', op2 ''maxss'' ''Gx'' ''Ex'']"

definition sse_repz_60 :: x86_insn_group8 where
  "sse_repz_60 =
    [op0 ''bad'', op0 ''bad'',
     op0 ''bad'', op0 ''bad'',
     op0 ''bad'', op0 ''bad'',
     op0 ''bad'', op0 ''bad'']"

definition sse_repz_68 :: x86_insn_group8 where
  "sse_repz_68 =
    [op0 ''bad'', op0 ''bad'',
     op0 ''bad'', op0 ''bad'',
     op0 ''bad'', op0 ''bad'',
     op0 ''bad'', op2 ''movdqu'' ''Gx'' ''Ex'']"

definition sse_repz_70 :: x86_insn_group8 where
  "sse_repz_70 =
    [op3 ''pshufhw'' ''Gx'' ''Ex'' ''Ib'', op0 ''bad'',
     op0 ''bad'', op0 ''bad'',
     op0 ''bad'', op0 ''bad'',
     op0 ''bad'', op0 ''bad'']"

definition sse_repz_78 :: x86_insn_group8 where
  "sse_repz_78 =
    [op0 ''bad'', op0 ''bad'',
     op0 ''bad'', op0 ''bad'',
     op0 ''bad'', op0 ''bad'',
     op2 ''movq'' ''Gx'' ''Ex'', op2 ''movdqu'' ''Ex'' ''Gx'']"

definition sse_repz_c0 :: x86_insn_group8 where
  "sse_repz_c0 =
    [op0 ''bad'', op0 ''bad'',
     op3 ''cmpss'' ''Gx'' ''Ex'' ''Ib'', op0 ''bad'',
     op0 ''bad'', op0 ''bad'',
     op0 ''bad'', op0 ''bad'']"

definition sse_repz_d0 :: x86_insn_group8 where
  "sse_repz_d0 =
    [op0 ''bad'', op0 ''bad'',
     op0 ''bad'', op0 ''bad'',
     op0 ''bad'', op0 ''bad'',
     op2 ''movq2dq'' ''Gx'' ''Em'', op0 ''bad'']"

definition sse_repz_d8 :: x86_insn_group8 where
  "sse_repz_d8 =
    [op0 ''bad'', op0 ''bad'',
     op0 ''bad'', op0 ''bad'',
     op0 ''bad'', op0 ''bad'',
     op0 ''bad'', op0 ''bad'']"

definition sse_repz_e0 :: x86_insn_group8 where
  "sse_repz_e0 =
    [op0 ''bad'', op0 ''bad'',
     op0 ''bad'', op0 ''bad'',
     op0 ''bad'', op0 ''bad'',
     op2 ''cvtdq2pd'' ''Gx'' ''Ex'', op0 ''bad'']"

definition sse_repz_e8 :: x86_insn_group8 where
  "sse_repz_e8 =
    [op0 ''bad'', op0 ''bad'',
     op0 ''bad'', op0 ''bad'',
     op0 ''bad'', op0 ''bad'',
     op0 ''bad'', op0 ''bad'']"

definition sse_repz_f0 :: x86_insn_group8 where
  "sse_repz_f0 =
    [op0 ''bad'', op0 ''bad'',
     op0 ''bad'', op0 ''bad'',
     op0 ''bad'', op0 ''bad'',
     op0 ''bad'', op0 ''bad'']"

definition sse_repz_f8 :: x86_insn_group8 where
  "sse_repz_f8 =
    [op0 ''bad'', op0 ''bad'',
     op0 ''bad'', op0 ''bad'',
     op0 ''bad'', op0 ''bad'',
     op0 ''bad'', op0 ''bad'']"

definition x86_insn_sse_groups_repz :: "x86_insn_group8 list" where
  "x86_insn_sse_groups_repz = replicate 20 zero_group @
    [sse_repz_10, sse_repz_28, sse_repz_50, sse_repz_58, sse_repz_60, sse_repz_68,
     sse_repz_70, sse_repz_78, sse_repz_c0, sse_repz_d0, sse_repz_d8, sse_repz_e0,
     sse_repz_e8, sse_repz_f0, sse_repz_f8]"

definition sse_operand_size_10 :: x86_insn_group8 where
  "sse_operand_size_10 =
    [op2 ''movupd'' ''Gx'' ''Ex'', op2 ''movupd'' ''Ex'' ''Gx'',
     op2 ''movlpd'' ''Gx'' ''Ex'', op2 ''movlpd'' ''Ex'' ''Gx'',
     op2 ''unpcklpd'' ''Gx'' ''Ex'', op2 ''unpckhpd'' ''Gx'' ''Ex'',
     op2 ''movhpd'' ''Gx'' ''Mx'', op2 ''movhpd'' ''Mx'' ''Gx'']"

definition sse_operand_size_28 :: x86_insn_group8 where
  "sse_operand_size_28 =
    [op2 ''movapd'' ''Gx'' ''Ex'', op2 ''movapd'' ''Ex'' ''Gx'',
     op2 ''cvtpi2pd'' ''Gx'' ''Ex'', op2 ''movntpd'' ''Mx'' ''Gx'',
     op2 ''cvttpd2pi'' ''Gx'' ''Mx'', op2 ''cvtpd2pi'' ''Gx'' ''Mx'',
     op2 ''ucomisd'' ''Gx'' ''Ex'', op2 ''comisd'' ''Gx'' ''Ex'']"

definition sse_operand_size_50 :: x86_insn_group8 where
  "sse_operand_size_50 =
    [op2 ''movmskpd'' ''Gd'' ''Rx'', op2 ''sqrtpd'' ''Gx'' ''Ex'',
     op0 ''bad'', op0 ''bad'',
     op2 ''andpd'' ''Gx'' ''Ex'', op2 ''andnpd'' ''Gx'' ''Ex'',
     op2 ''orpd'' ''Gx'' ''Ex'', op2 ''xorpd'' ''Gx'' ''Ex'']"

definition sse_operand_size_58 :: x86_insn_group8 where
  "sse_operand_size_58 =
    [op2 ''addpd'' ''Gx'' ''Ex'', op2 ''mulpd'' ''Gx'' ''Ex'',
     op2 ''cvtpd2ps'' ''Gx'' ''Ex'', op2 ''cvtps2dq'' ''Gx'' ''Ex'',
     op2 ''subpd'' ''Gx'' ''Ex'', op2 ''minpd'' ''Gx'' ''Ex'',
     op2 ''divpd'' ''Gx'' ''Ex'', op2 ''maxpd'' ''Gx'' ''Ex'']"

definition sse_operand_size_60 :: x86_insn_group8 where
  "sse_operand_size_60 =
    [op2 ''punpcklbw'' ''Gx'' ''Ex'', op2 ''punpcklwd'' ''Gx'' ''Ex'',
     op2 ''punpckldq'' ''Gx'' ''Ex'', op2 ''packsswb'' ''Gx'' ''Ex'',
     op2 ''pcmpgtb'' ''Gx'' ''Ex'', op2 ''pcmpgtw'' ''Gx'' ''Ex'',
     op2 ''pcmpgtd'' ''Gx'' ''Ex'', op2 ''packuswb'' ''Gx'' ''Ex'']"

definition sse_operand_size_68 :: x86_insn_group8 where
  "sse_operand_size_68 =
    [op2 ''punpckhbw'' ''Gx'' ''Ex'', op2 ''punpckhwd'' ''Gx'' ''Ex'',
     op2 ''punpckhdq'' ''Gx'' ''Ex'', op2 ''packssdw'' ''Gx'' ''Ex'',
     op2 ''punpcklqdq'' ''Gx'' ''Ex'', op2 ''punpckhqdq'' ''Gx'' ''Ex'',
     op2 ''movd'' ''Gx'' ''Ev'', op2 ''movdqa'' ''Gx'' ''Ex'']"

definition sse_operand_size_70 :: x86_insn_group8 where
  "sse_operand_size_70 =
    [op3 ''pshufd'' ''Gx'' ''Ex'' ''Ib'', op0f ''modrm_group_12'' (group_flag MODRM_REG_GROUP_12),
     op0f ''modrm_group_13'' (group_flag MODRM_REG_GROUP_13), op0f ''modrm_group_14'' (group_flag MODRM_REG_GROUP_14),
     op2 ''pcmpeqb'' ''Gx'' ''Ex'', op2 ''pcmpeqw'' ''Gx'' ''Ex'',
     op2 ''pcmpeqd'' ''Gx'' ''Ex'', op0 ''bad'']"

definition sse_operand_size_78 :: x86_insn_group8 where
  "sse_operand_size_78 =
    [op0 ''bad'', op0 ''bad'',
     op0 ''bad'', op0 ''bad'',
     op2 ''haddpd'' ''Gx'' ''Ex'', op2 ''hsubpd'' ''Gx'' ''Ex'',
     op2 ''movd'' ''Ev'' ''Gx'', op2 ''movdqa'' ''Ex'' ''Gx'']"

definition sse_operand_size_c0 :: x86_insn_group8 where
  "sse_operand_size_c0 =
    [op0 ''bad'', op0 ''bad'',
     op3 ''cmppd'' ''Gx'' ''Ex'' ''Ib'', op0 ''bad'',
     op3 ''pinsrw'' ''Gx'' ''Ew'' ''Ib'', op3 ''pextrw'' ''Gd'' ''Gx'' ''Ib'',
     op3 ''shufpd'' ''Gx'' ''Ex'' ''Ib'', op0 ''bad'']"

definition sse_operand_size_d0 :: x86_insn_group8 where
  "sse_operand_size_d0 =
    [op2 ''addsubpd'' ''Gx'' ''Ex'', op2 ''psrlw'' ''Gx'' ''Ex'',
     op2 ''psrld'' ''Gx'' ''Ex'', op2 ''psrlq'' ''Gx'' ''Ex'',
     op2 ''paddq'' ''Gx'' ''Ex'', op2 ''pmullw'' ''Gx'' ''Ex'',
     op2 ''movq'' ''Ex'' ''Gx'', op2 ''pmovmskb'' ''Gd'' ''Rx'']"

definition sse_operand_size_d8 :: x86_insn_group8 where
  "sse_operand_size_d8 =
    [op2 ''psubusb'' ''Gx'' ''Ex'', op2 ''psubusw'' ''Gx'' ''Ex'',
     op2 ''pminub'' ''Gx'' ''Ex'', op2 ''pand'' ''Gx'' ''Ex'',
     op2 ''paddusb'' ''Gx'' ''Ex'', op2 ''paddusw'' ''Gx'' ''Ex'',
     op2 ''pmaxub'' ''Gx'' ''Ex'', op2 ''pandn'' ''Gx'' ''Ex'']"

definition sse_operand_size_e0 :: x86_insn_group8 where
  "sse_operand_size_e0 =
    [op2 ''pavgb'' ''Gx'' ''Ex'', op2 ''psraw'' ''Gx'' ''Ex'',
     op2 ''psrad'' ''Gx'' ''Ex'', op2 ''pavgw'' ''Gx'' ''Ex'',
     op2 ''pmulhuw'' ''Gx'' ''Ex'', op2 ''pmulhw'' ''Gx'' ''Ex'',
     op2 ''cvttpd2dq'' ''Gx'' ''Ex'', op2 ''movntdq'' ''Mx'' ''Gx'']"

definition sse_operand_size_e8 :: x86_insn_group8 where
  "sse_operand_size_e8 =
    [op2 ''psubsb'' ''Gx'' ''Ex'', op2 ''psubsw'' ''Gx'' ''Ex'',
     op2 ''pminsw'' ''Gx'' ''Ex'', op2 ''por'' ''Gx'' ''Ex'',
     op2 ''paddsb'' ''Gx'' ''Ex'', op2 ''paddsw'' ''Gx'' ''Ex'',
     op2 ''pmaxsw'' ''Gx'' ''Ex'', op2 ''pxor'' ''Gx'' ''Ex'']"

definition sse_operand_size_f0 :: x86_insn_group8 where
  "sse_operand_size_f0 =
    [op0 ''bad'', op2 ''psllw'' ''Gx'' ''Ex'',
     op2 ''pslld'' ''Gx'' ''Ex'', op2 ''psllq'' ''Gx'' ''Ex'',
     op2 ''pmuludq'' ''Gx'' ''Ex'', op2 ''pmaddwd'' ''Gx'' ''Ex'',
     op2 ''psadbw'' ''Gx'' ''Ex'', op2 ''maskmovdqu'' ''Gx'' ''Ex'']"

definition sse_operand_size_f8 :: x86_insn_group8 where
  "sse_operand_size_f8 =
    [op2 ''psubb'' ''Gx'' ''Ex'', op2 ''psubw'' ''Gx'' ''Ex'',
     op2 ''psubd'' ''Gx'' ''Ex'', op2 ''psubq'' ''Gx'' ''Ex'',
     op2 ''paddb'' ''Gx'' ''Ex'', op2 ''paddw'' ''Gx'' ''Ex'',
     op2 ''paddd'' ''Gx'' ''Ex'', op0 ''bad'']"

definition x86_insn_sse_groups_operand_size :: "x86_insn_group8 list" where
  "x86_insn_sse_groups_operand_size = replicate 20 zero_group @
    [sse_operand_size_10, sse_operand_size_28, sse_operand_size_50, sse_operand_size_58, sse_operand_size_60, sse_operand_size_68,
     sse_operand_size_70, sse_operand_size_78, sse_operand_size_c0, sse_operand_size_d0, sse_operand_size_d8, sse_operand_size_e0,
     sse_operand_size_e8, sse_operand_size_f0, sse_operand_size_f8]"

definition sse_repnz_10 :: x86_insn_group8 where
  "sse_repnz_10 =
    [op2 ''movsd'' ''Gx'' ''Ex'', op2 ''movsd'' ''Ex'' ''Gx'',
     op2 ''movddup'' ''Gx'' ''Ex'', op0 ''bad'',
     op0 ''bad'', op0 ''bad'',
     op0 ''bad'', op0 ''bad'']"

definition sse_repnz_28 :: x86_insn_group8 where
  "sse_repnz_28 =
    [op0 ''bad'', op0 ''bad'',
     op2 ''cvtsi2sd'' ''Gx'' ''Ev'', op0 ''bad'',
     op2 ''cvttsd2si'' ''Gv'' ''Ex'', op2 ''cvtsd2si'' ''Gv'' ''Ex'',
     op0 ''bad'', op0 ''bad'']"

definition sse_repnz_50 :: x86_insn_group8 where
  "sse_repnz_50 =
    [op0 ''bad'', op2 ''sqrtsd'' ''Gx'' ''Ex'',
     op0 ''bad'', op0 ''bad'',
     op0 ''bad'', op0 ''bad'',
     op0 ''bad'', op0 ''bad'']"

definition sse_repnz_58 :: x86_insn_group8 where
  "sse_repnz_58 =
    [op2 ''addsd'' ''Gx'' ''Ex'', op2 ''mulsd'' ''Gx'' ''Ex'',
     op2 ''cvtsd2ss'' ''Gx'' ''Ex'', op0 ''bad'',
     op2 ''subsd'' ''Gx'' ''Ex'', op2 ''minsd'' ''Gx'' ''Ex'',
     op2 ''divsd'' ''Gx'' ''Ex'', op2 ''maxsd'' ''Gx'' ''Ex'']"

definition sse_repnz_60 :: x86_insn_group8 where
  "sse_repnz_60 =
    [op0 ''bad'', op0 ''bad'',
     op0 ''bad'', op0 ''bad'',
     op0 ''bad'', op0 ''bad'',
     op0 ''bad'', op0 ''bad'']"

definition sse_repnz_68 :: x86_insn_group8 where
  "sse_repnz_68 =
    [op0 ''bad'', op0 ''bad'',
     op0 ''bad'', op0 ''bad'',
     op0 ''bad'', op0 ''bad'',
     op0 ''bad'', op0 ''bad'']"

definition sse_repnz_70 :: x86_insn_group8 where
  "sse_repnz_70 =
    [op3 ''pshuflw'' ''Gx'' ''Ex'' ''Ib'', op0 ''bad'',
     op0 ''bad'', op0 ''bad'',
     op0 ''bad'', op0 ''bad'',
     op0 ''bad'', op0 ''bad'']"

definition sse_repnz_78 :: x86_insn_group8 where
  "sse_repnz_78 =
    [op0 ''bad'', op0 ''bad'',
     op0 ''bad'', op0 ''bad'',
     op2 ''haddps'' ''Gx'' ''Ex'', op2 ''hsubps'' ''Gx'' ''Ex'',
     op0 ''bad'', op0 ''bad'']"

definition sse_repnz_c0 :: x86_insn_group8 where
  "sse_repnz_c0 =
    [op0 ''bad'', op0 ''bad'',
     op3 ''cmpsd'' ''Gx'' ''Ex'' ''Ib'', op0 ''bad'',
     op0 ''bad'', op0 ''bad'',
     op0 ''bad'', op0 ''bad'']"

definition sse_repnz_d0 :: x86_insn_group8 where
  "sse_repnz_d0 =
    [op2 ''addsubps'' ''Gx'' ''Ex'', op0 ''bad'',
     op0 ''bad'', op0 ''bad'',
     op0 ''bad'', op0 ''bad'',
     op2 ''movdq2q'' ''Gm'' ''Ex'', op0 ''bad'']"

definition sse_repnz_d8 :: x86_insn_group8 where
  "sse_repnz_d8 =
    [op0 ''bad'', op0 ''bad'',
     op0 ''bad'', op0 ''bad'',
     op0 ''bad'', op0 ''bad'',
     op0 ''bad'', op0 ''bad'']"

definition sse_repnz_e0 :: x86_insn_group8 where
  "sse_repnz_e0 =
    [op0 ''bad'', op0 ''bad'',
     op0 ''bad'', op0 ''bad'',
     op0 ''bad'', op0 ''bad'',
     op2 ''cvtpd2dq'' ''Gx'' ''Ex'', op0 ''bad'']"

definition sse_repnz_e8 :: x86_insn_group8 where
  "sse_repnz_e8 =
    [op0 ''bad'', op0 ''bad'',
     op0 ''bad'', op0 ''bad'',
     op0 ''bad'', op0 ''bad'',
     op0 ''bad'', op0 ''bad'']"

definition sse_repnz_f0 :: x86_insn_group8 where
  "sse_repnz_f0 =
    [op2 ''lddqu'' ''Gx'' ''Mx'', op0 ''bad'',
     op0 ''bad'', op0 ''bad'',
     op0 ''bad'', op0 ''bad'',
     op0 ''bad'', op0 ''bad'']"

definition sse_repnz_f8 :: x86_insn_group8 where
  "sse_repnz_f8 =
    [op0 ''bad'', op0 ''bad'',
     op0 ''bad'', op0 ''bad'',
     op0 ''bad'', op0 ''bad'',
     op0 ''bad'', op0 ''bad'']"

definition x86_insn_sse_groups_repnz :: "x86_insn_group8 list" where
  "x86_insn_sse_groups_repnz = replicate 20 zero_group @
    [sse_repnz_10, sse_repnz_28, sse_repnz_50, sse_repnz_58, sse_repnz_60, sse_repnz_68,
     sse_repnz_70, sse_repnz_78, sse_repnz_c0, sse_repnz_d0, sse_repnz_d8, sse_repnz_e0,
     sse_repnz_e8, sse_repnz_f0, sse_repnz_f8]"

end
