(* ===== verification/X86_Decoder.thy ===== *)
theory X86_Decoder
  imports X86_Opcode_Map
begin

text \<open>
  The x86 instruction decoder, \<^verbatim>\<open>x86_insn_decode.c\<close>, and its reader, \<^verbatim>\<open>x86_insn_reader.c\<close>.
  The reader copies fifteen bytes of code into a buffer of twenty (the rest holds
  \<^verbatim>\<open>0xcc\<close>); its cursor is an index into that buffer, and a read past the end of the buffer is
  the fault \<open>OutOfBounds\<close>. The decoder threads the reader and the decoded instruction through
  the prefix, opcode, ModRM/SIB and immediate stages in the order of the code.
\<close>

section \<open>The reader\<close>

record x86_insn_reader =
  rd_opcode :: nat
  rd_modrm :: nat
  rd_buffer :: bytes
  rd_cursor :: nat

definition reader_buffer_size :: nat where "reader_buffer_size = 20"

text \<open>
  The code bytes are given as the list of the bytes from \<^verbatim>\<open>begin\<close> to \<^verbatim>\<open>buffer_cursor\<close>. A range
  as long as the buffer is read in place.
\<close>

definition init_reader :: "bytes \<Rightarrow> x86_insn_reader" where
  "init_reader code =
    \<lparr>rd_opcode = 0, rd_modrm = 0,
     rd_buffer = (if length code < reader_buffer_size
                  then code @ replicate (reader_buffer_size - length code) 0xcc else code),
     rd_cursor = 0\<rparr>"

definition reader_offset :: "x86_insn_reader \<Rightarrow> u32" where
  "reader_offset rd = word_of_nat (rd_cursor rd)"

definition peek_byte :: "x86_insn_reader \<Rightarrow> u8 res" where
  "peek_byte rd = (if rd_cursor rd < length (rd_buffer rd) then Inr (rd_buffer rd ! rd_cursor rd) else Inl OutOfBounds)"

text \<open>\<open>peek_bytes\<close> is the access through the cursor as a pointer to \<open>n\<close> bytes.\<close>

definition peek_bytes :: "nat \<Rightarrow> x86_insn_reader \<Rightarrow> bytes res" where
  "peek_bytes n rd =
    (if rd_cursor rd + n \<le> length (rd_buffer rd) then Inr (take n (drop (rd_cursor rd) (rd_buffer rd)))
     else Inl OutOfBounds)"

definition advance :: "nat \<Rightarrow> x86_insn_reader \<Rightarrow> x86_insn_reader" where
  "advance n rd = rd\<lparr>rd_cursor := rd_cursor rd + n\<rparr>"

definition read_byte :: "x86_insn_reader \<Rightarrow> (u8 \<times> x86_insn_reader) res" where
  "read_byte rd = bindr (peek_byte rd) (\<lambda>b. Inr (b, advance 1 rd))"

definition read_word :: "x86_insn_reader \<Rightarrow> (u16 \<times> x86_insn_reader) res" where
  "read_word rd = bindr (peek_bytes 2 rd) (\<lambda>bs. Inr (le_word bs, advance 2 rd))"

definition read_dword :: "x86_insn_reader \<Rightarrow> (u32 \<times> x86_insn_reader) res" where
  "read_dword rd = bindr (peek_bytes 4 rd) (\<lambda>bs. Inr (le_word bs, advance 4 rd))"

text \<open>\<^verbatim>\<open>read_qword\<close> reads eight bytes and advances the cursor by four.\<close>

definition read_qword :: "x86_insn_reader \<Rightarrow> (u64 \<times> x86_insn_reader) res" where
  "read_qword rd = bindr (peek_bytes 8 rd) (\<lambda>bs. Inr (le_word bs, advance 4 rd))"

definition read_imm :: "x86_insn_reader \<Rightarrow> nat \<Rightarrow> (u32 \<times> x86_insn_reader) res" where
  "read_imm rd n =
    (if n = 8 then bindr (read_byte rd) (\<lambda>(b, rd). Inr (ucast b, rd))
     else if n = 16 then bindr (read_word rd) (\<lambda>(w, rd). Inr (ucast w, rd))
     else if n = 32 then read_dword rd
     else Inr (0, rd))"

definition read_modrm :: "x86_insn_reader \<Rightarrow> (u8 \<times> x86_insn_reader) res" where
  "read_modrm rd =
    (let rd' = (if rd_cursor rd = rd_modrm rd then advance 1 rd else rd) in
     if rd_modrm rd < length (rd_buffer rd) then Inr (rd_buffer rd ! rd_modrm rd, rd') else Inl OutOfBounds)"

definition continue_modrm :: "x86_insn_reader \<Rightarrow> x86_insn_reader" where
  "continue_modrm rd = rd\<lparr>rd_modrm := rd_cursor rd\<rparr>"

definition continue_opcode :: "x86_insn_reader \<Rightarrow> x86_insn_reader" where
  "continue_opcode rd = rd\<lparr>rd_modrm := rd_cursor rd, rd_opcode := rd_cursor rd\<rparr>"

section \<open>The decoded instruction\<close>

definition X86_INSN_DECODE_FLAG_HAS_BASE :: u32 where "X86_INSN_DECODE_FLAG_HAS_BASE = 1"
definition X86_INSN_DECODE_FLAG_HAS_INDEX :: u32 where "X86_INSN_DECODE_FLAG_HAS_INDEX = 2"
definition X86_INSN_DECODE_FLAG_IS_ADDRESS :: u32 where "X86_INSN_DECODE_FLAG_IS_ADDRESS = 4"
definition X86_INSN_DECODE_FLAG_IP_RELATIVE :: u32 where "X86_INSN_DECODE_FLAG_IP_RELATIVE = 8"
definition X86_INSN_DECODE_FLAG_OPERAND_SIZE_64 :: u32 where "X86_INSN_DECODE_FLAG_OPERAND_SIZE_64 = 16"

datatype x86_insn_prefix =
    INSN_PREFIX_NONE | INSN_PREFIX_LOCK | INSN_PREFIX_REPNE | INSN_PREFIX_REPE
  | INSN_PREFIX_ES | INSN_PREFIX_CS | INSN_PREFIX_SS | INSN_PREFIX_DS | INSN_PREFIX_FS | INSN_PREFIX_GS
  | INSN_PREFIX_OPERAND_SIZE | INSN_PREFIX_ADDRESS_SIZE

fun prefix_value :: "x86_insn_prefix \<Rightarrow> u32" where
  "prefix_value INSN_PREFIX_NONE = 0"
| "prefix_value INSN_PREFIX_LOCK = 0x01"
| "prefix_value INSN_PREFIX_REPNE = 0x02"
| "prefix_value INSN_PREFIX_REPE = 0x04"
| "prefix_value INSN_PREFIX_ES = 0x0008"
| "prefix_value INSN_PREFIX_CS = 0x0010"
| "prefix_value INSN_PREFIX_SS = 0x0020"
| "prefix_value INSN_PREFIX_DS = 0x0040"
| "prefix_value INSN_PREFIX_FS = 0x0080"
| "prefix_value INSN_PREFIX_GS = 0x0100"
| "prefix_value INSN_PREFIX_OPERAND_SIZE = 0x0200"
| "prefix_value INSN_PREFIX_ADDRESS_SIZE = 0x0400"

datatype x86_insn_gp_register = GP_AX | GP_CX | GP_DX | GP_BX | GP_SP | GP_BP | GP_SI | GP_DI

fun gp_reg :: "x86_insn_gp_register \<Rightarrow> u8" where
  "gp_reg GP_AX = 0" | "gp_reg GP_CX = 1" | "gp_reg GP_DX = 2" | "gp_reg GP_BX = 3"
| "gp_reg GP_SP = 4" | "gp_reg GP_BP = 5" | "gp_reg GP_SI = 6" | "gp_reg GP_DI = 7"

text \<open>The values of \<^verbatim>\<open>x86_ia32e_register_t\<close> the decoder uses.\<close>

definition RNone :: u8 where "RNone = 0"
definition RBP_enum :: u8 where "RBP_enum = 7"
definition R13_enum :: u8 where "R13_enum = 14"
definition RIP_enum :: u8 where "RIP_enum = 17"

record x86_insn_operand =
  opnd_reg :: u8
  opnd_base :: u8
  opnd_index :: u8
  opnd_scale :: u8
  opnd_disp :: u32

record x86_insn =
  insn_flags :: u32
  insn_length :: u32
  displacement_offset :: u8
  immediate_offset :: u8
  operands :: "x86_insn_operand list"
  insn_prefix :: u32
  rex :: u8
  primary_opcode :: u8
  modrm :: u8
  sib :: u8
  immediate :: u64
  insn_spec :: x86_insn_spec

definition zero_operand :: x86_insn_operand where
  "zero_operand = \<lparr>opnd_reg = 0, opnd_base = 0, opnd_index = 0, opnd_scale = 0, opnd_disp = 0\<rparr>"

text \<open>The instruction as the callers pass it, cleared by \<^verbatim>\<open>memset\<close>.\<close>

definition zero_insn :: x86_insn where
  "zero_insn = \<lparr>insn_flags = 0, insn_length = 0, displacement_offset = 0, immediate_offset = 0,
     operands = replicate 3 zero_operand, insn_prefix = 0, rex = 0, primary_opcode = 0, modrm = 0, sib = 0,
     immediate = 0, insn_spec = zero_spec\<rparr>"

definition set_flag :: "u32 \<Rightarrow> x86_insn \<Rightarrow> x86_insn" where
  "set_flag f i = i\<lparr>insn_flags := insn_flags i OR f\<rparr>"

definition upd_operand :: "nat \<Rightarrow> (x86_insn_operand \<Rightarrow> x86_insn_operand) \<Rightarrow> x86_insn \<Rightarrow> x86_insn" where
  "upd_operand k f i = i\<lparr>operands := (operands i)[k := f (operands i ! k)]\<rparr>"

definition REX_W :: "u8 \<Rightarrow> u8" where "REX_W b = drop_bit 3 (b AND 0b00001000)"
definition REX_R :: "u8 \<Rightarrow> u8" where "REX_R b = drop_bit 2 (b AND 0b00000100)"
definition REX_X :: "u8 \<Rightarrow> u8" where "REX_X b = drop_bit 1 (b AND 0b00000010)"
definition REX_B :: "u8 \<Rightarrow> u8" where "REX_B b = drop_bit 0 (b AND 0b00000001)"

text \<open>The bit fields of \<^verbatim>\<open>x86_insn_modrm_t\<close> and of \<^verbatim>\<open>x86_insn_sib_t\<close>.\<close>

definition modrm_rm :: "u8 \<Rightarrow> u8" where "modrm_rm b = b AND 7"
definition modrm_reg :: "u8 \<Rightarrow> u8" where "modrm_reg b = drop_bit 3 b AND 7"
definition modrm_mode :: "u8 \<Rightarrow> u8" where "modrm_mode b = drop_bit 6 b"
definition sib_base :: "u8 \<Rightarrow> u8" where "sib_base b = b AND 7"
definition sib_index :: "u8 \<Rightarrow> u8" where "sib_index b = drop_bit 3 b AND 7"
definition sib_log2_scale :: "u8 \<Rightarrow> u8" where "sib_log2_scale b = drop_bit 6 b"

section \<open>Prefixes\<close>

definition legacy_prefix :: "u8 \<Rightarrow> x86_insn_prefix" where
  "legacy_prefix c =
    (if c = 0xF0 then INSN_PREFIX_LOCK
     else if c = 0xF2 then INSN_PREFIX_REPNE
     else if c = 0xF3 then INSN_PREFIX_REPE
     else if c = 0x2E then INSN_PREFIX_CS
     else if c = 0x36 then INSN_PREFIX_SS
     else if c = 0x3E then INSN_PREFIX_DS
     else if c = 0x26 then INSN_PREFIX_ES
     else if c = 0x64 then INSN_PREFIX_FS
     else if c = 0x65 then INSN_PREFIX_GS
     else if c = 0x66 then INSN_PREFIX_OPERAND_SIZE
     else if c = 0x67 then INSN_PREFIX_ADDRESS_SIZE
     else INSN_PREFIX_NONE)"

lemma bindr_cong [fundef_cong]:
  "m = m' \<Longrightarrow> (\<And>x. m' = Inr x \<Longrightarrow> k x = k' x) \<Longrightarrow> bindr m k = bindr m' k'"
  by (cases m') auto

text \<open>
  The loop of \<^verbatim>\<open>x86_insn_decode_prefix\<close>; \<open>p\<close> is \<^verbatim>\<open>insn_prefix\<close>. It ends because each round
  consumes a byte of the reader's buffer.
\<close>

function decode_prefix_loop ::
  "int \<Rightarrow> x86_insn_reader \<Rightarrow> x86_insn \<Rightarrow> u32 \<Rightarrow> (u32 \<times> x86_insn_reader \<times> x86_insn) res" where
  "decode_prefix_loop mode rd i p =
    bindr (peek_byte rd) (\<lambda>c.
      if mode = 64 \<and> 0x40 \<le> c \<and> c \<le> 0x4f then
        bindr (read_byte rd) (\<lambda>(r, rd).
          Inr (p, rd, (if REX_W r \<noteq> 0 then set_flag X86_INSN_DECODE_FLAG_OPERAND_SIZE_64 i else i)\<lparr>rex := r\<rparr>))
      else
        (let t = legacy_prefix c in
         if prefix_value t = 0 then Inr (p, rd, i)
         else decode_prefix_loop mode (advance 1 rd) i (p OR prefix_value t)))"
  by pat_completeness auto

termination decode_prefix_loop
  by (relation "measure (\<lambda>(mode, rd, i, p). length (rd_buffer rd) - rd_cursor rd)")
    (auto simp: peek_byte_def advance_def split: if_splits)

declare decode_prefix_loop.simps [simp del]

definition x86_insn_decode_prefix ::
  "x86_insn_reader \<Rightarrow> x86_insn \<Rightarrow> int \<Rightarrow> (u32 \<times> x86_insn_reader \<times> x86_insn) res" where
  "x86_insn_decode_prefix rd i mode = decode_prefix_loop mode rd i 0"

section \<open>Operand queries\<close>

definition x86_insn_has_modrm_byte :: "x86_insn_spec \<Rightarrow> bool" where
  "x86_insn_has_modrm_byte s = list_ex (\<lambda>(c, t). c \<in> {CHR ''G'', CHR ''E'', CHR ''M'', CHR ''R''}) (spec_operands s)"

text \<open>
  \<^verbatim>\<open>x86_insn_immediate_type\<close> runs its index up to \<^verbatim>\<open>sizeof(insn->operands)\<close>, which is the size in
  bytes, 6: a specification without an immediate operand is read past the end of the array.
\<close>

fun immediate_type_from :: "(char \<times> char) list \<Rightarrow> char res" where
  "immediate_type_from [] = Inl OutOfBounds"
| "immediate_type_from ((c, t) # os) =
    (if c \<in> {CHR ''J'', CHR ''I'', CHR ''O''} then Inr t else immediate_type_from os)"

definition x86_insn_immediate_type :: "x86_insn_spec \<Rightarrow> char res" where
  "x86_insn_immediate_type s = immediate_type_from (spec_operands s)"

definition x86_insn_has_immediate :: "x86_insn_spec \<Rightarrow> bool" where
  "x86_insn_has_immediate s = list_ex (\<lambda>(c, t). c \<in> {CHR ''J'', CHR ''I'', CHR ''O''}) (spec_operands s)"

definition x86_insn_decode_number :: "x86_insn_reader \<Rightarrow> u8 \<Rightarrow> (u64 \<times> x86_insn_reader) res" where
  "x86_insn_decode_number rd number_bits =
    (if number_bits = 64 then read_qword rd
     else if number_bits = 32 then bindr (read_dword rd) (\<lambda>(v, rd). Inr (ucast v, rd))
     else if number_bits = 16 then bindr (read_word rd) (\<lambda>(v, rd). Inr (ucast v, rd))
     else if number_bits = 8 then bindr (read_byte rd) (\<lambda>(v, rd). Inr (ucast v, rd))
     else Inl Unreachable)"

section \<open>ModRM, SIB and displacement\<close>

text \<open>
  The address forms of 32-bit and 64-bit addressing; \<open>rm\<close> is the register number extended by
  \<^verbatim>\<open>REX.B\<close>. The result is the size of the displacement in bits.
\<close>

definition decode_sib ::
  "u8 \<Rightarrow> u8 \<Rightarrow> u8 \<Rightarrow> x86_insn_reader \<Rightarrow> x86_insn \<Rightarrow> (u8 \<times> x86_insn_reader \<times> x86_insn) res" where
  "decode_sib address_bits md disp_bits rd i =
    bindr (read_byte rd) (\<lambda>(sb, rd).
     let i = i\<lparr>sib := sb\<rparr>;
         base = sib_base sb OR push_bit 3 (REX_B (rex i));
         index = sib_index sb OR push_bit 3 (REX_X (rex i));
         scale = push_bit (unat (sib_log2_scale sb)) 1;
         i = set_flag X86_INSN_DECODE_FLAG_HAS_BASE i;
         i = (if sib_index sb \<noteq> gp_reg GP_SP then set_flag X86_INSN_DECODE_FLAG_HAS_INDEX i else i);
         i = upd_operand 1 (\<lambda>m. m\<lparr>opnd_base := base, opnd_index := index, opnd_scale := scale\<rparr>) i;
         i = (if sib_index sb = gp_reg GP_SP then upd_operand 1 (\<lambda>m. m\<lparr>opnd_index := RNone, opnd_scale := 0\<rparr>) i else i);
         frame = (address_bits = 64 \<and> (base = RBP_enum \<or> base = R13_enum) \<or> address_bits = 32 \<and> base = RBP_enum);
         i = (if frame \<and> md = 0 then upd_operand 1 (\<lambda>m. m\<lparr>opnd_base := RNone\<rparr>) i else i);
         disp_bits = (if frame then (if md = 1 then 8 else 32) else disp_bits) in
     Inr (disp_bits, rd, i))"

definition decode_address ::
  "u8 \<Rightarrow> u8 \<Rightarrow> u8 \<Rightarrow> x86_insn_reader \<Rightarrow> x86_insn \<Rightarrow> (u8 \<times> x86_insn_reader \<times> x86_insn) res" where
  "decode_address address_bits md rm rd i =
    (let i = upd_operand 1 (\<lambda>m. m\<lparr>opnd_base := rm\<rparr>) i;
         i = set_flag X86_INSN_DECODE_FLAG_HAS_BASE i;
         ip_relative = (md = 0 \<and> rm AND 7 = 5);
         i = (if ip_relative
              then upd_operand 1 (\<lambda>m. m\<lparr>opnd_base := RIP_enum\<rparr>) (i\<lparr>insn_flags := X86_INSN_DECODE_FLAG_IP_RELATIVE\<rparr>)
              else i);
         disp_bits = (if ip_relative then 32 else if md = 0 then 0 else if md = 1 then 8 else if md = 2 then 32 else 0) in
     if rm AND 7 = 4 then decode_sib address_bits md disp_bits rd i
     else Inr (disp_bits, rd, i))"

text \<open>
  The forms of 16-bit addressing. Mode 0 without a displacement leaves \<^verbatim>\<open>disp_bits\<close> at its initial
  value, \<^verbatim>\<open>(uint8_t)-1\<close>.
\<close>

definition address16_regs :: "u8 \<Rightarrow> x86_insn \<Rightarrow> x86_insn" where
  "address16_regs rm i =
    (if rm = 0 \<or> rm = 1 then
       set_flag (X86_INSN_DECODE_FLAG_HAS_BASE OR X86_INSN_DECODE_FLAG_HAS_INDEX)
         (upd_operand 1 (\<lambda>m. m\<lparr>opnd_base := gp_reg GP_BX, opnd_index := gp_reg GP_SI + (rm AND 1)\<rparr>) i)
     else if rm = 2 \<or> rm = 3 then
       set_flag (X86_INSN_DECODE_FLAG_HAS_BASE OR X86_INSN_DECODE_FLAG_HAS_INDEX)
         (upd_operand 1 (\<lambda>m. m\<lparr>opnd_base := gp_reg GP_BP, opnd_index := gp_reg GP_SI + (rm AND 1)\<rparr>) i)
     else if rm = 4 \<or> rm = 5 then
       set_flag X86_INSN_DECODE_FLAG_HAS_BASE (upd_operand 1 (\<lambda>m. m\<lparr>opnd_base := gp_reg GP_SI + (rm AND 1)\<rparr>) i)
     else if rm = 6 then
       set_flag X86_INSN_DECODE_FLAG_HAS_BASE (upd_operand 1 (\<lambda>m. m\<lparr>opnd_base := gp_reg GP_BP\<rparr>) i)
     else
       set_flag X86_INSN_DECODE_FLAG_HAS_BASE (upd_operand 1 (\<lambda>m. m\<lparr>opnd_base := gp_reg GP_BX\<rparr>) i))"

definition decode_address16 :: "u8 \<Rightarrow> u8 \<Rightarrow> x86_insn \<Rightarrow> u8 \<times> x86_insn" where
  "decode_address16 md rm i =
    (if md = 0 \<and> rm = 6 then (16, i)
     else (if md = 0 then -1 else if md = 1 then 8 else 16, address16_regs rm i))"

definition effective_address_bits :: "int \<Rightarrow> u32 \<Rightarrow> u8 res" where
  "effective_address_bits mode p =
    (let override = p AND prefix_value INSN_PREFIX_ADDRESS_SIZE \<noteq> 0 in
     if mode = 64 then Inr (if override then 32 else 64)
     else if mode = 32 then Inr (if override then 16 else 32)
     else Inl Fatal)"

definition decode_displacement :: "u8 \<Rightarrow> x86_insn_reader \<Rightarrow> x86_insn \<Rightarrow> (x86_insn_reader \<times> x86_insn) res" where
  "decode_displacement disp_bits rd i =
    (if disp_bits \<noteq> 0 then
       (let i = i\<lparr>displacement_offset := ucast (reader_offset rd)\<rparr> in
        bindr (x86_insn_decode_number rd disp_bits) (\<lambda>(disp, rd).
          Inr (rd, upd_operand 1 (\<lambda>m. m\<lparr>opnd_disp := ucast disp\<rparr>) i)))
     else Inr (rd, i))"

definition x86_insn_decode_modrm_sib ::
  "x86_insn_reader \<Rightarrow> x86_insn \<Rightarrow> int \<Rightarrow> (x86_insn_reader \<times> x86_insn) res" where
  "x86_insn_decode_modrm_sib rd i mode =
    bindr (read_byte rd) (\<lambda>(mb, rd).
     let i = i\<lparr>modrm := mb\<rparr>;
         md = modrm_mode mb;
         rm = push_bit 3 (REX_B (rex i)) OR modrm_rm mb;
         reg = push_bit 3 (REX_R (rex i)) OR modrm_reg mb;
         i = upd_operand 0 (\<lambda>m. m\<lparr>opnd_reg := reg\<rparr>) i in
     if md = 3 then Inr (rd, upd_operand 1 (\<lambda>m. m\<lparr>opnd_reg := rm\<rparr>) i)
     else
       (let i = set_flag X86_INSN_DECODE_FLAG_IS_ADDRESS i in
        bindr (effective_address_bits mode (insn_prefix i)) (\<lambda>address_bits.
        bindr (if address_bits = 32 \<or> address_bits = 64 then decode_address address_bits md rm rd i
               else (case decode_address16 md (modrm_rm mb) i of (disp_bits, i) \<Rightarrow> Inr (disp_bits, rd, i)))
          (\<lambda>(disp_bits, rd, i). decode_displacement disp_bits rd i))))"

section \<open>Opcode, immediate and the whole instruction\<close>

definition x86_insn_decode_opcode :: "x86_insn_reader \<Rightarrow> x86_insn \<Rightarrow> (x86_insn_reader \<times> x86_insn) res" where
  "x86_insn_decode_opcode rd i =
    bindr (read_byte rd) (\<lambda>(opcode, rd).
    bindr (if opcode = 0x0f
           then bindr (read_byte rd) (\<lambda>(opcode, rd). Inr (opcode, x86_opcode_map_two_byte ! unat opcode, rd))
           else Inr (opcode, x86_opcode_map_one_byte ! unat opcode, rd)) (\<lambda>(opcode, spec, rd).
    let group = X86_INSN_FLAG_GET_GROUP (spec_flags spec) in
    if group > X86_INSN_SSE_GROUP_START then Inl Unimplemented
    else if group > X86_INSN_GROUP_START \<and> group < X86_INSN_SSE_GROUP_START then
      bindr (peek_byte rd) (\<lambda>mb.
       let group_insn = (x86_insn_modrm_reg_groups ! group) ! unat (modrm_reg mb) in
       Inr (rd, i\<lparr>primary_opcode := opcode,
                  insn_spec := spec\<lparr>spec_name := spec_name group_insn, spec_flags := spec_flags group_insn\<rparr>\<rparr>))
    else Inr (rd, i\<lparr>primary_opcode := opcode, insn_spec := spec\<rparr>)))"

definition x86_insn_imm_bits :: "x86_insn_spec \<Rightarrow> u8 \<Rightarrow> u8 res" where
  "x86_insn_imm_bits s operand_bits =
    bindr (x86_insn_immediate_type s) (\<lambda>t.
     Inr (if t = CHR ''b'' then 8
          else if t = CHR ''w'' then 16
          else if t = CHR ''d'' then 32
          else if t = CHR ''q'' then 64
          else if t = CHR ''z'' then (if operand_bits = 64 then 32 else operand_bits)
          else if t = CHR ''v'' then operand_bits
          else 0))"

text \<open>
  The operand size. In a mode other than 32 and 64 the variable is read uninitialised unless a
  \<^verbatim>\<open>REX.W\<close> was seen; the model stops there.
\<close>

definition effective_operand_bits :: "int \<Rightarrow> x86_insn \<Rightarrow> u8 res" where
  "effective_operand_bits mode i =
    (if mode = 64 \<and> spec_flags (insn_spec i) AND X86_INSN_SPEC_DEFAULT_64_BIT \<noteq> 0 then Inr 64
     else if insn_flags i AND X86_INSN_DECODE_FLAG_OPERAND_SIZE_64 \<noteq> 0 then Inr 64
     else if mode = 64 \<or> mode = 32
     then Inr (if insn_prefix i AND prefix_value INSN_PREFIX_OPERAND_SIZE \<noteq> 0 then 16 else 32)
     else Inl Unreachable)"

definition x86_insn_decode_immediate ::
  "x86_insn_reader \<Rightarrow> x86_insn \<Rightarrow> int \<Rightarrow> (x86_insn_reader \<times> x86_insn) res" where
  "x86_insn_decode_immediate rd i mode =
    bindr (effective_operand_bits mode i) (\<lambda>operand_bits.
    bindr (x86_insn_imm_bits (insn_spec i) operand_bits) (\<lambda>imm_bits.
    if imm_bits = 0 then Inr (rd, i)
    else
      (let i = i\<lparr>immediate_offset := ucast (reader_offset rd)\<rparr> in
       bindr (x86_insn_decode_number rd imm_bits) (\<lambda>(imm, rd). Inr (rd, i\<lparr>immediate := imm\<rparr>)))))"

text \<open>\<open>code\<close> are the fifteen bytes at \<^verbatim>\<open>buffer\<close>.\<close>

definition x86_insn_decode :: "x86_insn \<Rightarrow> bytes \<Rightarrow> int \<Rightarrow> x86_insn res" where
  "x86_insn_decode i code mode =
    bindr (x86_insn_decode_prefix (init_reader code) i mode) (\<lambda>(p, rd, i).
    bindr (x86_insn_decode_opcode rd (i\<lparr>insn_prefix := p\<rparr>)) (\<lambda>(rd, i).
    bindr (if x86_insn_has_modrm_byte (insn_spec i) then x86_insn_decode_modrm_sib rd i mode else Inr (rd, i)) (\<lambda>(rd, i).
    bindr (if x86_insn_has_immediate (insn_spec i) then x86_insn_decode_immediate rd i mode else Inr (rd, i)) (\<lambda>(rd, i).
    Inr (i\<lparr>insn_length := word_of_nat (rd_cursor rd)\<rparr>)))))"

section \<open>Frame rules\<close>

lemma advance_simps [simp]:
  "rd_cursor (advance n rd) = rd_cursor rd + n"
  "rd_buffer (advance n rd) = rd_buffer rd"
  "advance 0 rd = rd"
  "advance n (advance m rd) = advance (m + n) rd"
  by (simp_all add: advance_def)

lemma set_flag_simps [simp]:
  "insn_spec (set_flag f i) = insn_spec i" "insn_prefix (set_flag f i) = insn_prefix i"
  "primary_opcode (set_flag f i) = primary_opcode i" "rex (set_flag f i) = rex i"
  "immediate_offset (set_flag f i) = immediate_offset i" "displacement_offset (set_flag f i) = displacement_offset i"
  "operands (set_flag f i) = operands i" "insn_flags (set_flag f i) = insn_flags i OR f"
  by (simp_all add: set_flag_def)

lemma upd_operand_simps [simp]:
  "insn_spec (upd_operand k f i) = insn_spec i" "insn_prefix (upd_operand k f i) = insn_prefix i"
  "primary_opcode (upd_operand k f i) = primary_opcode i" "rex (upd_operand k f i) = rex i"
  "immediate_offset (upd_operand k f i) = immediate_offset i"
  "displacement_offset (upd_operand k f i) = displacement_offset i"
  "insn_flags (upd_operand k f i) = insn_flags i"
  "operands (upd_operand k f i) = (operands i)[k := f (operands i ! k)]"
  by (simp_all add: upd_operand_def)

end
