(* ===== verification/X86_Length.thy ===== *)
theory X86_Length
  imports X86_Decoder
begin

text \<open>
  What the x86 decoder gets right: the length of an instruction, compared with the encoding rules of
  the architecture, which are stated here independently of the tables of the code.
\<close>

section \<open>Reader and prefixes\<close>

lemma peek_byte_at: "rd_cursor rd < length (rd_buffer rd) \<Longrightarrow> peek_byte rd = Inr (rd_buffer rd ! rd_cursor rd)"
  by (simp add: peek_byte_def)

lemma read_byte_at:
  "rd_cursor rd < length (rd_buffer rd) \<Longrightarrow> read_byte rd = Inr (rd_buffer rd ! rd_cursor rd, advance 1 rd)"
  by (simp add: read_byte_def peek_byte_at)

text \<open>\<open>is_prefix\<close>: the legacy prefixes of the architecture.\<close>

definition is_prefix :: "u8 \<Rightarrow> bool" where
  "is_prefix b \<longleftrightarrow> b \<in> {0xF0, 0xF2, 0xF3, 0x2E, 0x36, 0x3E, 0x26, 0x64, 0x65, 0x66, 0x67}"

definition prefix_bits :: "bytes \<Rightarrow> u32" where
  "prefix_bits ps = fold (\<lambda>b p. p OR prefix_value (legacy_prefix b)) ps 0"

lemma prefix_value_eq_0: "prefix_value (legacy_prefix b) = 0 \<longleftrightarrow> \<not> is_prefix b"
  by (auto simp: legacy_prefix_def is_prefix_def)

lemma is_prefix_not_rex: "is_prefix b \<Longrightarrow> \<not> (0x40 \<le> b \<and> b \<le> 0x4f)"
  by (auto simp: is_prefix_def)

lemma drop_ConsD: "drop n xs = x # ys \<Longrightarrow> n < length xs \<and> xs ! n = x \<and> drop (Suc n) xs = ys"
  by (metis Cons_nth_drop_Suc drop_all list.discI list.inject not_le)

lemma decode_prefix_loop_legacy:
  assumes "drop (rd_cursor rd) (rd_buffer rd) = ps @ rest" "list_all is_prefix ps"
  shows "decode_prefix_loop mode rd i p =
    decode_prefix_loop mode (advance (length ps) rd) i (fold (\<lambda>b p. p OR prefix_value (legacy_prefix b)) ps p)"
  using assms
proof (induction ps arbitrary: rd p)
  case (Cons b ps)
  have at: "rd_cursor rd < length (rd_buffer rd)" "rd_buffer rd ! rd_cursor rd = b"
    "drop (Suc (rd_cursor rd)) (rd_buffer rd) = ps @ rest"
    using Cons.prems(1) drop_ConsD by fastforce+
  then show ?case
    using Cons.prems(2) Cons.IH [of "advance 1 rd"] at is_prefix_not_rex [of b]
    by (subst decode_prefix_loop.simps) (auto simp: peek_byte_at prefix_value_eq_0 Let_def)
qed simp

lemma prefix_bits_iff:
  assumes "t \<in> {INSN_PREFIX_OPERAND_SIZE, INSN_PREFIX_ADDRESS_SIZE}"
  shows "prefix_bits ps AND prefix_value t \<noteq> 0 \<longleftrightarrow> (\<exists>b \<in> set ps. legacy_prefix b = t)"
proof -
  have one: "prefix_value (legacy_prefix b) AND prefix_value t = 0 \<longleftrightarrow> legacy_prefix b \<noteq> t" for b
    using assms by (cases "legacy_prefix b") auto
  have "fold (\<lambda>b p. p OR prefix_value (legacy_prefix b)) ps p AND prefix_value t = 0 \<longleftrightarrow>
      p AND prefix_value t = 0 \<and> (\<forall>b \<in> set ps. legacy_prefix b \<noteq> t)" for p
    by (induction ps arbitrary: p) (auto simp: bit.conj_disj_distrib2 or_eq_0_iff one)
  from this [of 0] show ?thesis
    by (auto simp: prefix_bits_def)
qed


lemma decode_prefix_end:
  assumes "drop (rd_cursor rd) (rd_buffer rd) = c # rest"
  shows "\<not> is_prefix c \<Longrightarrow> \<not> (0x40 \<le> c \<and> c \<le> 0x4f) \<Longrightarrow> decode_prefix_loop 64 rd i p = Inr (p, rd, i)"
    and "0x40 \<le> c \<Longrightarrow> c \<le> 0x4f \<Longrightarrow> decode_prefix_loop 64 rd i p =
      Inr (p, advance 1 rd, (if REX_W c \<noteq> 0 then set_flag X86_INSN_DECODE_FLAG_OPERAND_SIZE_64 i else i)\<lparr>rex := c\<rparr>)"
proof -
  have at: "rd_cursor rd < length (rd_buffer rd)" "rd_buffer rd ! rd_cursor rd = c"
    using assms drop_ConsD by fastforce+
  then show "\<not> is_prefix c \<Longrightarrow> \<not> (0x40 \<le> c \<and> c \<le> 0x4f) \<Longrightarrow> decode_prefix_loop 64 rd i p = Inr (p, rd, i)"
    by (subst decode_prefix_loop.simps) (auto simp: peek_byte_at prefix_value_eq_0 Let_def)
  show "0x40 \<le> c \<Longrightarrow> c \<le> 0x4f \<Longrightarrow> decode_prefix_loop 64 rd i p =
      Inr (p, advance 1 rd, (if REX_W c \<noteq> 0 then set_flag X86_INSN_DECODE_FLAG_OPERAND_SIZE_64 i else i)\<lparr>rex := c\<rparr>)"
    using at by (subst decode_prefix_loop.simps) (simp add: peek_byte_at read_byte_at)
qed

section \<open>Length of the ModRM form\<close>

text \<open>
  The number of bytes of ModRM, SIB and displacement in 64-bit addressing: \<open>modrm_form_length\<close> is
  the rule of the architecture; \<open>modrm_form_read\<close> is what the code reads. The code compares the
  hardware number of the base register with the values of an enumeration whose order is different
  (\<^verbatim>\<open>RBP\<close> is 7 and \<^verbatim>\<open>R13\<close> is 14 there), so the two differ for some SIB forms of mode 0.
\<close>

definition modrm_form_length :: "u8 \<Rightarrow> u8 \<Rightarrow> nat" where
  "modrm_form_length mb sb =
    (if modrm_mode mb = 3 then 1
     else 1 + (if modrm_rm mb = 4 then 1 else 0) +
       (if modrm_mode mb = 1 then 1
        else if modrm_mode mb = 2 then 4
        else if modrm_rm mb = 5 \<or> modrm_rm mb = 4 \<and> sib_base sb = 5 then 4 else 0))"

definition sib_base_number :: "u8 \<Rightarrow> u8 \<Rightarrow> u8" where
  "sib_base_number r sb = sib_base sb OR push_bit 3 (REX_B r)"

definition modrm_form_read :: "u8 \<Rightarrow> u8 \<Rightarrow> u8 \<Rightarrow> nat" where
  "modrm_form_read r mb sb =
    (if modrm_mode mb = 3 then 1
     else 1 + (if modrm_rm mb = 4 then 1 else 0) +
       (if modrm_mode mb = 1 then 1
        else if modrm_mode mb = 2 then 4
        else if modrm_rm mb = 5 \<or> modrm_rm mb = 4 \<and> sib_base_number r sb \<in> {7, 14} then 4 else 0))"

definition sib_misread :: "u8 \<Rightarrow> u8 \<Rightarrow> u8 \<Rightarrow> bool" where
  "sib_misread r mb sb \<longleftrightarrow> modrm_mode mb = 0 \<and> modrm_rm mb = 4 \<and> (sib_base sb = 5 \<or> sib_base_number r sb \<in> {7, 14})"

lemma modrm_modes: "modrm_mode mb = 0 \<or> modrm_mode mb = 1 \<or> modrm_mode mb = 2 \<or> modrm_mode mb = 3"
proof -
  have "unat mb < 256"
    using unsigned_less [of mb, where 'a = nat] by simp
  then have "unat (modrm_mode mb) < 4"
    by (simp add: modrm_mode_def unat_drop_bit_eq drop_bit_nat_def less_mult_imp_div_less del: unat_drop_bit_eq)
      (simp add: drop_bit_eq_div unat_div)
  then show ?thesis
    by (auto simp: word_unat_eq_iff)
qed

lemma mask3: "(7 :: u8) = mask 3"
  by (simp add: mask_eq_exp_minus_1)

lemma extended_rm: "(push_bit 3 (REX_B r) OR modrm_rm mb) AND 7 = modrm_rm mb"
  unfolding REX_B_def modrm_rm_def mask3
  by (rule bit_word_eqI) (auto simp: bit_simps)

lemma sib_base_or: "sib_base sb OR push_bit 3 (REX_B r) = sib_base_number r sb"
  by (simp add: sib_base_number_def)

lemma ucast_back_32: "ucast (ucast (w :: u32) :: u64) = w"
  by (rule bit_word_eqI) (simp add: bit_simps)

text \<open>The displacement read, in bytes.\<close>

lemma decode_displacement_reads:
  assumes "d \<in> {0, 8, 32}" "rd_cursor rd + unat d div 8 \<le> length (rd_buffer rd)"
  shows "\<exists>v. decode_displacement d rd i = Inr (advance (unat d div 8) rd,
    if d = 0 then i else upd_operand 1 (\<lambda>m. m\<lparr>opnd_disp := v\<rparr>) (i\<lparr>displacement_offset := ucast (reader_offset rd)\<rparr>)) \<and>
    (d = 32 \<longrightarrow> v = le_word (take 4 (drop (rd_cursor rd) (rd_buffer rd))))"
  using assms
  by (auto simp: ucast_back_32 decode_displacement_def x86_insn_decode_number_def read_byte_at read_dword_def peek_bytes_def Let_def)


definition modrm_disp_bits :: "u8 \<Rightarrow> u8 \<Rightarrow> u8 \<Rightarrow> u8" where
  "modrm_disp_bits r mb sb =
    (if modrm_mode mb = 1 then 8 else if modrm_mode mb = 2 then 32
     else if modrm_rm mb = 5 \<or> modrm_rm mb = 4 \<and> sib_base_number r sb \<in> {7, 14} then 32 else 0)"

lemma modrm_form_read_split:
  "modrm_form_read r mb sb =
    (if modrm_mode mb = 3 then 1
     else 1 + (if modrm_rm mb = 4 then 1 else 0) + unat (modrm_disp_bits r mb sb) div 8)"
  by (simp add: modrm_form_read_def modrm_disp_bits_def)

definition same_stage :: "x86_insn \<Rightarrow> x86_insn \<Rightarrow> bool" where
  "same_stage i j \<longleftrightarrow> insn_spec j = insn_spec i \<and> insn_prefix j = insn_prefix i \<and> rex j = rex i \<and>
     primary_opcode j = primary_opcode i \<and> immediate_offset j = immediate_offset i \<and>
     length (operands j) = length (operands i)"

lemma same_stage_simps [simp]:
  "same_stage i i"
  "same_stage i (set_flag f j) \<longleftrightarrow> same_stage i j"
  "same_stage i (upd_operand k g j) \<longleftrightarrow> same_stage i j"
  "same_stage i (j\<lparr>sib := x\<rparr>) \<longleftrightarrow> same_stage i j"
  "same_stage i (j\<lparr>modrm := x\<rparr>) \<longleftrightarrow> same_stage i j"
  "same_stage i (j\<lparr>insn_flags := y\<rparr>) \<longleftrightarrow> same_stage i j"
  "same_stage i (j\<lparr>displacement_offset := z\<rparr>) \<longleftrightarrow> same_stage i j"
  by (auto simp: same_stage_def upd_operand_def)

lemma decode_address_reads:
  assumes "modrm_mode mb \<noteq> 3" "rm AND 7 = modrm_rm mb"
    "modrm_rm mb = 4 \<Longrightarrow> rd_cursor rd < length (rd_buffer rd)" "sb = rd_buffer rd ! rd_cursor rd"
    "length (operands i) = 3"
  shows "\<exists>j. decode_address 64 (modrm_mode mb) rm rd i =
      Inr (modrm_disp_bits (rex i) mb sb, advance (if modrm_rm mb = 4 then 1 else 0) rd, j) \<and> same_stage i j \<and>
    displacement_offset j = displacement_offset i \<and>
    (if modrm_mode mb = 0 \<and> modrm_rm mb = 5
     then insn_flags j = X86_INSN_DECODE_FLAG_IP_RELATIVE \<and> operands j = (operands i)[1 := (operands i ! 1)\<lparr>opnd_base := RIP_enum\<rparr>]
     else insn_flags j AND X86_INSN_DECODE_FLAG_OPERAND_SIZE_64 = insn_flags i AND X86_INSN_DECODE_FLAG_OPERAND_SIZE_64 \<and>
       insn_flags j AND X86_INSN_DECODE_FLAG_IP_RELATIVE = insn_flags i AND X86_INSN_DECODE_FLAG_IP_RELATIVE)"
proof (cases "modrm_rm mb = 4")
  case True
  then show ?thesis
    using assms modrm_modes [of mb]
    by (auto simp: decode_address_def decode_sib_def read_byte_at Let_def modrm_disp_bits_def sib_base_number_def
        RBP_enum_def R13_enum_def X86_INSN_DECODE_FLAG_HAS_BASE_def X86_INSN_DECODE_FLAG_HAS_INDEX_def
        X86_INSN_DECODE_FLAG_OPERAND_SIZE_64_def X86_INSN_DECODE_FLAG_IP_RELATIVE_def bit.conj_disj_distrib2)
next
  case False
  then show ?thesis
    using assms modrm_modes [of mb]
    by (auto simp: decode_address_def Let_def modrm_disp_bits_def
        X86_INSN_DECODE_FLAG_HAS_BASE_def X86_INSN_DECODE_FLAG_HAS_INDEX_def
        X86_INSN_DECODE_FLAG_OPERAND_SIZE_64_def X86_INSN_DECODE_FLAG_IP_RELATIVE_def bit.conj_disj_distrib2)
qed


lemma modrm_sib_reads:
  assumes room: "rd_cursor rd + modrm_form_read (rex i) mb sb \<le> length (rd_buffer rd)"
    and pfx: "insn_prefix i AND prefix_value INSN_PREFIX_ADDRESS_SIZE = 0"
    and ops: "length (operands i) = 3"
    and mb: "mb = rd_buffer rd ! rd_cursor rd" and sb: "sb = rd_buffer rd ! (rd_cursor rd + 1)"
  shows "\<exists>j. x86_insn_decode_modrm_sib rd i 64 = Inr (advance (modrm_form_read (rex i) mb sb) rd, j) \<and> same_stage i j \<and>
    (if modrm_mode mb = 0 \<and> modrm_rm mb = 5
     then insn_flags j = X86_INSN_DECODE_FLAG_IP_RELATIVE \<and> displacement_offset j = ucast (reader_offset (advance 1 rd)) \<and>
       opnd_base (operands j ! 1) = RIP_enum \<and>
       opnd_disp (operands j ! 1) = le_word (take 4 (drop (rd_cursor rd + 1) (rd_buffer rd)))
     else insn_flags j AND X86_INSN_DECODE_FLAG_OPERAND_SIZE_64 = insn_flags i AND X86_INSN_DECODE_FLAG_OPERAND_SIZE_64 \<and>
       insn_flags j AND X86_INSN_DECODE_FLAG_IP_RELATIVE = insn_flags i AND X86_INSN_DECODE_FLAG_IP_RELATIVE)"
proof -
  let ?rm = "push_bit 3 (REX_B (rex i)) OR modrm_rm mb"
  let ?i = "set_flag X86_INSN_DECODE_FLAG_IS_ADDRESS (upd_operand 0 (\<lambda>m. m\<lparr>opnd_reg := push_bit 3 (REX_R (rex i)) OR modrm_reg mb\<rparr>) (i\<lparr>modrm := mb\<rparr>))"
  let ?n = "if modrm_rm mb = 4 then 1 else 0 :: nat"
  let ?d = "modrm_disp_bits (rex i) mb sb"
  have first: "read_byte rd = Inr (mb, advance 1 rd)"
    using room mb by (intro read_byte_at [THEN trans]) (auto simp: modrm_form_read_def split: if_splits)
  show ?thesis
  proof (cases "modrm_mode mb = 3")
    case True
    then show ?thesis by (simp add: x86_insn_decode_modrm_sib_def first modrm_form_read_def Let_def)
  next
    case False
    have "\<exists>j. decode_address 64 (modrm_mode mb) ?rm (advance 1 rd) ?i = Inr (?d, advance (1 + ?n) rd, j) \<and> same_stage i j \<and>
        (if modrm_mode mb = 0 \<and> modrm_rm mb = 5
         then insn_flags j = X86_INSN_DECODE_FLAG_IP_RELATIVE \<and>
           operands j = (operands ?i)[1 := (operands ?i ! 1)\<lparr>opnd_base := RIP_enum\<rparr>]
         else insn_flags j AND X86_INSN_DECODE_FLAG_OPERAND_SIZE_64 = insn_flags i AND X86_INSN_DECODE_FLAG_OPERAND_SIZE_64 \<and>
           insn_flags j AND X86_INSN_DECODE_FLAG_IP_RELATIVE = insn_flags i AND X86_INSN_DECODE_FLAG_IP_RELATIVE)"
      using decode_address_reads [OF False, of ?rm "advance 1 rd" sb ?i] extended_rm [of "rex i" mb] ops room sb False
      by (auto simp: modrm_form_read_def same_stage_def bit.conj_disj_distrib2 X86_INSN_DECODE_FLAG_IS_ADDRESS_def
          X86_INSN_DECODE_FLAG_OPERAND_SIZE_64_def X86_INSN_DECODE_FLAG_IP_RELATIVE_def split: if_splits)
    then obtain j where j: "decode_address 64 (modrm_mode mb) ?rm (advance 1 rd) ?i = Inr (?d, advance (1 + ?n) rd, j)" "same_stage i j"
      "if modrm_mode mb = 0 \<and> modrm_rm mb = 5
       then insn_flags j = X86_INSN_DECODE_FLAG_IP_RELATIVE \<and>
         operands j = (operands ?i)[1 := (operands ?i ! 1)\<lparr>opnd_base := RIP_enum\<rparr>]
       else insn_flags j AND X86_INSN_DECODE_FLAG_OPERAND_SIZE_64 = insn_flags i AND X86_INSN_DECODE_FLAG_OPERAND_SIZE_64 \<and>
         insn_flags j AND X86_INSN_DECODE_FLAG_IP_RELATIVE = insn_flags i AND X86_INSN_DECODE_FLAG_IP_RELATIVE"
      by blast
    have "x86_insn_decode_modrm_sib rd i 64 = decode_displacement ?d (advance (1 + ?n) rd) j"
      using False pfx j(1) by (simp add: x86_insn_decode_modrm_sib_def first effective_address_bits_def Let_def)
    moreover have "?d \<in> {0, 8, 32}" "rd_cursor (advance (1 + ?n) rd) + unat ?d div 8 \<le> length (rd_buffer (advance (1 + ?n) rd))"
      using room False by (auto simp: modrm_form_read_split modrm_disp_bits_def)
    ultimately show ?thesis
      using decode_displacement_reads [of ?d "advance (1 + ?n) rd" j] j(2,3) False ops
      by (auto simp: modrm_disp_bits_def modrm_form_read_split same_stage_def split: if_splits)
  qed
qed


section \<open>Opcodes and immediates\<close>

text \<open>
  The opcodes for which the tables of the code follow the architecture, in 64-bit mode.
  The tables give no ModRM byte to the x87 escapes, to groups 3 and 5 (\<^verbatim>\<open>f6\<close>, \<^verbatim>\<open>f7\<close>, \<^verbatim>\<open>ff\<close>), to
  groups 6, 7, 12 to 16 and to the multi-byte no-operations \<^verbatim>\<open>0f 19\<close> to \<^verbatim>\<open>0f 1f\<close>; they read one of
  the two immediates of \<^verbatim>\<open>enter\<close>, size the address of \<^verbatim>\<open>a0\<close> to \<^verbatim>\<open>a3\<close> by the operand size, and
  have no three-byte maps and no VEX forms.
\<close>

definition covered :: "bool \<Rightarrow> int \<Rightarrow> bool" where
  "covered two b \<longleftrightarrow>
    (if two
     then b \<in> {0x02, 0x03, 0x05, 0x06, 0x07, 0x08, 0x09, 0x0b, 0xa0, 0xa1, 0xa2, 0xa3, 0xa4, 0xa5, 0xa8, 0xa9, 0xaa, 0xab,
          0xac, 0xad, 0xaf, 0xba, 0xbb, 0xbc, 0xbd, 0xbe, 0xbf, 0xc0, 0xc1, 0xc3, 0xc7} \<or>
       0x30 \<le> b \<and> b \<le> 0x35 \<or> 0x40 \<le> b \<and> b \<le> 0x4f \<or> 0x80 \<le> b \<and> b \<le> 0x9f \<or> 0xb0 \<le> b \<and> b \<le> 0xb7 \<or>
       0xc8 \<le> b \<and> b \<le> 0xcf
     else b \<notin> {0xF0, 0xF2, 0xF3, 0x2E, 0x36, 0x3E, 0x26, 0x64, 0x65, 0x66, 0x67} \<and> \<not> (0x40 \<le> b \<and> b \<le> 0x4f) \<and> \<not> (0xa0 \<le> b \<and> b \<le> 0xa3) \<and> \<not> (0xd8 \<le> b \<and> b \<le> 0xdf) \<and>
       b \<notin> {0x0f, 0x62, 0x9a, 0xc4, 0xc5, 0xc8, 0xea, 0xf6, 0xf7, 0xff})"

text \<open>The architecture's rules for them: which opcodes have a ModRM byte, and the size of the immediate.\<close>

definition modrm_opcode :: "bool \<Rightarrow> int \<Rightarrow> bool" where
  "modrm_opcode two b \<longleftrightarrow>
    (if two
     then b \<in> {0x02, 0x03, 0xa3, 0xa4, 0xa5, 0xab, 0xac, 0xad, 0xaf, 0xba, 0xbb, 0xbc, 0xbd, 0xbe, 0xbf, 0xc0, 0xc1, 0xc3, 0xc7} \<or>
       0x40 \<le> b \<and> b \<le> 0x4f \<or> 0x90 \<le> b \<and> b \<le> 0x9f \<or> 0xb0 \<le> b \<and> b \<le> 0xb7
     else b < 0x40 \<and> b mod 8 < 4 \<or> b \<in> {0x63, 0x69, 0x6b, 0xc0, 0xc1, 0xc6, 0xc7, 0xd0, 0xd1, 0xd2, 0xd3, 0xfe} \<or>
       0x80 \<le> b \<and> b \<le> 0x8f)"

datatype imm_kind = NoImm | Imm8 | Imm16 | ImmZ | ImmV

definition imm_opcode :: "bool \<Rightarrow> int \<Rightarrow> imm_kind" where
  "imm_opcode two b =
    (if two
     then if b = 0xa4 \<or> b = 0xac \<or> b = 0xba then Imm8 else if 0x80 \<le> b \<and> b \<le> 0x8f then ImmZ else NoImm
     else if b < 0x40 then if b mod 8 = 4 then Imm8 else if b mod 8 = 5 then ImmZ else NoImm
     else if b \<in> {0x68, 0x69, 0x81, 0xa9, 0xc7, 0xe8, 0xe9} then ImmZ
     else if b \<in> {0x6a, 0x6b, 0x80, 0x82, 0x83, 0xa8, 0xc0, 0xc1, 0xc6, 0xcd, 0xeb} then Imm8
     else if 0x70 \<le> b \<and> b \<le> 0x7f \<or> 0xb0 \<le> b \<and> b \<le> 0xb7 \<or> 0xe0 \<le> b \<and> b \<le> 0xe7 then Imm8
     else if b = 0xc2 \<or> b = 0xca then Imm16
     else if 0xb8 \<le> b \<and> b \<le> 0xbf then ImmV
     else NoImm)"

definition imm_length :: "imm_kind \<Rightarrow> bool \<Rightarrow> bool \<Rightarrow> nat" where
  "imm_length k data16 rexw =
    (case k of NoImm \<Rightarrow> 0 | Imm8 \<Rightarrow> 1 | Imm16 \<Rightarrow> 2
     | ImmZ \<Rightarrow> if data16 \<and> \<not> rexw then 2 else 4
     | ImmV \<Rightarrow> if rexw then 8 else if data16 then 2 else 4)"

definition op_spec :: "bool \<Rightarrow> u8 \<Rightarrow> x86_insn_spec" where
  "op_spec two b = (if two then x86_opcode_map_two_byte else x86_opcode_map_one_byte) ! unat b"

definition spec_imm_kind :: "x86_insn_spec \<Rightarrow> imm_kind option" where
  "spec_imm_kind s =
    (if \<not> x86_insn_has_immediate s then Some NoImm
     else case x86_insn_immediate_type s of Inl e \<Rightarrow> None
       | Inr t \<Rightarrow> if t = CHR ''b'' then Some Imm8 else if t = CHR ''w'' then Some Imm16
           else if t = CHR ''z'' then Some ImmZ else if t = CHR ''v'' then Some ImmV else None)"

definition no_default64 :: "x86_insn_spec \<Rightarrow> bool" where
  "no_default64 s \<longleftrightarrow> spec_flags s AND X86_INSN_SPEC_DEFAULT_64_BIT = 0"

definition group_agrees :: "bool \<Rightarrow> int \<Rightarrow> x86_insn_spec \<Rightarrow> nat \<Rightarrow> imm_kind \<Rightarrow> bool" where
  "group_agrees two b s g k =
    (if g = 0
     then (if no_default64 s then True else if k = ImmZ \<or> k = ImmV then \<not> two \<and> (b = 0x68 \<or> b = 0xe8 \<or> b = 0xe9) else True)
     else if modrm_opcode two b
     then (if k = NoImm then True else list_all no_default64 (x86_insn_modrm_reg_groups ! g))
     else False)"

definition agrees :: "bool \<Rightarrow> int \<Rightarrow> x86_insn_spec \<Rightarrow> bool" where
  "agrees two b s =
    (if covered two b
     then x86_insn_has_modrm_byte s = modrm_opcode two b \<and> spec_imm_kind s = Some (imm_opcode two b) \<and>
       X86_INSN_FLAG_GET_GROUP (spec_flags s) < X86_INSN_SSE_GROUP_START \<and>
       group_agrees two b s (X86_INSN_FLAG_GET_GROUP (spec_flags s)) (imm_opcode two b)
     else True)"

fun agrees_at :: "bool \<Rightarrow> int \<Rightarrow> x86_insn_spec list \<Rightarrow> bool" where
  "agrees_at two b [] = True"
| "agrees_at two b (s # ss) = (if agrees two b s then agrees_at two (b + 1) ss else False)"

lemma agrees_atD: "agrees_at two b ss \<Longrightarrow> n < length ss \<Longrightarrow> agrees two (b + int n) (ss ! n)"
proof (induction ss arbitrary: b n)
  case (Cons s ss)
  then show ?case
    using Cons.IH [of "b + 1" "n - 1"] by (cases n) (auto simp: add.assoc split: if_splits)
qed simp

lemma one_byte_agrees: "agrees_at False 0 x86_opcode_map_one_byte"
  by code_simp

lemma two_byte_agrees: "agrees_at True 0 x86_opcode_map_two_byte"
  by code_simp

lemma opcode_map_lengths: "length x86_opcode_map_one_byte = 256" "length x86_opcode_map_two_byte = 256"
  by code_simp+

lemma tables_agree: "agrees two (uint b) (op_spec two b)"
proof -
  have "unat b < 256"
    using unsigned_less [of b, where 'a = nat] by simp
  then show ?thesis
    using agrees_atD [OF one_byte_agrees, of "unat b"] agrees_atD [OF two_byte_agrees, of "unat b"]
    by (cases two) (simp_all add: op_spec_def opcode_map_lengths)
qed

lemma covered_plain:
  assumes "covered two (uint b)"
  shows "\<not> two \<Longrightarrow> b \<noteq> 0x0f \<and> \<not> is_prefix b \<and> \<not> (0x40 \<le> b \<and> b \<le> 0x4f)"
  using assms by (auto simp: covered_def is_prefix_def word_le_def)

lemma modrm_reg_less: "unat (modrm_reg mb) < 8"
proof -
  have "unat (modrm_reg mb) = take_bit 3 (unat (drop_bit 3 mb))"
    unfolding modrm_reg_def mask3 by (simp flip: take_bit_eq_mask add: unsigned_take_bit_eq)
  then show ?thesis
    using take_bit_nat_less_exp [of 3 "unat (drop_bit 3 mb)"] by simp
qed

lemma group_shape: "list_all (\<lambda>g. length g = 8) x86_insn_modrm_reg_groups" "length x86_insn_modrm_reg_groups = 19"
  by code_simp+

lemma spec_operands_only:
  "x86_insn_has_modrm_byte (s\<lparr>spec_name := n, spec_flags := f\<rparr>) = x86_insn_has_modrm_byte s"
  "spec_imm_kind (s\<lparr>spec_name := n, spec_flags := f\<rparr>) = spec_imm_kind s"
  by (simp_all add: x86_insn_has_modrm_byte_def spec_imm_kind_def x86_insn_has_immediate_def x86_insn_immediate_type_def)

text \<open>The opcode stage: the specification it finds has the operands of the table entry.\<close>

lemma opcode_stage:
  assumes cov: "covered two (uint b)"
    and at: "rd_cursor rd + (if two then 2 else 1) < length (rd_buffer rd)"
      "take (if two then 2 else 1) (drop (rd_cursor rd) (rd_buffer rd)) = (if two then [0x0f, b] else [b])"
  shows "\<exists>s. x86_insn_decode_opcode rd i =
      Inr (advance (if two then 2 else 1) rd, i\<lparr>primary_opcode := b, insn_spec := s\<rparr>) \<and>
    x86_insn_has_modrm_byte s = modrm_opcode two (uint b) \<and> spec_imm_kind s = Some (imm_opcode two (uint b)) \<and>
    (imm_opcode two (uint b) \<in> {ImmZ, ImmV} \<longrightarrow> no_default64 s \<or> \<not> two \<and> b \<in> {0x68, 0xe8, 0xe9})"
proof -
  let ?n = "if two then 2 else 1 :: nat"
  let ?s = "op_spec two b"
  let ?g = "X86_INSN_FLAG_GET_GROUP (spec_flags ?s)"
  let ?m = "x86_insn_modrm_reg_groups ! ?g ! unat (modrm_reg (rd_buffer rd ! (rd_cursor rd + ?n)))"
  have bytes: "if two then rd_buffer rd ! rd_cursor rd = 0x0f \<and> rd_buffer rd ! Suc (rd_cursor rd) = b
      else rd_buffer rd ! rd_cursor rd = b"
    using at by (cases two) (auto simp: take_Suc_conv_app_nth numeral_2_eq_2 nth_drop)
  have facts: "x86_insn_has_modrm_byte ?s = modrm_opcode two (uint b)" "spec_imm_kind ?s = Some (imm_opcode two (uint b))"
    "?g < 19" "group_agrees two (uint b) ?s ?g (imm_opcode two (uint b))"
    using tables_agree [of two b] cov by (auto simp: agrees_def X86_INSN_SSE_GROUP_START_def)
  have dec: "x86_insn_decode_opcode rd i = Inr (advance ?n rd, i\<lparr>primary_opcode := b, insn_spec :=
      if ?g = 0 then ?s else ?s\<lparr>spec_name := spec_name ?m, spec_flags := spec_flags ?m\<rparr>\<rparr>)"
    using bytes at(1) facts(3) covered_plain [OF cov]
    by (cases two) (simp_all add: x86_insn_decode_opcode_def read_byte_at peek_byte_at op_spec_def Let_def
        X86_INSN_SSE_GROUP_START_def X86_INSN_GROUP_START_def numeral_2_eq_2)
  have grp: "no_default64 ?m" if "?g \<noteq> 0" "imm_opcode two (uint b) \<noteq> NoImm"
  proof -
    have "list_all no_default64 (x86_insn_modrm_reg_groups ! ?g)"
      using facts(4) that by (auto simp: group_agrees_def split: if_splits)
    moreover have "length (x86_insn_modrm_reg_groups ! ?g) = 8"
      using group_shape facts(3) by (auto simp: list_all_length)
    ultimately show ?thesis
      using modrm_reg_less by (auto simp: list_all_length)
  qed
  have plain: "no_default64 ?s \<or> \<not> two \<and> b \<in> {0x68, 0xe8, 0xe9}" if "?g = 0" "imm_opcode two (uint b) \<in> {ImmZ, ImmV}"
  proof -
    have "no_default64 ?s \<or> \<not> two \<and> uint b \<in> {0x68, 0xe8, 0xe9}"
      using facts(4) that by (auto simp: group_agrees_def split: if_splits)
    then show ?thesis by (simp add: word_uint_eq_iff)
  qed
  show ?thesis
  proof (cases "?g = 0")
    case True
    then show ?thesis
      using plain by (intro exI [of _ ?s]) (simp add: dec facts(1,2))
  next
    case False
    then have "imm_opcode two (uint b) \<noteq> NoImm \<Longrightarrow> no_default64 (?s\<lparr>spec_name := spec_name ?m, spec_flags := spec_flags ?m\<rparr>)"
      using grp by (simp add: no_default64_def)
    then show ?thesis
      using False by (intro exI [of _ "?s\<lparr>spec_name := spec_name ?m, spec_flags := spec_flags ?m\<rparr>"])
        (auto simp: dec facts(1,2) spec_operands_only)
  qed
qed


lemma take_1_drop: "n < length xs \<Longrightarrow> take (Suc 0) (drop n xs) = [xs ! n]"
  by (simp add: take_Suc_conv_app_nth)

lemma decode_number_reads:
  assumes "n \<in> {1, 2, 4}" "rd_cursor rd + n \<le> length (rd_buffer rd)"
  shows "x86_insn_decode_number rd (8 * word_of_nat n) = Inr (le_word (take n (drop (rd_cursor rd) (rd_buffer rd))), advance n rd)"
proof -
  consider "n = 1" | "n = 2 \<or> n = 4" using assms(1) by auto
  then show ?thesis
  proof cases
    case 1
    then have "take n (drop (rd_cursor rd) (rd_buffer rd)) = [rd_buffer rd ! rd_cursor rd]"
      using assms(2) take_1_drop [of "rd_cursor rd" "rd_buffer rd"] by simp
    then show ?thesis
      using 1 assms(2) by (simp only: x86_insn_decode_number_def) (simp add: read_byte_at)
  next
    case 2
    then show ?thesis
      using assms(2) by (auto simp: x86_insn_decode_number_def read_word_def read_dword_def peek_bytes_def ucast_le_word)
  qed
qed

lemma immediate_stage:
  assumes kind: "spec_imm_kind (insn_spec i) = Some k" "k \<noteq> NoImm"
    and data16: "d = (insn_prefix i AND prefix_value INSN_PREFIX_OPERAND_SIZE \<noteq> 0)"
    and rexw: "w = (insn_flags i AND X86_INSN_DECODE_FLAG_OPERAND_SIZE_64 \<noteq> 0)"
    and default: "k \<in> {ImmZ, ImmV} \<Longrightarrow> no_default64 (insn_spec i) \<or> \<not> d \<and> k = ImmZ"
    and quad: "k = ImmV \<Longrightarrow> \<not> w"
    and room: "rd_cursor rd + imm_length k d w \<le> length (rd_buffer rd)"
  shows "x86_insn_decode_immediate rd i 64 = Inr (advance (imm_length k d w) rd,
    i\<lparr>immediate_offset := ucast (reader_offset rd),
      immediate := le_word (take (imm_length k d w) (drop (rd_cursor rd) (rd_buffer rd)))\<rparr>)"
proof -
  obtain t where t: "x86_insn_immediate_type (insn_spec i) = Inr t"
    "t = CHR ''b'' \<and> k = Imm8 \<or> t = CHR ''w'' \<and> k = Imm16 \<or> t = CHR ''z'' \<and> k = ImmZ \<or> t = CHR ''v'' \<and> k = ImmV"
    using kind by (auto simp: spec_imm_kind_def split: sum.splits if_splits)
  define ob :: u8 where "ob = (if \<not> no_default64 (insn_spec i) \<or> w then 64 else if d then 16 else 32)"
  have ob: "effective_operand_bits 64 i = Inr ob"
    by (auto simp: effective_operand_bits_def ob_def data16 rexw no_default64_def)
  have bits: "x86_insn_imm_bits (insn_spec i) ob = Inr (8 * word_of_nat (imm_length k d w))" "imm_length k d w \<in> {1, 2, 4}"
    using t(2) default quad
    by (elim disjE conjE; simp add: x86_insn_imm_bits_def t(1) imm_length_def ob_def)+
  from this(2) have "8 * word_of_nat (imm_length k d w) \<noteq> (0 :: u8)"
    by auto
  then show ?thesis
    by (simp add: x86_insn_decode_immediate_def ob bits(1) decode_number_reads [OF bits(2) room] Let_def)
qed


section \<open>Whole instructions\<close>

text \<open>
  An encoding: legacy prefixes \<open>ps\<close>, an optional REX prefix \<open>rx\<close>, the opcode \<open>b\<close> (after the
  escape \<^verbatim>\<open>0f\<close> when \<open>two\<close>), and the bytes that follow.
\<close>

definition opcode_bytes :: "bool \<Rightarrow> u8 \<Rightarrow> bytes" where
  "opcode_bytes two b = (if two then [0x0f, b] else [b])"

definition rex_of :: "bytes \<Rightarrow> u8" where
  "rex_of rx = (case rx of [] \<Rightarrow> 0 | r # _ \<Rightarrow> r)"

definition rex_ok :: "bytes \<Rightarrow> bool" where
  "rex_ok rx = (case rx of [] \<Rightarrow> True | [r] \<Rightarrow> 0x40 \<le> r \<and> r \<le> 0x4f | _ \<Rightarrow> False)"

definition ip_form :: "u8 \<Rightarrow> bool" where
  "ip_form mb \<longleftrightarrow> modrm_mode mb = 0 \<and> modrm_rm mb = 5"

definition head_length :: "bytes \<Rightarrow> bytes \<Rightarrow> bool \<Rightarrow> nat" where
  "head_length ps rx two = length ps + length rx + (if two then 2 else 1)"

definition form_length :: "bool \<Rightarrow> u8 \<Rightarrow> bytes \<Rightarrow> nat" where
  "form_length two b rest = (if modrm_opcode two (uint b) then modrm_form_length (rest ! 0) (rest ! 1) else 0)"

definition immediate_length :: "bytes \<Rightarrow> bytes \<Rightarrow> bool \<Rightarrow> u8 \<Rightarrow> nat" where
  "immediate_length ps rx two b = imm_length (imm_opcode two (uint b)) (0x66 \<in> set ps) (REX_W (rex_of rx) \<noteq> 0)"

definition encoding_length :: "bytes \<Rightarrow> bytes \<Rightarrow> bool \<Rightarrow> u8 \<Rightarrow> bytes \<Rightarrow> nat" where
  "encoding_length ps rx two b rest = head_length ps rx two + form_length two b rest + immediate_length ps rx two b"

text \<open>
  The encodings the decoder handles: a covered opcode, 64-bit addressing, no misread SIB byte. With
  the operand-size prefix, relative branches and \<^verbatim>\<open>push\<close> of an immediate are left out, and so is an
  instruction pointer relative operand under \<^verbatim>\<open>REX.W\<close>, where the code loses the operand size; a
  64-bit immediate is left out because the reader advances by four bytes.
\<close>

definition decodable :: "bytes \<Rightarrow> bytes \<Rightarrow> bool \<Rightarrow> u8 \<Rightarrow> bytes \<Rightarrow> bool" where
  "decodable ps rx two b rest \<longleftrightarrow>
    list_all is_prefix ps \<and> 0x67 \<notin> set ps \<and> length ps \<le> 10 \<and> rex_ok rx \<and> covered two (uint b) \<and>
    (modrm_opcode two (uint b) \<longrightarrow> \<not> sib_misread (rex_of rx) (rest ! 0) (rest ! 1)) \<and>
    (0x66 \<in> set ps \<longrightarrow> (if two then imm_opcode two (uint b) \<noteq> ImmZ else b \<noteq> 0x68 \<and> b \<noteq> 0xe8 \<and> b \<noteq> 0xe9) \<and>
       (REX_W (rex_of rx) \<noteq> 0 \<longrightarrow> \<not> (modrm_opcode two (uint b) \<and> ip_form (rest ! 0)))) \<and>
    (imm_opcode two (uint b) = ImmV \<longrightarrow> REX_W (rex_of rx) = 0)"

lemma legacy_prefix_iff:
  "legacy_prefix b = INSN_PREFIX_OPERAND_SIZE \<longleftrightarrow> b = 0x66" "legacy_prefix b = INSN_PREFIX_ADDRESS_SIZE \<longleftrightarrow> b = 0x67"
  by (auto simp: legacy_prefix_def)

lemma prefix_bits_flags:
  "prefix_bits ps AND prefix_value INSN_PREFIX_OPERAND_SIZE \<noteq> 0 \<longleftrightarrow> 0x66 \<in> set ps"
  "prefix_bits ps AND prefix_value INSN_PREFIX_ADDRESS_SIZE = 0 \<longleftrightarrow> 0x67 \<notin> set ps"
  using prefix_bits_iff [of INSN_PREFIX_OPERAND_SIZE ps] prefix_bits_iff [of INSN_PREFIX_ADDRESS_SIZE ps]
  by (auto simp: legacy_prefix_iff)

lemma sib_ok_length: "\<not> sib_misread r mb sb \<Longrightarrow> modrm_form_read r mb sb = modrm_form_length mb sb"
  using modrm_modes [of mb] by (auto simp: sib_misread_def modrm_form_read_def modrm_form_length_def)

lemma modrm_form_length_bounds: "1 \<le> modrm_form_length mb sb" "modrm_form_length mb sb \<le> 6"
  by (auto simp: modrm_form_length_def)

definition prefixed :: "bytes \<Rightarrow> bytes \<Rightarrow> x86_insn" where
  "prefixed ps rx = zero_insn\<lparr>insn_flags := if REX_W (rex_of rx) \<noteq> 0 then X86_INSN_DECODE_FLAG_OPERAND_SIZE_64 else 0,
     insn_prefix := prefix_bits ps, rex := rex_of rx\<rparr>"

lemma REX_W_0 [simp]: "REX_W 0 = 0"
  by (simp add: REX_W_def)

lemma prefix_stage:
  assumes "drop (rd_cursor rd) (rd_buffer rd) = ps @ rx @ c # rest" "list_all is_prefix ps" "rex_ok rx"
    and "rx = [] \<Longrightarrow> \<not> is_prefix c \<and> \<not> (0x40 \<le> c \<and> c \<le> 0x4f)"
  shows "\<exists>i. x86_insn_decode_prefix rd zero_insn 64 = Inr (prefix_bits ps, advance (length ps + length rx) rd, i) \<and>
    i\<lparr>insn_prefix := prefix_bits ps\<rparr> = prefixed ps rx"
proof -
  have "drop (rd_cursor (advance (length ps) rd)) (rd_buffer (advance (length ps) rd)) = rx @ c # rest"
    using arg_cong [OF assms(1), of "drop (length ps)"] by (simp add: add.commute)
  moreover have "decode_prefix_loop 64 rd zero_insn 0 = decode_prefix_loop 64 (advance (length ps) rd) zero_insn (prefix_bits ps)"
    using decode_prefix_loop_legacy [OF assms(1,2)] by (simp add: prefix_bits_def)
  ultimately show ?thesis
    using assms(3,4) decode_prefix_end [of "advance (length ps) rd"]
    by (cases rx rule: list.exhaust)
      (auto simp: rex_ok_def rex_of_def x86_insn_decode_prefix_def prefixed_def zero_insn_def set_flag_def split: list.splits)
qed


text \<open>The decoded instruction of a handled encoding.\<close>

definition decodes_to :: "bytes \<Rightarrow> bytes \<Rightarrow> bool \<Rightarrow> u8 \<Rightarrow> bytes \<Rightarrow> bytes \<Rightarrow> x86_insn \<Rightarrow> bool" where
  "decodes_to ps rx two b rest code i \<longleftrightarrow>
    insn_length i = word_of_nat (encoding_length ps rx two b rest) \<and> primary_opcode i = b \<and>
    (if imm_opcode two (uint b) = NoImm then immediate_offset i = 0
     else immediate_offset i = word_of_nat (head_length ps rx two + form_length two b rest) \<and>
       immediate i = le_word (take (immediate_length ps rx two b) (drop (head_length ps rx two + form_length two b rest) code))) \<and>
    (if modrm_opcode two (uint b) \<and> ip_form (rest ! 0)
     then insn_flags i = X86_INSN_DECODE_FLAG_IP_RELATIVE \<and> displacement_offset i = word_of_nat (head_length ps rx two + 1) \<and>
       opnd_base (operands i ! 1) = RIP_enum \<and> opnd_disp (operands i ! 1) = le_word (take 4 (drop (head_length ps rx two + 1) code))
     else insn_flags i AND X86_INSN_DECODE_FLAG_IP_RELATIVE = 0)"

lemma take_drop_append: "n + k \<le> length xs \<Longrightarrow> take n (drop k (xs @ ys)) = take n (drop k xs)"
  by simp

lemma ucast_small_offset: "(ucast (word_of_nat n :: u32) :: u8) = word_of_nat n"
  by (rule bit_word_eqI) (auto simp: bit_simps)

lemma modrm_stage:
  assumes room: "h + form_length two b rest \<le> 15" "length code = 15" "drop h code = rest" "2 \<le> length rest"
    and rd: "rd_buffer rd = code @ replicate 5 0xcc" "rd_cursor rd = h"
    and i: "insn_prefix i = prefix_bits ps" "rex i = rex_of rx" "insn_flags i = insn_flags (prefixed ps rx)" "length (operands i) = 3"
      "immediate_offset i = 0"
    and spec: "x86_insn_has_modrm_byte (insn_spec i) = modrm_opcode two (uint b)"
    and ok: "0x67 \<notin> set ps" "modrm_opcode two (uint b) \<longrightarrow> \<not> sib_misread (rex_of rx) (rest ! 0) (rest ! 1)"
  shows "\<exists>j. (if x86_insn_has_modrm_byte (insn_spec i) then x86_insn_decode_modrm_sib rd i 64 else Inr (rd, i)) =
      Inr (advance (form_length two b rest) rd, j) \<and> same_stage i j \<and>
    (if modrm_opcode two (uint b) \<and> ip_form (rest ! 0)
     then insn_flags j = X86_INSN_DECODE_FLAG_IP_RELATIVE \<and> displacement_offset j = word_of_nat (h + 1) \<and>
       opnd_base (operands j ! 1) = RIP_enum \<and> opnd_disp (operands j ! 1) = le_word (take 4 (drop (h + 1) code))
     else insn_flags j AND X86_INSN_DECODE_FLAG_IP_RELATIVE = 0 \<and>
       (insn_flags j AND X86_INSN_DECODE_FLAG_OPERAND_SIZE_64 \<noteq> 0 \<longleftrightarrow> REX_W (rex_of rx) \<noteq> 0))"
proof (cases "modrm_opcode two (uint b)")
  case False
  then show ?thesis
    using spec i(3) by (simp add: form_length_def prefixed_def X86_INSN_DECODE_FLAG_IP_RELATIVE_def X86_INSN_DECODE_FLAG_OPERAND_SIZE_64_def)
next
  case True
  have at: "rd_buffer rd ! h = rest ! 0" "rd_buffer rd ! (h + 1) = rest ! 1"
    using room rd(1) by (auto simp: nth_append)
  have n: "modrm_form_read (rex i) (rest ! 0) (rest ! 1) = form_length two b rest"
    using True ok(2) i(2) by (simp add: sib_ok_length form_length_def)
  have "ip_form (rest ! 0) \<Longrightarrow> form_length two b rest = 5"
    using True by (simp add: form_length_def modrm_form_length_def ip_form_def)
  then have disp: "ip_form (rest ! 0) \<Longrightarrow> take 4 (drop (Suc h) (rd_buffer rd)) = take 4 (drop (Suc h) code)"
    using room(1,2) rd(1) by simp
  have flags: "insn_flags i AND X86_INSN_DECODE_FLAG_IP_RELATIVE = 0"
    "insn_flags i AND X86_INSN_DECODE_FLAG_OPERAND_SIZE_64 \<noteq> 0 \<longleftrightarrow> REX_W (rex_of rx) \<noteq> 0"
    using i(3) by (simp_all add: prefixed_def X86_INSN_DECODE_FLAG_IP_RELATIVE_def X86_INSN_DECODE_FLAG_OPERAND_SIZE_64_def)
  have room': "rd_cursor rd + modrm_form_read (rex i) (rest ! 0) (rest ! 1) \<le> length (rd_buffer rd)"
    "insn_prefix i AND prefix_value INSN_PREFIX_ADDRESS_SIZE = 0"
    using room(1,2) rd n i(1) ok(1) by (simp_all add: prefix_bits_flags del: prefix_value.simps)
  obtain j where j: "x86_insn_decode_modrm_sib rd i 64 = Inr (advance (form_length two b rest) rd, j)" "same_stage i j"
    "if ip_form (rest ! 0)
     then insn_flags j = X86_INSN_DECODE_FLAG_IP_RELATIVE \<and> displacement_offset j = ucast (reader_offset (advance 1 rd)) \<and>
       opnd_base (operands j ! 1) = RIP_enum \<and> opnd_disp (operands j ! 1) = le_word (take 4 (drop (h + 1) (rd_buffer rd)))
     else insn_flags j AND X86_INSN_DECODE_FLAG_OPERAND_SIZE_64 = insn_flags i AND X86_INSN_DECODE_FLAG_OPERAND_SIZE_64 \<and>
       insn_flags j AND X86_INSN_DECODE_FLAG_IP_RELATIVE = insn_flags i AND X86_INSN_DECODE_FLAG_IP_RELATIVE"
    using modrm_sib_reads [OF room' i(4)] at rd(2) n unfolding ip_form_def by (metis (no_types, lifting))
  have "displacement_offset j = word_of_nat (h + 1)" if "ip_form (rest ! 0)"
    using j(3) that rd(2) by (simp add: reader_offset_def ucast_small_offset del: of_nat_add of_nat_Suc)
  then show ?thesis
    using j disp flags True spec by (intro exI [of _ j]) (auto split: if_splits)
qed


lemma immediate_stage_all:
  assumes "spec_imm_kind (insn_spec i) = Some k"
    and "d = (insn_prefix i AND prefix_value INSN_PREFIX_OPERAND_SIZE \<noteq> 0)"
    and "k \<in> {ImmZ, ImmV} \<Longrightarrow> w = (insn_flags i AND X86_INSN_DECODE_FLAG_OPERAND_SIZE_64 \<noteq> 0) \<or> \<not> d \<and> k = ImmZ"
    and "k \<in> {ImmZ, ImmV} \<Longrightarrow> no_default64 (insn_spec i) \<or> \<not> d \<and> k = ImmZ"
    and "k = ImmV \<Longrightarrow> \<not> w"
    and "rd_cursor rd + imm_length k d w \<le> length (rd_buffer rd)"
  shows "(if x86_insn_has_immediate (insn_spec i) then x86_insn_decode_immediate rd i 64 else Inr (rd, i)) =
    Inr (advance (imm_length k d w) rd, if k = NoImm then i else
      i\<lparr>immediate_offset := ucast (reader_offset rd),
        immediate := le_word (take (imm_length k d w) (drop (rd_cursor rd) (rd_buffer rd)))\<rparr>)"
proof (cases "k = NoImm")
  case True
  then show ?thesis
    using assms(1) by (auto simp: spec_imm_kind_def imm_length_def split: sum.splits if_splits)
next
  case False
  let ?w = "insn_flags i AND X86_INSN_DECODE_FLAG_OPERAND_SIZE_64 \<noteq> 0"
  have "imm_length k d w = imm_length k d ?w"
    using assms(3) by (cases k) (auto simp: imm_length_def)
  moreover have "x86_insn_has_immediate (insn_spec i)"
    using assms(1) False by (auto simp: spec_imm_kind_def split: if_splits)
  ultimately show ?thesis
    using immediate_stage [OF assms(1) False assms(2) refl assms(4)] assms(3,5,6) False by auto
qed

lemma imm_default64: "b \<in> {0x68, 0xe8, 0xe9} \<Longrightarrow> imm_opcode False (uint (b :: u8)) = ImmZ"
proof -
  have "imm_opcode False 0x68 = ImmZ" "imm_opcode False 0xe8 = ImmZ" "imm_opcode False 0xe9 = ImmZ"
    by code_simp+
  then show "b \<in> {0x68, 0xe8, 0xe9} \<Longrightarrow> ?thesis" by auto
qed

lemma decodable_decodes:
  assumes ok: "decodable ps rx two b rest" and code: "code = ps @ rx @ opcode_bytes two b @ rest" "length code = 15"
    and fits: "encoding_length ps rx two b rest \<le> 15"
  shows "\<exists>i. x86_insn_decode zero_insn code 64 = Inr i \<and> decodes_to ps rx two b rest code i"
proof -
  let ?h = "head_length ps rx two" and ?f = "form_length two b rest" and ?k = "imm_opcode two (uint b)"
  let ?d = "0x66 \<in> set ps" and ?w = "REX_W (rex_of rx) \<noteq> 0"
  let ?rd = "init_reader code"
  have d: "list_all is_prefix ps" "0x67 \<notin> set ps" "length ps \<le> 10" "rex_ok rx" "covered two (uint b)"
    and sib: "modrm_opcode two (uint b) \<longrightarrow> \<not> sib_misread (rex_of rx) (rest ! 0) (rest ! 1)"
    and d16: "?d \<Longrightarrow> (if two then ?k \<noteq> ImmZ else b \<noteq> 0x68 \<and> b \<noteq> 0xe8 \<and> b \<noteq> 0xe9)"
      "?d \<Longrightarrow> ?w \<Longrightarrow> \<not> (modrm_opcode two (uint b) \<and> ip_form (rest ! 0))"
    and v: "?k = ImmV \<longrightarrow> \<not> ?w"
    using ok unfolding decodable_def by blast+
  have buf: "rd_buffer ?rd = code @ replicate 5 0xcc" "rd_cursor ?rd = 0"
    using code(2) by (simp_all add: init_reader_def reader_buffer_size_def)
  have rx: "length rx \<le> 1"
    using d(4) by (auto simp: rex_ok_def split: list.splits)
  have h: "?h = length ps + length rx + length (opcode_bytes two b)" "drop ?h code = rest" "2 \<le> length rest"
    using code d(3) rx by (cases two; simp add: head_length_def opcode_bytes_def)+
  obtain c cs where c: "opcode_bytes two b = c # cs" "\<not> is_prefix c \<and> \<not> (0x40 \<le> c \<and> c \<le> 0x4f)"
    using covered_plain [of two b] d(5) by (cases two) (auto simp: opcode_bytes_def is_prefix_def)
  obtain i0 where i0: "x86_insn_decode_prefix ?rd zero_insn 64 = Inr (prefix_bits ps, advance (length ps + length rx) ?rd, i0)"
    "i0\<lparr>insn_prefix := prefix_bits ps\<rparr> = prefixed ps rx"
    using prefix_stage [of ?rd ps rx c "cs @ rest @ replicate 5 0xcc"] buf code(1) c d(1,4) by auto
  obtain s where s: "x86_insn_decode_opcode (advance (length ps + length rx) ?rd) (prefixed ps rx) =
      Inr (advance ?h ?rd, (prefixed ps rx)\<lparr>primary_opcode := b, insn_spec := s\<rparr>)"
    "x86_insn_has_modrm_byte s = modrm_opcode two (uint b)" "spec_imm_kind s = Some ?k"
    "?k \<in> {ImmZ, ImmV} \<longrightarrow> no_default64 s \<or> \<not> two \<and> b \<in> {0x68, 0xe8, 0xe9}"
    using opcode_stage [OF d(5), of "advance (length ps + length rx) ?rd" "prefixed ps rx"] buf code h(1,3)
    by (cases two) (auto simp: head_length_def opcode_bytes_def)
  let ?i = "(prefixed ps rx)\<lparr>primary_opcode := b, insn_spec := s\<rparr>"
  have i: "insn_prefix ?i = prefix_bits ps" "rex ?i = rex_of rx" "insn_flags ?i = insn_flags (prefixed ps rx)"
    "length (operands ?i) = 3" "immediate_offset ?i = 0" "x86_insn_has_modrm_byte (insn_spec ?i) = modrm_opcode two (uint b)"
    using s(2) by (simp_all add: prefixed_def zero_insn_def)
  have room: "?h + ?f \<le> 15" "?h + ?f + imm_length ?k ?d ?w \<le> 15"
    using fits by (simp_all add: encoding_length_def immediate_length_def)
  obtain j where j: "(if x86_insn_has_modrm_byte s then x86_insn_decode_modrm_sib (advance ?h ?rd) ?i 64 else Inr (advance ?h ?rd, ?i)) =
      Inr (advance (?h + ?f) ?rd, j)" "same_stage ?i j"
    "if modrm_opcode two (uint b) \<and> ip_form (rest ! 0)
     then insn_flags j = X86_INSN_DECODE_FLAG_IP_RELATIVE \<and> displacement_offset j = word_of_nat (?h + 1) \<and>
       opnd_base (operands j ! 1) = RIP_enum \<and> opnd_disp (operands j ! 1) = le_word (take 4 (drop (?h + 1) code))
     else insn_flags j AND X86_INSN_DECODE_FLAG_IP_RELATIVE = 0 \<and>
       (insn_flags j AND X86_INSN_DECODE_FLAG_OPERAND_SIZE_64 \<noteq> 0 \<longleftrightarrow> ?w)"
    using modrm_stage [OF room(1) code(2) h(2,3), of "advance ?h ?rd" ?i ps rx, OF _ _ i d(2) sib] buf by auto
  have j': "insn_spec j = s" "insn_prefix j = prefix_bits ps" "primary_opcode j = b" "immediate_offset j = 0"
    using j(2) i by (simp_all add: same_stage_def)
  have immv: "?k = ImmV \<Longrightarrow> \<not> modrm_opcode two (uint b)"
    by (auto simp: imm_opcode_def modrm_opcode_def split: if_splits)
  have imm: "(if x86_insn_has_immediate (insn_spec j) then x86_insn_decode_immediate (advance (?h + ?f) ?rd) j 64
      else Inr (advance (?h + ?f) ?rd, j)) =
    Inr (advance (imm_length ?k ?d ?w) (advance (?h + ?f) ?rd), if ?k = NoImm then j else
      j\<lparr>immediate_offset := ucast (reader_offset (advance (?h + ?f) ?rd)),
        immediate := le_word (take (imm_length ?k ?d ?w) (drop (rd_cursor (advance (?h + ?f) ?rd)) (rd_buffer (advance (?h + ?f) ?rd))))\<rparr>)"
  proof (rule immediate_stage_all)
    show "spec_imm_kind (insn_spec j) = Some ?k" using s(3) j' by simp
    show "?d = (insn_prefix j AND prefix_value INSN_PREFIX_OPERAND_SIZE \<noteq> 0)"
      using j' by (simp add: prefix_bits_flags del: prefix_value.simps)
    show "?w = (insn_flags j AND X86_INSN_DECODE_FLAG_OPERAND_SIZE_64 \<noteq> 0) \<or> \<not> ?d \<and> ?k = ImmZ" if "?k \<in> {ImmZ, ImmV}"
      using that j(3) d16(2) immv by (auto simp: X86_INSN_DECODE_FLAG_IP_RELATIVE_def X86_INSN_DECODE_FLAG_OPERAND_SIZE_64_def split: if_splits)
    show "no_default64 (insn_spec j) \<or> \<not> ?d \<and> ?k = ImmZ" if "?k \<in> {ImmZ, ImmV}"
      proof (cases "no_default64 s")
      case False
      then have "\<not> two" "b \<in> {0x68, 0xe8, 0xe9}" using s(4) that by blast+
      then show ?thesis using d16(1) imm_default64 [of b] by fastforce
    qed (simp add: j')
    show "?k = ImmV \<Longrightarrow> \<not> ?w" using v by simp
    show "rd_cursor (advance (?h + ?f) ?rd) + imm_length ?k ?d ?w \<le> length (rd_buffer (advance (?h + ?f) ?rd))"
      using room buf code(2) by simp
  qed
  show ?thesis
    using i0 s(1) j j' imm room buf code(2)
    by (auto simp: x86_insn_decode_def decodes_to_def encoding_length_def immediate_length_def reader_offset_def ucast_small_offset
        simp del: of_nat_add of_nat_Suc split: if_splits)
qed


section \<open>Properties\<close>

text \<open>
  C16. The decoder finds the length, the opcode, the position and value of the immediate, and the
  instruction pointer relative operands of every handled encoding of 64-bit mode: any legacy prefixes
  but the address-size one, an optional REX prefix, one of the covered one-byte or two-byte opcodes
  and any ModRM, SIB, displacement and immediate bytes, up to the fifteen bytes of an instruction.
\<close>

theorem x86_decode_correct:
  assumes "decodable ps rx two b rest" "length (ps @ rx @ opcode_bytes two b @ rest) = 15"
    and "encoding_length ps rx two b rest \<le> 15"
  shows "\<exists>i. x86_insn_decode zero_insn (ps @ rx @ opcode_bytes two b @ rest) 64 = Inr i \<and>
    decodes_to ps rx two b rest (ps @ rx @ opcode_bytes two b @ rest) i"
  using decodable_decodes [OF assms(1) refl assms(2,3)] .

text \<open>Witness: \<^verbatim>\<open>imul r8, [rip + 0x11223344], 0x7\<close>.\<close>

theorem x86_decode_correct_witness:
  "\<exists>i. x86_insn_decode zero_insn ([] @ [0x4c] @ opcode_bytes False 0x6b @
      [0x05, 0x44, 0x33, 0x22, 0x11, 0x07, 0, 0, 0, 0, 0, 0, 0]) 64 = Inr i \<and>
    decodes_to [] [0x4c] False 0x6b [0x05, 0x44, 0x33, 0x22, 0x11, 0x07, 0, 0, 0, 0, 0, 0, 0]
      ([] @ [0x4c] @ opcode_bytes False 0x6b @ [0x05, 0x44, 0x33, 0x22, 0x11, 0x07, 0, 0, 0, 0, 0, 0, 0]) i \<and>
    encoding_length [] [0x4c] False 0x6b [0x05, 0x44, 0x33, 0x22, 0x11, 0x07, 0, 0, 0, 0, 0, 0, 0] = 8"
proof -
  let ?rest = "[0x05, 0x44, 0x33, 0x22, 0x11, 0x07, 0, 0, 0, 0, 0, 0, 0] :: bytes"
  have "decodable [] [0x4c] False 0x6b ?rest" "length ([] @ [0x4c] @ opcode_bytes False 0x6b @ ?rest) = 15"
    "encoding_length [] [0x4c] False 0x6b ?rest = 8"
    by code_simp+
  then show ?thesis
    using x86_decode_correct [where ps = "[]" and rx = "[0x4c]" and two = False and b = "0x6b" and rest = ?rest] by simp
qed

lemma sib_base_5_number: "sib_base sb = 5 \<Longrightarrow> sib_base_number r sb \<noteq> 7 \<and> sib_base_number r sb \<noteq> 14"
proof -
  assume "sib_base sb = 5"
  moreover have "REX_B r = 0 \<or> REX_B r = 1"
    by (simp add: REX_B_def and_one_eq mod2_eq_if)
  ultimately show ?thesis by (auto simp: sib_base_number_def)
qed

text \<open>
  C18. The ModRM stage reads exactly the bytes of the operand form, except in mode 0 with a SIB byte
  whose base field is 5 or whose base register has the number 7 or 14: in 64-bit addressing, with room
  in the buffer, it succeeds for every ModRM and SIB byte, and the cursor ends behind the form if and
  only if the form is not one of those.
\<close>

theorem modrm_length_exact:
  assumes "rd_cursor rd + 6 \<le> length (rd_buffer rd)" "length (operands i) = 3"
    and "insn_prefix i AND prefix_value INSN_PREFIX_ADDRESS_SIZE = 0"
  shows "\<exists>rd' j. x86_insn_decode_modrm_sib rd i 64 = Inr (rd', j) \<and>
    (rd_cursor rd' = rd_cursor rd + modrm_form_length (rd_buffer rd ! rd_cursor rd) (rd_buffer rd ! (rd_cursor rd + 1)) \<longleftrightarrow>
     \<not> sib_misread (rex i) (rd_buffer rd ! rd_cursor rd) (rd_buffer rd ! (rd_cursor rd + 1)))"
proof -
  let ?mb = "rd_buffer rd ! rd_cursor rd" and ?sb = "rd_buffer rd ! (rd_cursor rd + 1)"
  have "modrm_form_read (rex i) ?mb ?sb \<le> 6"
    by (auto simp: modrm_form_read_def)
  then obtain j where "x86_insn_decode_modrm_sib rd i 64 = Inr (advance (modrm_form_read (rex i) ?mb ?sb) rd, j)"
    using modrm_sib_reads [of rd i ?mb ?sb, OF _ assms(3,2) refl refl] assms(1) by auto
  moreover have "modrm_form_read (rex i) ?mb ?sb = modrm_form_length ?mb ?sb \<longleftrightarrow> \<not> sib_misread (rex i) ?mb ?sb"
    using sib_ok_length [of "rex i" ?mb ?sb] sib_base_5_number [of ?sb "rex i"] modrm_modes [of ?mb]
    by (auto simp: sib_misread_def modrm_form_read_def modrm_form_length_def)
  ultimately show ?thesis by simp
qed

theorem modrm_length_exact_witness:
  "\<exists>rd' j. x86_insn_decode_modrm_sib (init_reader (replicate 15 0x45)) zero_insn 64 = Inr (rd', j) \<and> rd_cursor rd' = 2"
proof -
  let ?rd = "init_reader (replicate 15 0x45)"
  have "rd_cursor ?rd + 6 \<le> length (rd_buffer ?rd)" "length (operands zero_insn) = 3"
    "insn_prefix zero_insn AND prefix_value INSN_PREFIX_ADDRESS_SIZE = 0"
    "modrm_form_length (rd_buffer ?rd ! rd_cursor ?rd) (rd_buffer ?rd ! (rd_cursor ?rd + 1)) = 2"
    "\<not> sib_misread (rex zero_insn) (rd_buffer ?rd ! rd_cursor ?rd) (rd_buffer ?rd ! (rd_cursor ?rd + 1))" "rd_cursor ?rd = 0"
    by code_simp+
  then show ?thesis
    using modrm_length_exact [of ?rd zero_insn] by auto
qed

definition sse_opcode :: "int \<Rightarrow> bool" where
  "sse_opcode b \<longleftrightarrow> 0x10 \<le> b \<and> b \<le> 0x17 \<or> 0x28 \<le> b \<and> b \<le> 0x2f \<or> 0x50 \<le> b \<and> b \<le> 0x70 \<or> 0x74 \<le> b \<and> b \<le> 0x7f \<or>
     b = 0xc2 \<or> 0xc4 \<le> b \<and> b \<le> 0xc6 \<or> 0xd0 \<le> b \<and> b \<le> 0xff"

fun sse_rows :: "int \<Rightarrow> x86_insn_spec list \<Rightarrow> bool" where
  "sse_rows b [] = True"
| "sse_rows b (s # ss) = (if sse_opcode b = (X86_INSN_FLAG_GET_GROUP (spec_flags s) > X86_INSN_SSE_GROUP_START)
     then sse_rows (b + 1) ss else False)"

lemma two_byte_sse_rows: "sse_rows 0 x86_opcode_map_two_byte"
  by code_simp

lemma sse_rowsD:
  "sse_rows b ss \<Longrightarrow> n < length ss \<Longrightarrow>
    sse_opcode (b + int n) = (X86_INSN_FLAG_GET_GROUP (spec_flags (ss ! n)) > X86_INSN_SSE_GROUP_START)"
proof (induction ss arbitrary: b n)
  case (Cons s ss)
  then show ?case
    using Cons.IH [of "b + 1" "n - 1"] by (cases n) (auto simp: add.assoc split: if_splits)
qed simp

text \<open>
  C19. Instructions of the SSE groups are refused, not misread: for every legacy prefixes and REX
  prefix, a two-byte opcode of the SSE and MMX rows of the map ends in \<^verbatim>\<open>UNIMPLEMENTED\<close>.
\<close>

theorem sse_decode_unimplemented:
  assumes "list_all is_prefix ps" "rex_ok rx" "length ps \<le> 10" "sse_opcode (uint b)"
    and "length (ps @ rx @ [0x0f, b] @ rest) = 15"
  shows "x86_insn_decode zero_insn (ps @ rx @ [0x0f, b] @ rest) 64 = Inl Unimplemented"
proof -
  let ?code = "ps @ rx @ [0x0f, b] @ rest"
  have buf: "rd_buffer (init_reader ?code) = ?code @ replicate 5 0xcc" "rd_cursor (init_reader ?code) = 0"
    using assms(5) by (simp_all add: init_reader_def reader_buffer_size_def)
  obtain i where "x86_insn_decode_prefix (init_reader ?code) zero_insn 64 =
      Inr (prefix_bits ps, advance (length ps + length rx) (init_reader ?code), i)"
    using prefix_stage [of "init_reader ?code" ps rx "0x0f" "b # rest @ replicate 5 0xcc"] buf assms(1,2)
    by (auto simp: is_prefix_def)
  moreover have "X86_INSN_FLAG_GET_GROUP (spec_flags (x86_opcode_map_two_byte ! unat b)) > X86_INSN_SSE_GROUP_START"
    using sse_rowsD [OF two_byte_sse_rows, of "unat b"] assms(4) opcode_map_lengths unsigned_less [of b, where 'a = nat] by simp
  moreover have "x86_insn_decode_opcode (advance (length ps + length rx) (init_reader ?code)) j = Inl Unimplemented" for j
    using calculation(2) assms(5) buf
    by (simp add: x86_insn_decode_opcode_def read_byte_at nth_append Let_def)
  ultimately show ?thesis
    by (simp add: x86_insn_decode_def)
qed

text \<open>Witness: \<^verbatim>\<open>movss xmm0, [rax]\<close>.\<close>

theorem sse_decode_unimplemented_witness:
  "x86_insn_decode zero_insn ([0xf3] @ [] @ [0x0f, 0x10] @ replicate 12 0) 64 = Inl Unimplemented"
  by (rule sse_decode_unimplemented) (simp_all add: is_prefix_def rex_ok_def sse_opcode_def)

definition decoded_length :: "bytes \<Rightarrow> u32 res" where
  "decoded_length code = bindr (x86_insn_decode zero_insn code 64) (\<lambda>i. Inr (insn_length i))"

text \<open>
  Encodings outside the covered ones are given wrong lengths: the decoder takes
  \<^verbatim>\<open>jmp [rip+disp32]\<close> (six bytes) for one byte, \<^verbatim>\<open>nop [rax]\<close> (three bytes) for two,
  \<^verbatim>\<open>mov rax, imm64\<close> (ten bytes) for six, \<^verbatim>\<open>mov eax, [disp32]\<close> (seven bytes) for three and
  \<^verbatim>\<open>mov eax, [rdi+rcx]\<close> (three bytes) for seven.
\<close>

theorem uncovered_lengths:
  "decoded_length ([0xff, 0x25] @ replicate 13 0) = Inr 1 \<and>
   decoded_length ([0x0f, 0x1f, 0x00] @ replicate 12 0) = Inr 2 \<and>
   decoded_length ([0x48, 0xb8] @ replicate 13 0) = Inr 6 \<and>
   decoded_length ([0x8b, 0x04, 0x25] @ replicate 12 0) = Inr 3 \<and>
   decoded_length ([0x8b, 0x04, 0x0f] @ replicate 12 0) = Inr 7"
  by (intro conjI; code_simp)

end
