(* ===== verification/X86_Bounds.thy ===== *)
theory X86_Bounds
  imports X86_Decoder
begin

text \<open>
  The decoder stays inside the reader's buffer. A step of the decoder \<open>reads_at_most\<close> \<open>n\<close> bytes
  when, started with room for \<open>n\<close> bytes, it never faults with \<open>OutOfBounds\<close>, advances the cursor by
  at most \<open>n\<close> and leaves the buffer alone.
\<close>

definition moved :: "nat \<Rightarrow> x86_insn_reader \<Rightarrow> x86_insn_reader \<Rightarrow> bool" where
  "moved n rd rd' \<longleftrightarrow> rd_buffer rd' = rd_buffer rd \<and> rd_cursor rd' \<le> rd_cursor rd + n"

definition safe :: "('a \<Rightarrow> bool) \<Rightarrow> 'a res \<Rightarrow> bool" where
  "safe Q r = (case r of Inl e \<Rightarrow> e \<noteq> OutOfBounds | Inr x \<Rightarrow> Q x)"

lemma safe_simps [simp]: "safe Q (Inl e) \<longleftrightarrow> e \<noteq> OutOfBounds" "safe Q (Inr x) \<longleftrightarrow> Q x"
  by (simp_all add: safe_def)

lemma safe_bindr: "safe P r \<Longrightarrow> (\<And>x. r = Inr x \<Longrightarrow> P x \<Longrightarrow> safe Q (k x)) \<Longrightarrow> safe Q (bindr r k)"
  by (cases r) auto

lemma safe_mono: "safe P r \<Longrightarrow> (\<And>x. P x \<Longrightarrow> Q x) \<Longrightarrow> safe Q r"
  by (cases r) auto

definition room :: "nat \<Rightarrow> x86_insn_reader \<Rightarrow> bool" where
  "room n rd \<longleftrightarrow> rd_cursor rd + n \<le> length (rd_buffer rd)"

lemma room_moved: "room m rd \<Longrightarrow> moved n rd rd' \<Longrightarrow> n + k \<le> m \<Longrightarrow> room k rd'"
  by (auto simp: room_def moved_def)

lemma moved_trans: "moved n rd rd' \<Longrightarrow> moved m rd' rd'' \<Longrightarrow> n + m \<le> k \<Longrightarrow> moved k rd rd''"
  by (auto simp: moved_def)

lemma moved_mono: "moved n rd rd' \<Longrightarrow> n \<le> m \<Longrightarrow> moved m rd rd'"
  by (auto simp: moved_def)

lemma moved_refl: "moved n rd rd"
  by (simp add: moved_def)

lemma safe_read_byte: "room 1 rd \<Longrightarrow> safe (\<lambda>(b, rd'). moved 1 rd rd') (read_byte rd)"
  by (auto simp: room_def read_byte_def peek_byte_def moved_def advance_def)

lemma safe_decode_number:
  assumes "room (if n = 64 then 8 else if n = 32 then 4 else if n = 16 then 2 else if n = 8 then 1 else 0) rd"
  shows "safe (\<lambda>(v, rd'). moved 4 rd rd') (x86_insn_decode_number rd n)"
  using assms
  by (auto simp: x86_insn_decode_number_def read_qword_def read_dword_def read_word_def read_byte_def peek_bytes_def
      peek_byte_def room_def moved_def advance_def)

lemma safe_decode_displacement:
  assumes "room 4 rd" "n \<noteq> 64"
  shows "safe (\<lambda>(rd', j). moved 4 rd rd' \<and> insn_spec j = insn_spec i) (decode_displacement n rd i)"
proof (cases "n = 0")
  case False
  have "room (if n = 64 then 8 else if n = 32 then 4 else if n = 16 then 2 else if n = 8 then 1 else 0) rd"
    using assms by (auto simp: room_def)
  from safe_decode_number [OF this] show ?thesis
    using False by (auto simp: decode_displacement_def Let_def upd_operand_def intro!: safe_bindr elim: moved_mono split: if_splits)
qed (simp add: decode_displacement_def moved_refl)

lemma safe_decode_address:
  assumes "room 1 rd" "md \<noteq> 3"
  shows "safe (\<lambda>(d, rd', j). moved 1 rd rd' \<and> insn_spec j = insn_spec i \<and> d \<in> {0, 8, 32}) (decode_address a md rm rd i)"
  using safe_read_byte [OF assms(1)]
  by (auto simp: decode_address_def decode_sib_def Let_def upd_operand_def set_flag_def moved_refl intro!: safe_bindr)


lemma safe_effective_address_bits: "safe (\<lambda>_. True) (effective_address_bits mode p)"
  by (auto simp: effective_address_bits_def Let_def)

lemma safe_modrm_sib:
  assumes "room 6 rd"
  shows "safe (\<lambda>(rd', j). moved 6 rd rd' \<and> insn_spec j = insn_spec i) (x86_insn_decode_modrm_sib rd i mode)"
  unfolding x86_insn_decode_modrm_sib_def
proof (rule safe_bindr [OF safe_read_byte], goal_cases)
  case 1
  then show ?case using assms by (simp add: room_def)
next
  case (2 x)
  obtain mb rd1 where x: "x = (mb, rd1)" by force
  with 2 have m1: "moved 1 rd rd1" by simp
  then have r1: "room 5 rd1" "room 1 rd1" using assms room_moved [of 6 rd 1 rd1] by auto
  let ?i = "set_flag X86_INSN_DECODE_FLAG_IS_ADDRESS (upd_operand 0 (\<lambda>m. m\<lparr>opnd_reg := push_bit 3 (REX_R (rex i)) OR modrm_reg mb\<rparr>) (i\<lparr>modrm := mb\<rparr>))"
  have spec: "insn_spec ?i = insn_spec i" by (simp add: set_flag_def upd_operand_def)
  have address: "safe (\<lambda>(d, rd', j). moved 1 rd1 rd' \<and> insn_spec j = insn_spec i \<and> d \<noteq> 64)
      (if a = 32 \<or> a = 64 then decode_address a (modrm_mode mb) (push_bit 3 (REX_B (rex i)) OR modrm_rm mb) rd1 ?i
       else (case decode_address16 (modrm_mode mb) (modrm_rm mb) ?i of (d, j) \<Rightarrow> Inr (d, rd1, j)))"
    if "modrm_mode mb \<noteq> 3" for a
    using safe_decode_address [OF r1(2) that, of ?i a "push_bit 3 (REX_B (rex i)) OR modrm_rm mb"] spec
    by (auto simp: decode_address16_def address16_regs_def set_flag_def upd_operand_def moved_refl elim!: safe_mono)
  show ?case
  proof (cases "modrm_mode mb = 3")
    case True
    then show ?thesis using m1 by (auto simp: x Let_def upd_operand_def elim: moved_mono)
  next
    case False
    have "safe (\<lambda>(rd', j). moved 6 rd rd' \<and> insn_spec j = insn_spec i)
      (bindr (if a = 32 \<or> a = 64 then decode_address a (modrm_mode mb) (push_bit 3 (REX_B (rex i)) OR modrm_rm mb) rd1 ?i
         else (case decode_address16 (modrm_mode mb) (modrm_rm mb) ?i of (d, j) \<Rightarrow> Inr (d, rd1, j)))
        (\<lambda>(d, rd, j). decode_displacement d rd j))" for a
    proof (rule safe_bindr [OF address [OF False]])
      fix y :: "u8 \<times> x86_insn_reader \<times> x86_insn"
      assume "case y of (d, rd', j) \<Rightarrow> moved 1 rd1 rd' \<and> insn_spec j = insn_spec i \<and> d \<noteq> 64"
      moreover obtain d rd2 j where "y = (d, rd2, j)" by (cases y)
      ultimately have y: "y = (d, rd2, j)" "moved 1 rd1 rd2" "insn_spec j = insn_spec i" "d \<noteq> 64" by auto
      have "room 4 rd2" using room_moved [OF r1(1) y(2)] by simp
      moreover have "moved 2 rd rd2" using moved_trans [OF m1 y(2)] by simp
      ultimately show "safe (\<lambda>(rd', j). moved 6 rd rd' \<and> insn_spec j = insn_spec i) (case y of (d, rd, j) \<Rightarrow> decode_displacement d rd j)"
        using safe_decode_displacement [of rd2 d j] y moved_trans [of 2 rd rd2 4 _ 6] by (auto elim!: safe_mono)
    qed
    note body = this
    have frame: "rex (i\<lparr>modrm := mb\<rparr>) = rex i" "insn_prefix (i\<lparr>modrm := mb\<rparr>) = insn_prefix i"
      by simp_all
    show ?thesis
      by (simp only: x prod.case Let_def if_not_P [OF False] frame set_flag_simps upd_operand_simps)
        (rule safe_bindr [OF safe_effective_address_bits body])
  qed
qed

section \<open>Opcode and immediate\<close>

text \<open>
  Every specification the decoder finds has three operands, and none has both a ModRM byte and an
  immediate of full operand size.
\<close>

definition spec_ok :: "x86_insn_spec \<Rightarrow> bool" where
  "spec_ok s = (if x86_insn_has_modrm_byte s then
     (if x86_insn_has_immediate s then
       (case x86_insn_immediate_type s of Inl e \<Rightarrow> False | Inr t \<Rightarrow> t \<noteq> CHR ''v'' \<and> t \<noteq> CHR ''q'') else True) else True)"

lemma tables_spec_ok: "list_all spec_ok x86_opcode_map_one_byte" "list_all spec_ok x86_opcode_map_two_byte"
  by code_simp+

lemma table_lengths: "length x86_opcode_map_one_byte = 256" "length x86_opcode_map_two_byte = 256"
  by code_simp+

lemma u8_less_256: "unat (b :: u8) < 256"
  using unsigned_less [of b, where 'a = nat] by simp

lemma spec_ok_update: "spec_ok (s\<lparr>spec_name := n, spec_flags := f\<rparr>) = spec_ok s"
  by (simp add: spec_ok_def x86_insn_has_modrm_byte_def x86_insn_has_immediate_def x86_insn_immediate_type_def)

lemma spec_ok_map: "spec_ok (x86_opcode_map_one_byte ! unat (b :: u8))" "spec_ok (x86_opcode_map_two_byte ! unat b)"
  using tables_spec_ok table_lengths u8_less_256 [of b] by (auto simp: list_all_length)

lemma safe_decode_opcode:
  assumes "room 3 rd"
  shows "safe (\<lambda>(rd', j). moved 2 rd rd' \<and> spec_ok (insn_spec j)) (x86_insn_decode_opcode rd i)"
proof -
  have at: "rd_cursor rd + 2 < length (rd_buffer rd)"
    using assms by (simp add: room_def)
  let ?b = "rd_buffer rd ! rd_cursor rd" and ?c = "rd_buffer rd ! Suc (rd_cursor rd)"
  have *: "safe (\<lambda>(rd', j). moved 2 rd rd' \<and> spec_ok (insn_spec j))
    (let group = X86_INSN_FLAG_GET_GROUP (spec_flags spec) in
     if group > X86_INSN_SSE_GROUP_START then Inl Unimplemented
     else if group > X86_INSN_GROUP_START \<and> group < X86_INSN_SSE_GROUP_START then
       bindr (peek_byte rd') (\<lambda>mb.
        let group_insn = (x86_insn_modrm_reg_groups ! group) ! unat (modrm_reg mb) in
        Inr (rd', i\<lparr>primary_opcode := opcode,
                   insn_spec := spec\<lparr>spec_name := spec_name group_insn, spec_flags := spec_flags group_insn\<rparr>\<rparr>))
     else Inr (rd', i\<lparr>primary_opcode := opcode, insn_spec := spec\<rparr>))"
    if "moved 2 rd rd'" "spec_ok spec" for rd' spec opcode
  proof -
    have "rd_cursor rd' < length (rd_buffer rd')"
      using that(1) at by (simp add: moved_def)
    then show ?thesis
      using that by (simp add: Let_def peek_byte_def spec_ok_update)
  qed
  have rd: "read_byte rd = Inr (?b, advance 1 rd)" "read_byte (advance 1 rd) = Inr (?c, advance 1 (advance 1 rd))"
    using at by (simp_all add: read_byte_def peek_byte_def advance_def)
  have m: "moved 2 rd (advance 1 rd)" "moved 2 rd (advance 1 (advance 1 rd))"
    by (simp_all add: moved_def advance_def)
  show ?thesis
  proof (cases "?b = 0x0f")
    case True
    then show ?thesis
      unfolding x86_insn_decode_opcode_def rd bindr_simps prod.case
      by (simp only: rd if_True simp_thms bindr_simps prod.case) (rule *[OF m(2) spec_ok_map(2)])
  next
    case False
    then show ?thesis
      unfolding x86_insn_decode_opcode_def rd bindr_simps prod.case
      by (simp only: if_False bindr_simps prod.case) (rule *[OF m(1) spec_ok_map(1)])
  qed
qed

lemma has_immediate_type: "x86_insn_has_immediate s \<Longrightarrow> \<exists>t. x86_insn_immediate_type s = Inr t"
proof -
  have "list_ex (\<lambda>(c, t). c \<in> {CHR ''J'', CHR ''I'', CHR ''O''}) os \<Longrightarrow> \<exists>t. immediate_type_from os = Inr t" for os
    by (induction os rule: immediate_type_from.induct) auto
  then show "x86_insn_has_immediate s \<Longrightarrow> ?thesis"
    by (simp add: x86_insn_has_immediate_def x86_insn_immediate_type_def)
qed

lemma safe_decode_immediate:
  assumes "x86_insn_has_immediate (insn_spec i)" "room (if x86_insn_has_modrm_byte (insn_spec i) then 4 else 8) rd" "spec_ok (insn_spec i)"
  shows "safe (\<lambda>_. True) (x86_insn_decode_immediate rd i mode)"
proof -
  obtain t where t: "x86_insn_immediate_type (insn_spec i) = Inr t"
    using has_immediate_type [OF assms(1)] by blast
  have bits: "\<exists>n. x86_insn_imm_bits (insn_spec i) ob = Inr n \<and> (x86_insn_has_modrm_byte (insn_spec i) \<longrightarrow> n \<noteq> 64)" for ob
    using assms(1,3) t by (auto simp: x86_insn_imm_bits_def spec_ok_def split: if_splits)
  have num: "safe (\<lambda>_. True) (x86_insn_decode_number rd n)" if "x86_insn_has_modrm_byte (insn_spec i) \<longrightarrow> n \<noteq> 64" for n
  proof -
    have "room (if n = 64 then 8 else if n = 32 then 4 else if n = 16 then 2 else if n = 8 then 1 else 0) rd"
      using assms(2) that by (auto simp: room_def split: if_splits)
    from safe_decode_number [OF this] show ?thesis by (rule safe_mono) simp
  qed
  have "safe (\<lambda>_. True) (bindr (x86_insn_imm_bits (insn_spec i) ob) (\<lambda>imm_bits.
      if imm_bits = 0 then Inr (rd, i)
      else (let i = i\<lparr>immediate_offset := ucast (reader_offset rd)\<rparr> in
        bindr (x86_insn_decode_number rd imm_bits) (\<lambda>(imm, rd). Inr (rd, i\<lparr>immediate := imm\<rparr>)))))" for ob
  proof -
    obtain n where n: "x86_insn_imm_bits (insn_spec i) ob = Inr n" "x86_insn_has_modrm_byte (insn_spec i) \<longrightarrow> n \<noteq> 64"
      using bits [of ob] by blast
    have "safe (\<lambda>_. True) (bindr (x86_insn_decode_number rd n) (\<lambda>(imm, rd). Inr (rd, j\<lparr>immediate := imm\<rparr>)))" for j :: x86_insn
      by (rule safe_bindr [OF num [OF n(2)]]) auto
    then show ?thesis
      by (simp add: n(1) Let_def)
  qed
  then show ?thesis
    by (auto simp: x86_insn_decode_immediate_def effective_operand_bits_def)
qed


section \<open>The whole decoder\<close>

text \<open>The prefix stage stops at the first byte that is no prefix, or behind a REX byte.\<close>

lemma safe_prefix_loop:
  assumes "rd_cursor rd + n < length (rd_buffer rd)" "prefix_value (legacy_prefix (rd_buffer rd ! (rd_cursor rd + n))) = 0"
  shows "safe (\<lambda>(p, rd', j). moved (n + 1) rd rd') (decode_prefix_loop mode rd i p)"
  using assms
proof (induction n arbitrary: rd p)
  case 0
  then show ?case
    by (subst decode_prefix_loop.simps) (simp add: peek_byte_def read_byte_def moved_def)
next
  case (Suc n)
  have "rd_cursor rd < length (rd_buffer rd)" using Suc.prems(1) by simp
  moreover have "safe (\<lambda>(p, rd', j). moved (Suc n + 1) rd rd') (decode_prefix_loop mode (advance 1 rd) i q)" for q
    using Suc.IH [of "advance 1 rd" q] Suc.prems by (auto simp: moved_def elim!: safe_mono)
  ultimately show ?case
    by (subst decode_prefix_loop.simps) (simp add: peek_byte_def read_byte_def moved_def Let_def)
qed

lemma safe_x86_insn_decode:
  assumes "length code = 15" "n \<le> 7" "prefix_value (legacy_prefix (code ! n)) = 0"
  shows "safe (\<lambda>_. True) (x86_insn_decode i code mode)"
  unfolding x86_insn_decode_def
proof (rule safe_bindr)
  let ?rd = "init_reader code"
  have buf: "rd_buffer ?rd = code @ replicate 5 0xcc" "rd_cursor ?rd = 0"
    using assms(1) by (simp_all add: init_reader_def reader_buffer_size_def)
  show "safe (\<lambda>(p, rd, j). moved (n + 1) ?rd rd) (x86_insn_decode_prefix ?rd i mode)"
    unfolding x86_insn_decode_prefix_def using assms buf by (intro safe_prefix_loop) (auto simp: nth_append)
  fix x :: "u32 \<times> x86_insn_reader \<times> x86_insn"
  assume "case x of (p, rd, j) \<Rightarrow> moved (n + 1) ?rd rd"
  moreover obtain p rd j where x: "x = (p, rd, j)" by (cases x)
  ultimately have "room 12 rd"
    using assms(1,2) buf by (auto simp: moved_def room_def)
  have opcode: "safe (\<lambda>(rd', k). room 10 rd' \<and> spec_ok (insn_spec k)) (x86_insn_decode_opcode rd (j\<lparr>insn_prefix := p\<rparr>))"
    using safe_decode_opcode [of rd "j\<lparr>insn_prefix := p\<rparr>"] \<open>room 12 rd\<close>
    by (auto simp: room_def moved_def elim!: safe_mono)
  have modrm: "safe (\<lambda>(rd'', l). room (if x86_insn_has_modrm_byte (insn_spec l) then 4 else 8) rd'' \<and> spec_ok (insn_spec l))
      (if x86_insn_has_modrm_byte (insn_spec k) then x86_insn_decode_modrm_sib rd' k mode else Inr (rd', k))"
    if "room 10 rd'" "spec_ok (insn_spec k)" for rd' k
    using safe_modrm_sib [of rd' k mode] that by (auto simp: room_def moved_def elim!: safe_mono)
  have "safe (\<lambda>_. True) (if x86_insn_has_immediate (insn_spec l) then x86_insn_decode_immediate rd'' l mode else Inr (rd'', l))"
    if "room (if x86_insn_has_modrm_byte (insn_spec l) then 4 else 8) rd''" "spec_ok (insn_spec l)" for rd'' l
    using safe_decode_immediate [OF _ that] by simp
  then have imm: "safe (\<lambda>_. True) (bindr (if x86_insn_has_immediate (insn_spec l) then x86_insn_decode_immediate rd'' l mode else Inr (rd'', l))
      (\<lambda>(rd, i). Inr (i\<lparr>insn_length := word_of_nat (rd_cursor rd)\<rparr>)))"
    if "room (if x86_insn_has_modrm_byte (insn_spec l) then 4 else 8) rd''" "spec_ok (insn_spec l)" for rd'' l
    by (rule safe_bindr) (use that in auto)
  show "safe (\<lambda>_. True) (case x of (p, rd, i) \<Rightarrow>
      bindr (x86_insn_decode_opcode rd (i\<lparr>insn_prefix := p\<rparr>)) (\<lambda>(rd, i).
      bindr (if x86_insn_has_modrm_byte (insn_spec i) then x86_insn_decode_modrm_sib rd i mode else Inr (rd, i)) (\<lambda>(rd, i).
      bindr (if x86_insn_has_immediate (insn_spec i) then x86_insn_decode_immediate rd i mode else Inr (rd, i)) (\<lambda>(rd, i).
      Inr (i\<lparr>insn_length := word_of_nat (rd_cursor rd)\<rparr>)))))"
    unfolding x prod.case
  proof (rule safe_bindr [OF opcode], clarify)
    fix rd' :: x86_insn_reader and k :: x86_insn assume "room 10 rd'" "spec_ok (insn_spec k)"
    from modrm [OF this] show "safe (\<lambda>_. True)
      (bindr (if x86_insn_has_modrm_byte (insn_spec k) then x86_insn_decode_modrm_sib rd' k mode else Inr (rd', k)) (\<lambda>(rd, i).
       bindr (if x86_insn_has_immediate (insn_spec i) then x86_insn_decode_immediate rd i mode else Inr (rd, i)) (\<lambda>(rd, i).
       Inr (i\<lparr>insn_length := word_of_nat (rd_cursor rd)\<rparr>))))"
      by (rule safe_bindr) (use imm in auto)
  qed
qed


section \<open>Progress\<close>

text \<open>
  \<open>ahead k rd rd'\<close>: from \<open>rd\<close> to \<open>rd'\<close> the cursor moved by at least \<open>k\<close> bytes and is still inside the
  buffer.
\<close>

definition ahead :: "nat \<Rightarrow> x86_insn_reader \<Rightarrow> x86_insn_reader \<Rightarrow> bool" where
  "ahead k rd rd' \<longleftrightarrow> rd_buffer rd' = rd_buffer rd \<and> rd_cursor rd + k \<le> rd_cursor rd' \<and> rd_cursor rd' \<le> length (rd_buffer rd')"

lemma ahead_trans: "ahead k rd rd' \<Longrightarrow> ahead l rd' rd'' \<Longrightarrow> ahead (k + l) rd rd''"
  by (auto simp: ahead_def)

lemma ahead_inside: "ahead k rd rd' \<Longrightarrow> ahead 0 rd' rd'"
  by (auto simp: ahead_def)

lemma read_byte_ahead: "read_byte rd = Inr (b, rd') \<Longrightarrow> ahead 1 rd rd'"
  by (auto simp: read_byte_def peek_byte_def ahead_def split: if_splits)

lemma decode_number_ahead: "x86_insn_decode_number rd n = Inr (v, rd') \<Longrightarrow> ahead 1 rd rd'"
  by (auto simp: x86_insn_decode_number_def read_qword_def read_dword_def read_word_def read_byte_def peek_bytes_def
      peek_byte_def ahead_def bindr_Inr_iff split: if_splits)

lemma decode_displacement_ahead: "ahead 0 rd rd \<Longrightarrow> decode_displacement n rd i = Inr (rd', j) \<Longrightarrow> ahead 0 rd rd'"
  by (auto simp: decode_displacement_def Let_def bindr_Inr_iff ahead_def dest!: decode_number_ahead split: if_splits)

lemma decode_address_ahead: "ahead 0 rd rd \<Longrightarrow> decode_address a md rm rd i = Inr (d, rd', j) \<Longrightarrow> ahead 0 rd rd'"
  by (auto simp: decode_address_def decode_sib_def Let_def bindr_Inr_iff ahead_def dest!: read_byte_ahead split: if_splits)

lemma address_stage_ahead:
  assumes "decode_address a md rm rd i = Inr (d, rd1, i1)" "decode_displacement d rd1 i1 = Inr (rd', j)" "ahead 0 rd rd"
  shows "ahead 0 rd rd'"
proof -
  have 1: "ahead 0 rd rd1" using decode_address_ahead assms(1,3) by blast
  then have "ahead 0 rd1 rd'" using decode_displacement_ahead assms(2) ahead_inside by blast
  with 1 show ?thesis using ahead_trans [of 0 rd rd1 0 rd'] by simp
qed

lemma modrm_sib_ahead:
  assumes "x86_insn_decode_modrm_sib rd i mode = Inr (rd', j)"
  shows "ahead 0 rd rd'"
proof -
  from assms obtain mb rd1 where "read_byte rd = Inr (mb, rd1)"
    by (auto simp: x86_insn_decode_modrm_sib_def bindr_Inr_iff)
  note mb = this and a = read_byte_ahead [OF this]
  have "ahead 0 rd1 rd'"
  proof (cases "modrm_mode mb = 3")
    case True
    then show ?thesis
      using assms ahead_inside [OF a] by (simp add: x86_insn_decode_modrm_sib_def mb Let_def)
  next
    case False
    then obtain bits d rm rd2 i1 i2 where "effective_address_bits mode (insn_prefix i) = Inr bits"
      "decode_displacement d rd2 i2 = Inr (rd', j)"
      "(if bits = 32 \<or> bits = 64 then decode_address bits (modrm_mode mb) rm rd1 i1
        else (case decode_address16 (modrm_mode mb) (modrm_rm mb) i1 of (d, j) \<Rightarrow> Inr (d, rd1, j))) = Inr (d, rd2, i2)"
      using assms by (simp add: x86_insn_decode_modrm_sib_def mb Let_def bindr_Inr_iff) blast
    then show ?thesis
      using ahead_inside [OF a] by (auto split: if_splits prod.splits intro: address_stage_ahead decode_displacement_ahead)
  qed
  then show ?thesis
    using a by (auto simp: ahead_def)
qed

lemma decode_immediate_ahead:
  "ahead 0 rd rd \<Longrightarrow> x86_insn_decode_immediate rd i mode = Inr (rd', j) \<Longrightarrow> ahead 0 rd rd'"
  by (auto simp: x86_insn_decode_immediate_def Let_def bindr_Inr_iff ahead_def dest!: decode_number_ahead split: if_splits)

lemma decode_opcode_ahead:
  assumes "x86_insn_decode_opcode rd i = Inr (rd', j)"
  shows "ahead 1 rd rd'"
proof -
  from assms obtain b rd1 where b: "read_byte rd = Inr (b, rd1)"
    by (auto simp: x86_insn_decode_opcode_def bindr_Inr_iff)
  have fin: "rd2 = rd'" if "(let group = X86_INSN_FLAG_GET_GROUP (spec_flags spec) in
      if group > X86_INSN_SSE_GROUP_START then Inl Unimplemented
      else if group > X86_INSN_GROUP_START \<and> group < X86_INSN_SSE_GROUP_START then
        bindr (peek_byte rd2) (\<lambda>mb.
         let group_insn = (x86_insn_modrm_reg_groups ! group) ! unat (modrm_reg mb) in
         Inr (rd2, i\<lparr>primary_opcode := c,
                    insn_spec := spec\<lparr>spec_name := spec_name group_insn, spec_flags := spec_flags group_insn\<rparr>\<rparr>))
      else Inr (rd2, i\<lparr>primary_opcode := c, insn_spec := spec\<rparr>)) = Inr (rd', j)" for spec c rd2
    using that by (auto simp: Let_def bindr_Inr_iff split: if_splits)
  have a1: "ahead 1 rd rd1" using read_byte_ahead [OF b] .
  show ?thesis
  proof (cases "b = 0x0f")
    case True
    with assms b obtain c rd2 where c: "read_byte rd1 = Inr (c, rd2)"
      by (auto simp: x86_insn_decode_opcode_def bindr_Inr_iff)
    then have "rd2 = rd'"
      using assms True b fin [of _ rd2 c] by (simp add: x86_insn_decode_opcode_def)
    then show ?thesis
      using ahead_trans [OF a1 read_byte_ahead [OF c]] by (auto simp: ahead_def)
  next
    case False
    then have "rd1 = rd'"
      using assms b fin [of _ rd1 b] by (simp add: x86_insn_decode_opcode_def)
    then show ?thesis using a1 by simp
  qed
qed

lemma decode_prefix_loop_ahead:
  "ahead 0 rd rd \<Longrightarrow> decode_prefix_loop mode rd i p = Inr (q, rd', j) \<Longrightarrow> ahead 0 rd rd'"
proof (induction mode rd i p rule: decode_prefix_loop.induct)
  case (1 mode rd i p)
  obtain c where c: "peek_byte rd = Inr c" "rd_cursor rd < length (rd_buffer rd)"
    using 1(3) by (subst (asm) decode_prefix_loop.simps) (auto simp: bindr_Inr_iff peek_byte_def split: if_splits)
  have step: "ahead 0 rd rd1" if "ahead 0 (advance 1 rd) rd1" for rd1
    using that by (auto simp: ahead_def)
  show ?case
  proof (cases "(mode = 64 \<and> 0x40 \<le> c \<and> c \<le> 0x4f) \<or> prefix_value (legacy_prefix c) = 0")
    case True
    then show ?thesis
      using 1(2,3) c by (subst (asm) decode_prefix_loop.simps)
        (auto simp: bindr_Inr_iff Let_def ahead_def dest!: read_byte_ahead split: if_splits)
  next
    case False
    then have "decode_prefix_loop mode (advance 1 rd) i (p OR prefix_value (legacy_prefix c)) = Inr (q, rd', j)"
      using 1(3) c(1) by (subst (asm) decode_prefix_loop.simps) (simp add: Let_def split: if_splits)
    moreover have "ahead 0 (advance 1 rd) (advance 1 rd)"
      using c(2) by (simp add: ahead_def)
    ultimately have "ahead 0 (advance 1 rd) rd'"
      using 1(1) [OF c(1) _ refl] False by auto
    then show ?thesis by (rule step)
  qed
qed

text \<open>The immediate lies inside the instruction.\<close>

lemma decode_prefix_loop_imm:
  "decode_prefix_loop mode rd i p = Inr (q, rd', j) \<Longrightarrow> immediate_offset j = immediate_offset i"
proof (induction mode rd i p rule: decode_prefix_loop.induct)
  case (1 mode rd i p)
  obtain c where c: "peek_byte rd = Inr c"
    using "1.prems" by (subst (asm) decode_prefix_loop.simps) (auto simp: bindr_Inr_iff)
  show ?case
  proof (cases "(mode = 64 \<and> 0x40 \<le> c \<and> c \<le> 0x4f) \<or> prefix_value (legacy_prefix c) = 0")
    case True
    then show ?thesis
      using "1.prems" c by (subst (asm) decode_prefix_loop.simps) (auto simp: bindr_Inr_iff Let_def split: if_splits)
  next
    case False
    then have "decode_prefix_loop mode (advance 1 rd) i (p OR prefix_value (legacy_prefix c)) = Inr (q, rd', j)"
      using "1.prems" c by (subst (asm) decode_prefix_loop.simps) (simp add: Let_def split: if_splits)
    then show ?thesis
      using "1.IH" [OF c _ refl] False by auto
  qed
qed

lemma decode_opcode_imm: "x86_insn_decode_opcode rd i = Inr (rd', j) \<Longrightarrow> immediate_offset j = immediate_offset i"
  unfolding x86_insn_decode_opcode_def bindr_Inr_iff
  by (elim exE conjE) (auto simp: Let_def bindr_Inr_iff split: if_splits prod.splits)

lemma decode_displacement_imm: "decode_displacement d rd i = Inr (rd', j) \<Longrightarrow> immediate_offset j = immediate_offset i"
  by (auto simp: decode_displacement_def Let_def bindr_Inr_iff split: if_splits)

lemma decode_address_imm: "decode_address a md rm rd i = Inr (d, rd', j) \<Longrightarrow> immediate_offset j = immediate_offset i"
  by (auto simp: decode_address_def decode_sib_def Let_def bindr_Inr_iff split: if_splits)

lemma decode_address16_imm: "decode_address16 md rm i = (d, j) \<Longrightarrow> immediate_offset j = immediate_offset i"
  by (auto simp: decode_address16_def address16_regs_def split: if_splits)

lemma modrm_sib_imm:
  assumes "x86_insn_decode_modrm_sib rd i mode = Inr (rd', j)"
  shows "immediate_offset j = immediate_offset i"
proof -
  from assms obtain mb rd1 where mb: "read_byte rd = Inr (mb, rd1)"
    by (auto simp: x86_insn_decode_modrm_sib_def bindr_Inr_iff)
  show ?thesis
  proof (cases "modrm_mode mb = 3")
    case True
    then show ?thesis
      using assms by (auto simp: x86_insn_decode_modrm_sib_def mb Let_def)
  next
    case False
    let ?i1 = "set_flag X86_INSN_DECODE_FLAG_IS_ADDRESS (upd_operand 0 (\<lambda>m. m\<lparr>opnd_reg := push_bit 3 (REX_R (rex i)) OR modrm_reg mb\<rparr>)
      (i\<lparr>modrm := mb\<rparr>))"
    from False assms obtain bits d rm rd2 i2 where "decode_displacement d rd2 i2 = Inr (rd', j)"
      "(if bits = 32 \<or> bits = 64 then decode_address bits (modrm_mode mb) rm rd1 ?i1
        else (case decode_address16 (modrm_mode mb) (modrm_rm mb) ?i1 of (d, j) \<Rightarrow> Inr (d, rd1, j))) = Inr (d, rd2, i2)"
      by (simp add: x86_insn_decode_modrm_sib_def mb Let_def bindr_Inr_iff) blast
    moreover have "immediate_offset ?i1 = immediate_offset i" by simp
    ultimately show ?thesis
      by (auto split: if_splits prod.splits dest!: decode_displacement_imm decode_address_imm decode_address16_imm)
  qed
qed

lemma ucast_word_nat: "unat (ucast (word_of_nat n :: u32) :: u8) \<le> n"
  by (simp add: unsigned_of_nat take_bit_eq_mod)

lemma decode_immediate_offset:
  assumes "x86_insn_decode_immediate rd i mode = Inr (rd', j)" "unat (immediate_offset i) \<le> rd_cursor rd" "ahead 0 rd rd"
  shows "unat (immediate_offset j) \<le> rd_cursor rd'"
proof -
  have "rd_cursor rd \<le> rd_cursor rd'"
    using decode_immediate_ahead [OF assms(3,1)] by (simp add: ahead_def)
  moreover have "unat (immediate_offset j) \<le> rd_cursor rd"
    using assms(1,2) by (auto simp: x86_insn_decode_immediate_def Let_def bindr_Inr_iff reader_offset_def ucast_word_nat split: if_splits)
  ultimately show ?thesis by simp
qed

lemma x86_insn_decode_length:
  assumes "x86_insn_decode i code mode = Inr j" "length code = 15"
  shows "1 \<le> unat (insn_length j)" "unat (insn_length j) \<le> 20"
    "immediate_offset i = 0 \<Longrightarrow> unat (immediate_offset j) \<le> unat (insn_length j)"
proof -
  let ?rd = "init_reader code"
  have in0: "ahead 0 ?rd ?rd" by (simp add: ahead_def init_reader_def)
  obtain p rd1 i1 rd2 i2 rd3 i3 rd4 i4 where
    1: "x86_insn_decode_prefix ?rd i mode = Inr (p, rd1, i1)" and
    2: "x86_insn_decode_opcode rd1 (i1\<lparr>insn_prefix := p\<rparr>) = Inr (rd2, i2)" and
    3: "(if x86_insn_has_modrm_byte (insn_spec i2) then x86_insn_decode_modrm_sib rd2 i2 mode else Inr (rd2, i2)) = Inr (rd3, i3)" and
    4: "(if x86_insn_has_immediate (insn_spec i3) then x86_insn_decode_immediate rd3 i3 mode else Inr (rd3, i3)) = Inr (rd4, i4)" and
    j: "j = i4\<lparr>insn_length := word_of_nat (rd_cursor rd4)\<rparr>"
    using assms(1) by (auto simp: x86_insn_decode_def bindr_Inr_iff)
  have "ahead 0 ?rd rd1"
    using decode_prefix_loop_ahead [OF in0] 1 by (simp add: x86_insn_decode_prefix_def)
  moreover have "ahead 1 rd1 rd2" using decode_opcode_ahead [OF 2] .
  moreover have a3: "ahead 0 rd2 rd3"
    using 3 modrm_sib_ahead ahead_inside [OF \<open>ahead 1 rd1 rd2\<close>] by (auto split: if_splits)
  moreover have "ahead 0 rd3 rd4"
    using 4 decode_immediate_ahead ahead_inside [OF a3] by (auto split: if_splits)
  ultimately have "1 \<le> rd_cursor rd4" "rd_cursor rd4 \<le> 20"
    using assms(2) by (auto simp: ahead_def init_reader_def reader_buffer_size_def)
  then have len: "unat (insn_length j) = rd_cursor rd4" "1 \<le> rd_cursor rd4" "rd_cursor rd4 \<le> 20"
    by (auto simp: j unat_of_nat)
  then show "1 \<le> unat (insn_length j)" "unat (insn_length j) \<le> 20"
    by simp_all
  assume "immediate_offset i = 0"
  then have "immediate_offset i3 = 0"
    using 1 2 3 decode_prefix_loop_imm decode_opcode_imm modrm_sib_imm by (fastforce simp: x86_insn_decode_prefix_def split: if_splits)
  then show "unat (immediate_offset j) \<le> unat (insn_length j)"
    using 4 decode_immediate_offset [of rd3 i3 mode rd4 i4] ahead_inside [OF a3] len(1) by (auto simp: j split: if_splits)
qed

section \<open>Properties\<close>

text \<open>
  C17. The decoder never reads outside its twenty-byte buffer when one of the first eight bytes of the
  code is no legacy prefix: for all fifteen bytes of code, in every mode and for every initial
  instruction, the result is an instruction or one of the deliberate aborts, never an access past the
  end of the buffer. The loop of \<^verbatim>\<open>x86_insn_immediate_type\<close>, whose bound is twice the size of the
  operand array, is never driven past the array.
\<close>

theorem x86_decode_in_bounds:
  assumes "length code = 15" "n < 8" "legacy_prefix (code ! n) = INSN_PREFIX_NONE"
  shows "x86_insn_decode i code mode \<noteq> Inl OutOfBounds"
  using safe_x86_insn_decode [of code n i mode] assms by (auto simp: safe_def)

theorem x86_decode_in_bounds_witness:
  "x86_insn_decode zero_insn ([0x66, 0x48, 0x81, 0x84, 0x24] @ replicate 10 0xff) 64 \<noteq> Inl OutOfBounds"
  by (rule x86_decode_in_bounds [where n = 1]) (simp_all add: legacy_prefix_def)

text \<open>
  C32. Every decoded instruction has a length between one and twenty bytes, so each round of the
  relocation loop advances: for all code bytes, in every mode and for every initial instruction, a
  result of the decoder has consumed at least the opcode byte and at most the reader's buffer.
\<close>

theorem x86_decode_progress:
  assumes "x86_insn_decode i code mode = Inr j" "length code = 15"
  shows "1 \<le> unat (insn_length j) \<and> unat (insn_length j) \<le> 20"
  using x86_insn_decode_length(1,2) [OF assms] by simp

theorem x86_decode_progress_witness:
  "\<exists>j. x86_insn_decode zero_insn (0x90 # replicate 14 0xcc) 64 = Inr j \<and> 1 \<le> unat (insn_length j)"
proof -
  have "(case x86_insn_decode zero_insn (0x90 # replicate 14 0xcc) 64 of Inl e \<Rightarrow> False | Inr j \<Rightarrow> True)" by code_simp
  then obtain j where j: "x86_insn_decode zero_insn (0x90 # replicate 14 0xcc) 64 = Inr j" by (auto split: sum.splits)
  from x86_decode_progress [OF this] j show ?thesis by simp
qed

text \<open>
  The bound on the prefixes is needed: ten segment prefixes in front of
  \<^verbatim>\<open>add dword [rax+rax+disp32], imm32\<close> drive the reader past its buffer.
\<close>

theorem x86_decode_prefix_overrun:
  "x86_insn_decode zero_insn (replicate 10 0x2e @ [0x81, 0x84, 0, 0, 0]) 64 = Inl OutOfBounds"
  by code_simp

end
