(* ===== verification/X64_Assembler.thy ===== *)
theory X64_Assembler
  imports Dobby_Prelude Assembler_Label
begin

text \<open>
  The x64 assembler: registers (\<^verbatim>\<open>registers-x64.h\<close>), immediates, memory operands, the instruction
  encoders and the relocation labels of \<^verbatim>\<open>assembler-x64.h\<close>, \<^verbatim>\<open>assembler-x64.cc\<close>, and the code
  generator \<^verbatim>\<open>codegen-x64.cc\<close>. As for arm64, the code buffer is the list of the bytes emitted so
  far, which is its abstraction, and the objects behind \<^verbatim>\<open>data_labels_\<close> live in a heap of labels.
\<close>

section \<open>Registers and constants\<close>

record X64Register =
  x64_code :: u8
  x64_size :: nat

definition GENERAL_REGISTERS :: "string list" where
  "GENERAL_REGISTERS = [''rax'', ''rcx'', ''rdx'', ''rbx'', ''rsp'', ''rbp'', ''rsi'', ''rdi'',
     ''r8'', ''r9'', ''r10'', ''r11'', ''r12'', ''r13'', ''r14'', ''r15'']"

definition x64_register :: "u8 \<Rightarrow> X64Register" where
  "x64_register code = \<lparr>x64_code = code, x64_size = 64\<rparr>"

definition x64_from_code :: "u8 \<Rightarrow> X64Register" where
  "x64_from_code code = \<lparr>x64_code = code, x64_size = 0\<rparr>"

definition rax :: X64Register where "rax = x64_register 0"
definition rcx :: X64Register where "rcx = x64_register 1"
definition rdx :: X64Register where "rdx = x64_register 2"
definition rbx :: X64Register where "rbx = x64_register 3"
definition rsp :: X64Register where "rsp = x64_register 4"
definition rbp :: X64Register where "rbp = x64_register 5"
definition rsi :: X64Register where "rsi = x64_register 6"
definition rdi :: X64Register where "rdi = x64_register 7"
definition r8 :: X64Register where "r8 = x64_register 8"
definition r9 :: X64Register where "r9 = x64_register 9"
definition r10 :: X64Register where "r10 = x64_register 10"
definition r11 :: X64Register where "r11 = x64_register 11"
definition r12 :: X64Register where "r12 = x64_register 12"
definition r13 :: X64Register where "r13 = x64_register 13"
definition r14 :: X64Register where "r14 = x64_register 14"
definition r15 :: X64Register where "r15 = x64_register 15"

lemmas x64_register_defs = rax_def rcx_def rdx_def rbx_def rsp_def rbp_def rsi_def rdi_def
  r8_def r9_def r10_def r11_def r12_def r13_def r14_def r15_def x64_register_def

definition VOLATILE_REGISTER :: X64Register where "VOLATILE_REGISTER = r11"

definition x64_Is :: "X64Register \<Rightarrow> X64Register \<Rightarrow> bool" where
  "x64_Is r r' \<longleftrightarrow> x64_code r' = x64_code r"

definition high_bit :: "X64Register \<Rightarrow> u8" where "high_bit r = drop_bit 3 (x64_code r)"
definition low_bits :: "X64Register \<Rightarrow> u8" where "low_bits r = x64_code r AND 0x7"
definition is_byte_register :: "X64Register \<Rightarrow> bool" where "is_byte_register r \<longleftrightarrow> x64_code r \<le> 3"
definition x64_Is64Bits :: "X64Register \<Rightarrow> bool" where "x64_Is64Bits r \<longleftrightarrow> x64_size r = 64"

datatype ScaleFactor = TIMES_1 | TIMES_2 | TIMES_4 | TIMES_8

fun scale_value :: "ScaleFactor \<Rightarrow> u8" where
  "scale_value TIMES_1 = 0" | "scale_value TIMES_2 = 1" | "scale_value TIMES_4 = 2" | "scale_value TIMES_8 = 3"

definition REX_B_bit :: u8 where "REX_B_bit = 1"
definition REX_X_bit :: u8 where "REX_X_bit = 2"
definition REX_R_bit :: u8 where "REX_R_bit = 4"
definition REX_W_bit :: u8 where "REX_W_bit = 8"
definition REX_PREFIX :: u8 where "REX_PREFIX = 0x40"

lemmas x64_rex_defs = REX_B_bit_def REX_X_bit_def REX_R_bit_def REX_W_bit_def REX_PREFIX_def

section \<open>Immediates\<close>

record Immediate =
  imm_value :: u64
  imm_size :: nat

text \<open>
  The constructor with one argument chooses the size; a value that fits sixteen bits is given the
  size 8, as in the code.
\<close>

definition Immediate_auto :: "u64 \<Rightarrow> Immediate" where
  "Immediate_auto imm = \<lparr>imm_value = imm, imm_size =
     (if scast (ucast imm :: u8) = imm then 8
      else if scast (ucast imm :: u16) = imm then 8
      else if scast (ucast imm :: u32) = imm then 32
      else 64)\<rparr>"

definition Immediate_sized :: "u64 \<Rightarrow> nat \<Rightarrow> Immediate" where
  "Immediate_sized imm n = \<lparr>imm_value = imm, imm_size = n\<rparr>"

section \<open>Memory operands\<close>

text \<open>
  \<^verbatim>\<open>Operand\<close>: the REX bits and the encoding bytes; \<open>opn_encoding\<close> are the first \<^verbatim>\<open>length_\<close> bytes of
  \<^verbatim>\<open>encoding_\<close>.
\<close>

record x64_operand =
  opn_rex :: u8
  opn_encoding :: bytes

definition empty_operand :: x64_operand where
  "empty_operand = \<lparr>opn_rex = 0, opn_encoding = []\<rparr>"

definition encoding_at :: "x64_operand \<Rightarrow> nat \<Rightarrow> u8" where
  "encoding_at opn i = opn_encoding opn ! i"

definition operand_mod :: "x64_operand \<Rightarrow> u8" where
  "operand_mod opn = drop_bit 6 (encoding_at opn 0) AND 3"

definition operand_rm :: "x64_operand \<Rightarrow> X64Register" where
  "operand_rm opn = x64_from_code (push_bit 3 (opn_rex opn AND REX_B_bit) + (encoding_at opn 0 AND 7))"

definition operand_index :: "x64_operand \<Rightarrow> X64Register" where
  "operand_index opn = x64_from_code (push_bit 2 (opn_rex opn AND REX_X_bit) + (drop_bit 3 (encoding_at opn 1) AND 7))"

definition operand_base :: "x64_operand \<Rightarrow> X64Register" where
  "operand_base opn = x64_from_code (push_bit 3 (opn_rex opn AND REX_B_bit) + (encoding_at opn 1 AND 7))"

definition SetModRM :: "u8 \<Rightarrow> X64Register \<Rightarrow> x64_operand \<Rightarrow> x64_operand" where
  "SetModRM md rm opn =
    \<lparr>opn_rex = (if x64_code rm > 7 \<and> \<not> (x64_Is rm r12 \<and> md \<noteq> 3) then opn_rex opn OR REX_B_bit else opn_rex opn),
     opn_encoding = [push_bit 6 md OR (x64_code rm AND 7)]\<rparr>"

definition SetSIB :: "ScaleFactor \<Rightarrow> X64Register \<Rightarrow> X64Register \<Rightarrow> x64_operand \<Rightarrow> x64_operand" where
  "SetSIB scale index base opn =
    \<lparr>opn_rex = opn_rex opn OR (if x64_code base > 7 then REX_B_bit else 0) OR (if x64_code index > 7 then REX_X_bit else 0),
     opn_encoding = take 1 (opn_encoding opn) @
       [push_bit 6 (scale_value scale) OR push_bit 3 (x64_code index AND 7) OR (x64_code base AND 7)]\<rparr>"

definition SetDisp8 :: "u8 \<Rightarrow> x64_operand \<Rightarrow> x64_operand" where
  "SetDisp8 disp opn = opn\<lparr>opn_encoding := opn_encoding opn @ [disp]\<rparr>"

definition SetDisp32 :: "u32 \<Rightarrow> x64_operand \<Rightarrow> x64_operand" where
  "SetDisp32 disp opn = opn\<lparr>opn_encoding := opn_encoding opn @ le_bytes 4 disp\<rparr>"

definition IsInt8 :: "u32 \<Rightarrow> bool" where
  "IsInt8 imm \<longleftrightarrow> -128 \<le> sint imm \<and> sint imm \<le> 127"

definition Address :: "X64Register \<Rightarrow> u32 \<Rightarrow> x64_operand" where
  "Address base disp =
    (let sib = (\<lambda>opn. if x64_code base AND 7 = x64_code rsp then SetSIB TIMES_1 rsp base opn else opn) in
     if disp = 0 \<and> x64_code base AND 7 \<noteq> x64_code rbp then sib (SetModRM 0 base empty_operand)
     else if IsInt8 disp then SetDisp8 (ucast disp) (sib (SetModRM 1 base empty_operand))
     else SetDisp32 disp (sib (SetModRM 2 base empty_operand)))"

definition Address_index :: "X64Register \<Rightarrow> ScaleFactor \<Rightarrow> u32 \<Rightarrow> x64_operand" where
  "Address_index index scale disp = SetDisp32 disp (SetSIB scale index rbp (SetModRM 0 rsp empty_operand))"

definition Address_base_index :: "X64Register \<Rightarrow> X64Register \<Rightarrow> ScaleFactor \<Rightarrow> u32 \<Rightarrow> x64_operand" where
  "Address_base_index base index scale disp =
    (if disp = 0 \<and> x64_code base AND 7 \<noteq> x64_code rbp then SetSIB scale index base (SetModRM 0 rsp empty_operand)
     else if IsInt8 disp then SetDisp8 (ucast disp) (SetSIB scale index base (SetModRM 1 rsp empty_operand))
     else SetDisp32 disp (SetSIB scale index base (SetModRM 2 rsp empty_operand)))"

definition Address_fixed :: "X64Register \<Rightarrow> u32 \<Rightarrow> x64_operand" where
  "Address_fixed base disp =
    (let opn = SetModRM 2 base empty_operand in
     SetDisp32 disp (if x64_code base AND 7 = x64_code rsp then SetSIB TIMES_1 rsp base opn else opn))"

section \<open>The assembler\<close>

datatype X64LabelType = kDisp32_off_9

record x64_plabel = label +
  x64_instructions :: "(int \<times> X64LabelType) list"

record x64_reloc_label = x64_plabel +
  x64_data :: u64

record x64_assembler =
  x64_buf :: bytes
  x64_realized_address :: u64
  x64_heap :: "x64_reloc_label list"
  x64_data_labels :: "nat list option"

definition x64_TurboAssembler :: "u64 \<Rightarrow> x64_assembler" where
  "x64_TurboAssembler address =
    \<lparr>x64_buf = [], x64_realized_address = address, x64_heap = [], x64_data_labels = None\<rparr>"

definition x64_EmitBuffer :: "bytes \<Rightarrow> x64_assembler \<Rightarrow> x64_assembler" where
  "x64_EmitBuffer bs s = s\<lparr>x64_buf := x64_buf s @ bs\<rparr>"

definition Emit1 :: "u8 \<Rightarrow> x64_assembler \<Rightarrow> x64_assembler" where
  "Emit1 v s = x64_EmitBuffer [v] s"

definition x64_Emit :: "u32 \<Rightarrow> x64_assembler \<Rightarrow> x64_assembler" where
  "x64_Emit v s = x64_EmitBuffer (le_bytes 4 v) s"

definition x64_EmitInt64 :: "u64 \<Rightarrow> x64_assembler \<Rightarrow> x64_assembler" where
  "x64_EmitInt64 v s = x64_EmitBuffer (le_bytes 8 v) s"

definition ip_offset :: "x64_assembler \<Rightarrow> int" where
  "ip_offset s = int (length (x64_buf s))"

definition EmitOptionalRex :: "bool \<Rightarrow> bool \<Rightarrow> bool \<Rightarrow> bool \<Rightarrow> bool \<Rightarrow> u8" where
  "EmitOptionalRex force w r x b =
    (if force then 0x40 else 0) OR (if w then 0x48 else 0) OR (if r then 0x44 else 0) OR (if x then 0x42 else 0) OR
    (if b then 0x41 else 0)"

definition emit_rex :: "u8 \<Rightarrow> x64_assembler \<Rightarrow> x64_assembler" where
  "emit_rex r s = (if r \<noteq> 0 then Emit1 r s else s)"

definition Emit_64REX :: "u8 \<Rightarrow> x64_assembler \<Rightarrow> x64_assembler" where
  "Emit_64REX extra s = emit_rex (EmitOptionalRex False True False False False OR extra) s"

definition EmitREX_ExtraRegister :: "X64Register \<Rightarrow> x64_assembler \<Rightarrow> x64_assembler" where
  "EmitREX_ExtraRegister reg s =
    emit_rex (EmitOptionalRex False (x64_size reg = 64) (x64_code reg > 7) False (x64_code reg > 7)) s"

definition EmitREX_Register :: "X64Register \<Rightarrow> x64_assembler \<Rightarrow> x64_assembler" where
  "EmitREX_Register reg s = emit_rex (EmitOptionalRex False (x64_size reg = 64) (x64_code reg > 7) False False) s"

definition EmitREX_Register_Operand :: "X64Register \<Rightarrow> x64_operand \<Rightarrow> x64_assembler \<Rightarrow> x64_assembler res" where
  "EmitREX_Register_Operand reg opn s =
    (if x64_size reg \<noteq> 64 then Inl Unimplemented
     else Inr (emit_rex (opn_rex opn OR EmitOptionalRex True (x64_size reg = 64) (x64_code reg > 7) False False) s))"

definition EmitREX_Operand :: "x64_operand \<Rightarrow> x64_assembler \<Rightarrow> x64_assembler" where
  "EmitREX_Operand opn s = emit_rex (opn_rex opn OR REX_PREFIX) s"

definition EmitImmediate :: "Immediate \<Rightarrow> nat \<Rightarrow> x64_assembler \<Rightarrow> x64_assembler res" where
  "EmitImmediate imm n s =
    (if n = 8 then Inr (x64_EmitBuffer [ucast (imm_value imm)] s)
     else if n = 32 then Inr (x64_Emit (ucast (imm_value imm)) s)
     else if n = 64 then Inr (x64_EmitInt64 (imm_value imm) s)
     else Inl Unreachable)"

definition EmitModRM :: "u8 \<Rightarrow> u8 \<Rightarrow> u8 \<Rightarrow> x64_assembler \<Rightarrow> x64_assembler" where
  "EmitModRM md reg_opcode rm s = Emit1 (push_bit 6 md OR push_bit 3 reg_opcode OR rm) s"

definition ModRM_Mod :: "u8 \<Rightarrow> u8" where "ModRM_Mod b = drop_bit 6 (b AND 0b11000000)"
definition ModRM_RegOpcode :: "u8 \<Rightarrow> u8" where "ModRM_RegOpcode b = drop_bit 3 (b AND 0b00111000)"
definition ModRM_RM :: "u8 \<Rightarrow> u8" where "ModRM_RM b = b AND 0b00000111"

definition EmitModRM_ExtraOpcode_Register :: "u8 \<Rightarrow> X64Register \<Rightarrow> x64_assembler \<Rightarrow> x64_assembler" where
  "EmitModRM_ExtraOpcode_Register extra_opcode reg s = EmitModRM 3 extra_opcode (x64_code reg) s"

definition EmitModRM_Register_Register :: "X64Register \<Rightarrow> X64Register \<Rightarrow> x64_assembler \<Rightarrow> x64_assembler" where
  "EmitModRM_Register_Register reg1 reg2 s = EmitModRM 3 (x64_code reg1) (x64_code reg2) s"

definition EmitModRM_Update_Register :: "u8 \<Rightarrow> X64Register \<Rightarrow> x64_assembler \<Rightarrow> x64_assembler" where
  "EmitModRM_Update_Register mb reg s = EmitModRM (ModRM_Mod mb) (low_bits reg) (ModRM_RM mb) s"

definition EmitModRM_Update_ExtraOpcode :: "u8 \<Rightarrow> u8 \<Rightarrow> x64_assembler \<Rightarrow> x64_assembler" where
  "EmitModRM_Update_ExtraOpcode mb extra_opcode s = EmitModRM (ModRM_Mod mb) extra_opcode (ModRM_RM mb) s"

definition Emit_OpEn_Register_MemOperand :: "X64Register \<Rightarrow> x64_operand \<Rightarrow> x64_assembler \<Rightarrow> x64_assembler" where
  "Emit_OpEn_Register_MemOperand dst opn s =
    x64_EmitBuffer (drop 1 (opn_encoding opn)) (EmitModRM_Update_Register (encoding_at opn 0) dst s)"

definition Emit_OpEn_MemOperand :: "u8 \<Rightarrow> x64_operand \<Rightarrow> x64_assembler \<Rightarrow> x64_assembler" where
  "Emit_OpEn_MemOperand extra_opcode opn s =
    x64_EmitBuffer (drop 1 (opn_encoding opn)) (EmitModRM_Update_ExtraOpcode (encoding_at opn 0) extra_opcode s)"

definition Emit_OpEn_MemOperand_Immediate :: "u8 \<Rightarrow> x64_operand \<Rightarrow> Immediate \<Rightarrow> x64_assembler \<Rightarrow> x64_assembler res" where
  "Emit_OpEn_MemOperand_Immediate extra_opcode opn imm s =
    EmitImmediate imm (imm_size imm) (Emit_OpEn_MemOperand extra_opcode opn s)"

definition Emit_OpEn_RegOperand_Immediate :: "u8 \<Rightarrow> X64Register \<Rightarrow> Immediate \<Rightarrow> x64_assembler \<Rightarrow> x64_assembler res" where
  "Emit_OpEn_RegOperand_Immediate extra_opcode reg imm s =
    EmitImmediate imm (imm_size imm) (EmitModRM_ExtraOpcode_Register extra_opcode reg s)"

definition EmitOpcode_Register :: "u8 \<Rightarrow> X64Register \<Rightarrow> x64_assembler \<Rightarrow> x64_assembler" where
  "EmitOpcode_Register opcode reg s = Emit1 (opcode OR low_bits reg) s"

definition Emit_OpEn_OpcodeRegister_Immediate :: "u8 \<Rightarrow> X64Register \<Rightarrow> Immediate \<Rightarrow> x64_assembler \<Rightarrow> x64_assembler res" where
  "Emit_OpEn_OpcodeRegister_Immediate opcode dst imm s = EmitImmediate imm (imm_size imm) (EmitOpcode_Register opcode dst s)"

section \<open>Instructions\<close>

definition x64_pushfq :: "x64_assembler \<Rightarrow> x64_assembler" where "x64_pushfq s = Emit1 0x9C s"

definition x64_jmp :: "Immediate \<Rightarrow> x64_assembler \<Rightarrow> x64_assembler" where
  "x64_jmp imm s = x64_Emit (ucast (imm_value imm)) (Emit1 0xE9 s)"

definition x64_sub :: "X64Register \<Rightarrow> Immediate \<Rightarrow> x64_assembler \<Rightarrow> x64_assembler res" where
  "x64_sub dst imm s = Emit_OpEn_RegOperand_Immediate 0x5 dst imm (Emit1 0x81 (EmitREX_Register dst s))"

definition x64_add :: "X64Register \<Rightarrow> Immediate \<Rightarrow> x64_assembler \<Rightarrow> x64_assembler res" where
  "x64_add dst imm s = Emit_OpEn_RegOperand_Immediate 0x0 dst imm (Emit1 0x81 (EmitREX_Register dst s))"

definition mov_reg_imm :: "X64Register \<Rightarrow> Immediate \<Rightarrow> x64_assembler \<Rightarrow> x64_assembler res" where
  "mov_reg_imm dst imm s = Emit_OpEn_OpcodeRegister_Immediate 0xb8 dst imm (EmitREX_Register dst s)"

definition mov_mem_imm :: "x64_operand \<Rightarrow> Immediate \<Rightarrow> x64_assembler \<Rightarrow> x64_assembler res" where
  "mov_mem_imm dst imm s = Emit_OpEn_MemOperand_Immediate 0x0 dst imm (Emit1 0xc7 (EmitREX_Operand dst s))"

definition mov_reg_mem :: "X64Register \<Rightarrow> x64_operand \<Rightarrow> x64_assembler \<Rightarrow> x64_assembler" where
  "mov_reg_mem dst src s = Emit_OpEn_Register_MemOperand dst src (Emit1 0x8B (EmitREX_Register dst s))"

definition mov_mem_reg :: "x64_operand \<Rightarrow> X64Register \<Rightarrow> x64_assembler \<Rightarrow> x64_assembler res" where
  "mov_mem_reg dst src s =
    bindr (EmitREX_Register_Operand src dst s) (\<lambda>s. Inr (Emit_OpEn_Register_MemOperand src dst (Emit1 0x89 s)))"

definition mov_reg_reg :: "X64Register \<Rightarrow> X64Register \<Rightarrow> x64_assembler \<Rightarrow> x64_assembler" where
  "mov_reg_reg dst src s = EmitModRM_Register_Register dst src (Emit1 0x8B (EmitREX_Register dst s))"

definition call_mem :: "x64_operand \<Rightarrow> x64_assembler \<Rightarrow> x64_assembler" where
  "call_mem opn s = Emit_OpEn_MemOperand 0x2 opn (Emit1 0xFF (EmitREX_Operand opn s))"

definition call_imm :: "Immediate \<Rightarrow> x64_assembler \<Rightarrow> x64_assembler res" where
  "call_imm imm s = EmitImmediate imm (imm_size imm) (Emit1 0xe8 s)"

definition call_reg :: "X64Register \<Rightarrow> x64_assembler \<Rightarrow> x64_assembler" where
  "call_reg reg s = EmitModRM_ExtraOpcode_Register 0x2 reg (Emit1 0xFF (EmitREX_Register reg s))"

definition x64_pop :: "X64Register \<Rightarrow> x64_assembler \<Rightarrow> x64_assembler" where
  "x64_pop reg s = EmitOpcode_Register 0x58 reg (EmitREX_ExtraRegister reg s)"

definition x64_push :: "X64Register \<Rightarrow> x64_assembler \<Rightarrow> x64_assembler" where
  "x64_push reg s = EmitOpcode_Register 0x50 reg (EmitREX_ExtraRegister reg s)"

definition x64_ret :: "x64_assembler \<Rightarrow> x64_assembler" where "x64_ret s = Emit1 0xc3 s"
definition x64_nop :: "x64_assembler \<Rightarrow> x64_assembler" where "x64_nop s = Emit1 0x90 s"

section \<open>Labels and calls\<close>

definition x64_RelocLabelEntry :: "u64 \<Rightarrow> x64_reloc_label" where
  "x64_RelocLabelEntry d = \<lparr>lpos = 0, near_link_pos = 0, x64_instructions = [], x64_data = d\<rparr>"

definition x64_link_to :: "int \<Rightarrow> X64LabelType \<Rightarrow> x64_reloc_label \<Rightarrow> x64_reloc_label" where
  "x64_link_to p t l = l\<lparr>x64_instructions := x64_instructions l @ [(p, t)]\<rparr>"

definition x64_FixBindLabel :: "int \<Rightarrow> u32 \<Rightarrow> bytes \<Rightarrow> bytes res" where
  "x64_FixBindLabel offset disp b =
    (if 0 \<le> offset \<and> nat offset + 4 \<le> length b then Inr (store_bytes b (nat offset) (le_bytes 4 disp)) else Inl OutOfBounds)"

fun x64_link_instructions :: "int \<Rightarrow> (int \<times> X64LabelType) list \<Rightarrow> bytes \<Rightarrow> bytes res" where
  "x64_link_instructions p [] b = Inr b"
| "x64_link_instructions p ((position, kDisp32_off_9) # ins) b =
    (let offset = p - position in
     bindr (x64_FixBindLabel (position - 4) (word_of_int (offset + 9)) b) (x64_link_instructions p ins))"

definition x64_PseudoBind :: "x64_reloc_label \<Rightarrow> x64_assembler \<Rightarrow> (x64_reloc_label \<times> x64_assembler) res" where
  "x64_PseudoBind l s =
    (let bound_pc = ip_offset s; l = bind_to bound_pc l in
     if x64_instructions l \<noteq> []
     then bindr (x64_link_instructions (pos l) (x64_instructions l) (x64_buf s)) (\<lambda>b. Inr (l, s\<lparr>x64_buf := b\<rparr>))
     else Inr (l, s))"

fun x64_RelocBind_loop :: "nat list \<Rightarrow> x64_assembler \<Rightarrow> x64_assembler res" where
  "x64_RelocBind_loop [] s = Inr s"
| "x64_RelocBind_loop (i # is) s =
    (if i < length (x64_heap s) then
       bindr (x64_PseudoBind (x64_heap s ! i) s) (\<lambda>(l, s).
       x64_RelocBind_loop is (x64_EmitInt64 (x64_data l) (s\<lparr>x64_heap := (x64_heap s)[i := l]\<rparr>)))
     else Inl NullPointer)"

definition x64_RelocBind :: "x64_assembler \<Rightarrow> x64_assembler res" where
  "x64_RelocBind s = (case x64_data_labels s of None \<Rightarrow> Inr s | Some ls \<Rightarrow> x64_RelocBind_loop ls s)"

definition x64_AppendRelocLabelEntry :: "nat \<Rightarrow> x64_assembler \<Rightarrow> x64_assembler" where
  "x64_AppendRelocLabelEntry i s =
    s\<lparr>x64_data_labels := Some ((case x64_data_labels s of None \<Rightarrow> [] | Some ls \<Rightarrow> ls) @ [i])\<rparr>"

definition MovRipToRegister :: "X64Register \<Rightarrow> x64_assembler \<Rightarrow> x64_assembler res" where
  "MovRipToRegister dst s = bindr (call_imm (Immediate_sized 0 32) s) (\<lambda>s. Inr (x64_pop dst s))"

definition x64_CallFunction :: "u64 \<Rightarrow> x64_assembler \<Rightarrow> x64_assembler res" where
  "x64_CallFunction function s =
    bindr (MovRipToRegister VOLATILE_REGISTER (x64_nop s)) (\<lambda>s.
    let s = call_mem (Address VOLATILE_REGISTER 0x7fffffff) s;
        addrLabel = x64_link_to (ip_offset s) kDisp32_off_9 (x64_RelocLabelEntry function);
        i = length (x64_heap s);
        s = x64_AppendRelocLabelEntry i (s\<lparr>x64_heap := x64_heap s @ [addrLabel]\<rparr>) in
    Inr (x64_nop s))"

definition CurrentIP :: "x64_assembler \<Rightarrow> u64" where
  "CurrentIP s = word_of_int (ip_offset s) + x64_realized_address s"

definition JmpNearIndirect :: "u64 \<Rightarrow> x64_assembler \<Rightarrow> x64_assembler" where
  "JmpNearIndirect address s =
    (let currIP = CurrentIP s + 6;
         offset = ucast (address - currIP) :: u32 in
     x64_Emit offset (Emit1 0x25 (Emit1 0xFF s)))"

end
