(* ===== verification/X64_Codegen.thy ===== *)
theory X64_Codegen
  imports X64_Assembler X64_Isa
begin

text \<open>
  The x64 encoders against the reference semantics: every memory operand the assembler builds decodes
  to the operand that was asked for, the call of a function through a relocation label reaches that
  function, and the trampoline of \<^verbatim>\<open>trampoline-x64.cc\<close> reaches its target.
\<close>

section \<open>Memory operands\<close>

lemma below_16_cases:
  assumes "(c :: u8) < 16"
  shows "c \<in> {0, 1, 2, 3, 4, 5, 6, 7, 8, 9, 10, 11, 12, 13, 14, 15}"
proof -
  have "unat c \<in> set [0..<16]"
    using assms by (simp add: word_less_nat_alt)
  then have "word_of_nat (unat c) \<in> set (map (word_of_nat :: nat \<Rightarrow> u8) [0..<16])"
    unfolding set_map by (rule imageI)
  then show ?thesis
    by (simp add: upt_conv_Cons)
qed

lemma IsInt8_cast: "IsInt8 d \<Longrightarrow> (scast (ucast d :: u8) :: u64) = scast d"
proof -
  assume "IsInt8 d"
  then have "signed_take_bit 7 (sint d) = sint d"
    by (simp add: IsInt8_def signed_take_bit_int_eq_self)
  moreover have "sint (ucast d :: u8) = signed_take_bit 7 (sint d)"
    by (rule bit_eqI) (auto simp: bit_simps)
  ultimately have "sint (ucast d :: u8) = sint d" by simp
  then show ?thesis
    by (metis of_int_sint)
qed

lemma disp32_value: "disp_value 4 (le_bytes 4 d @ rest) = scast (d :: u32)"
  by (simp add: disp_value_def bytes)

text \<open>\<open>encodes opn a\<close>: the operand decodes to \<open>a\<close>, whatever bytes follow its encoding.\<close>

definition encodes :: "x64_operand \<Rightarrow> ea \<Rightarrow> bool" where
  "encodes opn a \<longleftrightarrow> (\<forall>rest. x64_ea (opn_rex opn) (opn_encoding opn @ rest) = (a, length (opn_encoding opn)))"

lemmas operand_defs = SetModRM_def SetSIB_def SetDisp8_def SetDisp32_def empty_operand_def x64_Is_def
  x64_register_defs x64_rex_defs

lemma Address_encodes:
  assumes "x64_code base < 16"
  shows "encodes (Address base disp) (Ea_mem (Some (unat (x64_code base))) None (scast disp))"
  using below_16_cases [OF assms]
  by (auto simp: encodes_def Address_def operand_defs x64_ea_def extended_def disp_size_def disp_value_def IsInt8_cast bytes Let_def
      split: if_splits)

lemma Address_fixed_encodes:
  assumes "x64_code base < 16"
  shows "encodes (Address_fixed base disp) (Ea_mem (Some (unat (x64_code base))) None (scast disp))"
  using below_16_cases [OF assms]
  by (auto simp: encodes_def Address_fixed_def operand_defs x64_ea_def extended_def disp_size_def disp_value_def bytes Let_def)

lemma and_7: "(c :: u8) AND 7 = take_bit 3 c"
  by (simp add: take_bit_eq_mask mask_eq_exp_minus_1)

lemma sib_byte_fields:
  fixes sc i b :: u8
  shows "drop_bit 6 (push_bit 6 (take_bit 2 sc) OR push_bit 3 (i AND 7) OR (b AND 7)) = take_bit 2 sc"
    "drop_bit 3 (push_bit 6 sc OR push_bit 3 (i AND 7) OR (b AND 7)) AND 7 = i AND 7"
    "(push_bit 6 sc OR push_bit 3 (i AND 7) OR (b AND 7)) AND 7 = b AND 7"
  unfolding and_7 by (rule bit_word_eqI, auto simp: bit_simps)+

definition sib_byte :: "ScaleFactor \<Rightarrow> u8 \<Rightarrow> u8 \<Rightarrow> u8" where
  "sib_byte sc i b = push_bit 6 (scale_value sc) OR push_bit 3 (i AND 7) OR (b AND 7)"

lemma sib_fields:
  "drop_bit 6 (sib_byte sc i b) = scale_value sc" "drop_bit 3 (sib_byte sc i b) AND 7 = i AND 7" "sib_byte sc i b AND 7 = b AND 7"
proof -
  have "take_bit 2 (scale_value sc) = scale_value sc" by (cases sc) auto
  then show "drop_bit 6 (sib_byte sc i b) = scale_value sc"
    using sib_byte_fields(1) [of "scale_value sc" i b] by (simp add: sib_byte_def)
qed (unfold sib_byte_def, (rule sib_byte_fields)+)

definition sib_rex :: "bool \<Rightarrow> bool \<Rightarrow> u8" where
  "sib_rex x b = (if b then REX_B_bit else 0) OR (if x then REX_X_bit else 0)"

lemma bit_sib_rex: "bit (sib_rex x b) 0 = b" "bit (sib_rex x b) (Suc 0) = x"
  by (simp_all add: sib_rex_def x64_rex_defs)

lemma SetSIB_eq:
  "SetSIB sc ix b \<lparr>opn_rex = 0, opn_encoding = [mb]\<rparr> =
    \<lparr>opn_rex = sib_rex (x64_code ix > 7) (x64_code b > 7), opn_encoding = [mb, sib_byte sc (x64_code ix) (x64_code b)]\<rparr>"
  by (simp add: SetSIB_def sib_rex_def sib_byte_def)

lemma SetModRM_rsp: "SetModRM md rsp empty_operand = \<lparr>opn_rex = 0, opn_encoding = [push_bit 6 md OR 4]\<rparr>"
  by (simp add: operand_defs)

lemma extended_code:
  assumes "c < 16"
  shows "extended (c > 7) (c AND 7) = unat c"
  using below_16_cases [OF assms] by (auto simp: extended_def)

definition index_ea :: "X64Register \<Rightarrow> ScaleFactor \<Rightarrow> (nat \<times> nat) option" where
  "index_ea index scale = Some (unat (x64_code index), 2 ^ unat (scale_value scale))"

lemma index_not_4: "x64_code index \<noteq> 4 \<Longrightarrow> unat (x64_code index) \<noteq> 4"
  by (simp add: word_eq_iff_unsigned [where 'a = nat])

lemma Address_index_encodes:
  assumes "x64_code index < 16" "x64_code index \<noteq> 4"
  shows "encodes (Address_index index scale disp) (Ea_mem None (index_ea index scale) (scast disp))"
  unfolding Address_index_def SetModRM_rsp SetSIB_eq encodes_def
  using extended_code [OF assms(1)] index_not_4 [OF assms(2)]
  by (simp add: SetDisp32_def x64_ea_def sib_fields bit_sib_rex index_ea_def disp32_value Let_def x64_register_defs)

lemma Address_base_index_encodes:
  assumes "x64_code base < 16" "x64_code index < 16" "x64_code index \<noteq> 4"
  shows "encodes (Address_base_index base index scale disp)
    (Ea_mem (Some (unat (x64_code base))) (index_ea index scale) (scast disp))"
  unfolding Address_base_index_def SetModRM_rsp SetSIB_eq encodes_def
  using extended_code [OF assms(1)] extended_code [OF assms(2)] index_not_4 [OF assms(3)] disp32_value [of disp]
  by (simp add: SetDisp32_def SetDisp8_def x64_ea_def sib_fields bit_sib_rex index_ea_def Let_def x64_register_defs
     disp_size_def IsInt8_cast disp_value_def)

section \<open>Instructions with a memory operand\<close>

lemma x64_ea_modrm:
  assumes "drop_bit 6 mb = drop_bit 6 mb'" "mb AND 7 = mb' AND 7" "bit r 0 = bit r' 0" "bit r 1 = bit r' 1"
  shows "x64_ea r (mb # bs) = x64_ea r' (mb' # bs)"
  using assms by (simp add: x64_ea_def Let_def drop_Cons' nth_Cons')

lemma updated_modrm_fields:
  fixes mb reg :: u8
  defines "mb' \<equiv> push_bit 6 (ModRM_Mod mb) OR push_bit 3 (reg AND 7) OR ModRM_RM mb"
  shows "drop_bit 6 mb' = drop_bit 6 mb" "mb' AND 7 = mb AND 7" "drop_bit 3 mb' AND 7 = reg AND 7"
proof -
  have m: "ModRM_Mod mb = take_bit 2 (drop_bit 6 mb)" "ModRM_RM mb = mb AND 7"
  proof -
    have "drop_bit 6 mb AND 3 = take_bit 2 (drop_bit 6 mb)"
      by (simp add: take_bit_eq_mask mask_eq_exp_minus_1)
    then show "ModRM_Mod mb = take_bit 2 (drop_bit 6 mb)" "ModRM_RM mb = mb AND 7"
      by (simp_all add: ModRM_Mod_def ModRM_RM_def)
  qed
  have "take_bit 2 (drop_bit 6 mb) = drop_bit 6 mb"
    by (rule bit_word_eqI) (auto simp: bit_simps dest: bit_imp_le_length)
  then show "drop_bit 6 mb' = drop_bit 6 mb" "mb' AND 7 = mb AND 7" "drop_bit 3 mb' AND 7 = reg AND 7"
    unfolding mb'_def m
    using sib_byte_fields(1) [of "drop_bit 6 mb" reg mb] sib_byte_fields(2,3) [of "drop_bit 6 mb" reg mb] by simp_all
qed

text \<open>The bytes of an instruction with a REX byte, an opcode and a memory operand.\<close>

definition mem_bytes :: "u8 \<Rightarrow> u8 \<Rightarrow> u8 \<Rightarrow> x64_operand \<Rightarrow> bytes" where
  "mem_bytes r opc reg opn = [r, opc, push_bit 6 (ModRM_Mod (encoding_at opn 0)) OR push_bit 3 (reg AND 7) OR
     ModRM_RM (encoding_at opn 0)] @ drop 1 (opn_encoding opn)"

lemma mem_bytes_operand:
  assumes "x64_ea r' (opn_encoding opn @ rest) = (a, length (opn_encoding opn))" "opn_encoding opn \<noteq> []"
    and "bit r 0 = bit r' 0" "bit r 1 = bit r' 1"
  shows "x64_ea r (drop 2 (mem_bytes r opc reg opn @ rest)) = (a, length (opn_encoding opn))"
    and "drop_bit 3 ((mem_bytes r opc reg opn @ rest) ! 2) AND 7 = reg AND 7"
    and "length (mem_bytes r opc reg opn) = length (opn_encoding opn) + 2"
proof -
  obtain mb tl where e: "opn_encoding opn = mb # tl"
    using assms(2) by (cases "opn_encoding opn") auto
  then show "x64_ea r (drop 2 (mem_bytes r opc reg opn @ rest)) = (a, length (opn_encoding opn))"
    using assms x64_ea_modrm [OF updated_modrm_fields(1,2) [of mb reg] assms(3,4), of "tl @ rest"]
    by (simp add: mem_bytes_def encoding_at_def)
  show "drop_bit 3 ((mem_bytes r opc reg opn @ rest) ! 2) AND 7 = reg AND 7"
    unfolding mem_bytes_def using updated_modrm_fields(3) [of "encoding_at opn 0" reg] by (simp only: append_Cons nth_Cons_0 nth_Cons_Suc numeral_2_eq_2)
  show "length (mem_bytes r opc reg opn) = length (opn_encoding opn) + 2"
    using e by (simp add: mem_bytes_def)
qed

lemma decode_mem_bytes:
  assumes "\<And>rest. x64_ea r (opn_encoding opn @ rest) = (a, length (opn_encoding opn))" "opn_encoding opn \<noteq> []"
    and "0x40 \<le> r" "r \<le> 0x4f"
  shows "bit r 3 \<Longrightarrow> x64_decode (mem_bytes r 0x8b reg opn @ rest) =
      Some (X_load (extended (bit r 2) (reg AND 7)) a, length (mem_bytes r 0x8b reg opn))"
    and "bit r 3 \<Longrightarrow> x64_decode (mem_bytes r 0x89 reg opn @ rest) =
      Some (X_store a (extended (bit r 2) (reg AND 7)), length (mem_bytes r 0x89 reg opn))"
    and "x64_decode (mem_bytes r 0xff 2 opn @ rest) = Some (X_call_ea a, length (mem_bytes r 0xff 2 opn))"
proof -
  have split: "rex_split (mem_bytes r opc reg opn @ rest) = (r, tl (mem_bytes r opc reg opn @ rest))"
    "tl (mem_bytes r opc reg opn @ rest) ! 0 = opc" "length (tl (mem_bytes r opc reg opn @ rest)) = length (mem_bytes r opc reg opn @ rest) - 1"
    "drop 1 (tl (mem_bytes r opc reg opn @ rest)) = drop 2 (mem_bytes r opc reg opn @ rest)" 
    "tl (mem_bytes r opc reg opn @ rest) ! 1 = (mem_bytes r opc reg opn @ rest) ! 2" for opc reg
    using assms(3,4) by (simp_all add: rex_split_def mem_bytes_def)
  note facts = mem_bytes_operand [OF assms(1,2) refl refl]
  have opc: "x64_decode (mem_bytes r opc reg opn @ rest) =
      map_option (\<lambda>(i, n). (i, n + 1)) (x64_opcode r (tl (mem_bytes r opc reg opn @ rest)))" for opc reg
    using split [of opc reg] facts(3) [of opc reg] by (simp add: x64_decode_def)
  show "bit r 3 \<Longrightarrow> x64_decode (mem_bytes r 0x8b reg opn @ rest) =
      Some (X_load (extended (bit r 2) (reg AND 7)) a, length (mem_bytes r 0x8b reg opn))"
    unfolding opc x64_opcode_def split facts by simp
  show "bit r 3 \<Longrightarrow> x64_decode (mem_bytes r 0x89 reg opn @ rest) =
      Some (X_store a (extended (bit r 2) (reg AND 7)), length (mem_bytes r 0x89 reg opn))"
    unfolding opc x64_opcode_def split facts by simp
  show "x64_decode (mem_bytes r 0xff 2 opn @ rest) = Some (X_call_ea a, length (mem_bytes r 0xff 2 opn))"
    unfolding opc x64_opcode_def split facts by simp
qed

definition decodes_as :: "bytes \<Rightarrow> x64_insn \<Rightarrow> bool" where
  "decodes_as bs i \<longleftrightarrow> (\<forall>rest. x64_decode (bs @ rest) = Some (i, length bs))"

lemma x64_EmitBuffer_append [simp]: "x64_EmitBuffer ys (x64_EmitBuffer xs s) = x64_EmitBuffer (xs @ ys) s"
  by (simp add: x64_EmitBuffer_def)

lemmas emit_defs = Emit1_def x64_Emit_def x64_EmitInt64_def emit_rex_def EmitModRM_def

lemma mov_mem_reg_bytes:
  assumes "x64_size src = 64"
  shows "mov_mem_reg opn src s = Inr (x64_EmitBuffer
    (mem_bytes (opn_rex opn OR (if x64_code src > 7 then 0x4c else 0x48)) 0x89 (x64_code src) opn) s)"
proof -
  have "opn_rex opn OR 0x4c \<noteq> 0" "opn_rex opn OR 0x48 \<noteq> 0" by (simp_all add: or_eq_0_iff)
  then show ?thesis
    using assms by (simp add: mov_mem_reg_def EmitREX_Register_Operand_def EmitOptionalRex_def emit_defs low_bits_def
        Emit_OpEn_Register_MemOperand_def EmitModRM_Update_Register_def mem_bytes_def)
qed

lemma mov_reg_mem_bytes:
  assumes "x64_size dst = 64"
  shows "mov_reg_mem dst opn s = x64_EmitBuffer (mem_bytes (if x64_code dst > 7 then 0x4c else 0x48) 0x8b (x64_code dst) opn) s"
  using assms by (simp add: mov_reg_mem_def EmitREX_Register_def EmitOptionalRex_def emit_defs low_bits_def
      Emit_OpEn_Register_MemOperand_def EmitModRM_Update_Register_def mem_bytes_def)

lemma call_mem_bytes: "call_mem opn s = x64_EmitBuffer (mem_bytes (opn_rex opn OR 0x40) 0xff 2 opn) s"
proof -
  have "opn_rex opn OR 0x40 \<noteq> 0" by (simp add: or_eq_0_iff)
  then show ?thesis
    by (simp add: call_mem_def EmitREX_Operand_def emit_defs Emit_OpEn_MemOperand_def EmitModRM_Update_ExtraOpcode_def
        mem_bytes_def x64_rex_defs)
qed

text \<open>The REX bits an address carries, and its encoding under another REX byte.\<close>

lemma Address_rex: "x64_code base < 16 \<Longrightarrow> opn_rex (Address base disp) = (if x64_code base > 7 then 1 else 0)"
  using below_16_cases [of "x64_code base"] by (auto simp: Address_def operand_defs Let_def)

lemma Address_nonempty: "opn_encoding (Address base disp) \<noteq> []"
  by (simp add: Address_def operand_defs Let_def)

lemma x64_ea_bits: "bit r 0 = bit r' 0 \<Longrightarrow> bit r 1 = bit r' 1 \<Longrightarrow> x64_ea r bs = x64_ea r' bs"
  by (simp add: x64_ea_def Let_def)

lemma Address_low:
  assumes "x64_code base < 16"
  shows "x64_ea 0 (opn_encoding (Address base disp) @ rest) =
    (Ea_mem (Some (unat (x64_code base AND 7))) None (scast disp), length (opn_encoding (Address base disp)))"
  using below_16_cases [OF assms]
  by (auto simp: Address_def operand_defs x64_ea_def extended_def disp_size_def disp_value_def IsInt8_cast bytes Let_def
      split: if_splits)

lemma mov_mem_reg_decodes:
  assumes "x64_code base < 16" "x64_code reg < 16" "x64_size reg = 64"
  shows "\<exists>bs. mov_mem_reg (Address base disp) reg s = Inr (x64_EmitBuffer bs s) \<and>
    decodes_as bs (X_store (Ea_mem (Some (unat (x64_code base))) None (scast disp)) (unat (x64_code reg)))"
proof -
  let ?opn = "Address base disp" and ?r = "(if x64_code base > 7 then 1 else 0) OR (if x64_code reg > 7 then 0x4c else 0x48) :: u8"
  let ?a = "Ea_mem (Some (unat (x64_code base))) None (scast disp)"
  have "x64_ea ?r (opn_encoding ?opn @ rest) = (?a, length (opn_encoding ?opn))" for rest
    using Address_encodes [OF assms(1), of disp] Address_rex [OF assms(1), of disp]
      x64_ea_bits [of ?r "opn_rex ?opn" "opn_encoding ?opn @ rest"] by (simp add: encodes_def)
  note d = decode_mem_bytes(2) [OF this Address_nonempty]
  have "decodes_as (mem_bytes ?r 0x89 (x64_code reg) ?opn) (X_store ?a (unat (x64_code reg)))"
    unfolding decodes_as_def using d [of "x64_code reg"] extended_code [OF assms(2)]
    by (cases "7 < x64_code reg"; cases "7 < x64_code base"; simp)
  then show ?thesis
    using mov_mem_reg_bytes [OF assms(3), of ?opn s] Address_rex [OF assms(1), of disp] by auto
qed

lemma mov_reg_mem_decodes:
  assumes "x64_code base < 16" "x64_code reg < 16" "x64_size reg = 64"
  shows "\<exists>bs. mov_reg_mem reg (Address base disp) s = x64_EmitBuffer bs s \<and>
    decodes_as bs (X_load (unat (x64_code reg)) (Ea_mem (Some (unat (x64_code base AND 7))) None (scast disp)))"
proof -
  let ?opn = "Address base disp" and ?r = "(if x64_code reg > 7 then 0x4c else 0x48) :: u8"
  let ?a = "Ea_mem (Some (unat (x64_code base AND 7))) None (scast disp)"
  have "x64_ea ?r (opn_encoding ?opn @ rest) = (?a, length (opn_encoding ?opn))" for rest
    using Address_low [OF assms(1), of disp] x64_ea_bits [of ?r 0 "opn_encoding ?opn @ rest"] by simp
  note d = decode_mem_bytes(1) [OF this Address_nonempty]
  have "decodes_as (mem_bytes ?r 0x8b (x64_code reg) ?opn) (X_load (unat (x64_code reg)) ?a)"
    unfolding decodes_as_def using d [of "x64_code reg"] extended_code [OF assms(2)]
    by (cases "7 < x64_code reg"; cases "7 < x64_code base"; simp)
  then show ?thesis
    using mov_reg_mem_bytes [OF assms(3), of ?opn s] by auto
qed

section \<open>Calling a function through a relocation label\<close>

lemma store_bytes_replace:
  "length old = length new \<Longrightarrow> store_bytes (xs @ old @ ys) (length xs) new = xs @ new @ ys"
  by (simp add: store_bytes_def)

definition call_code :: "u32 \<Rightarrow> bytes" where
  "call_code disp = [0x90, 0xe8, 0, 0, 0, 0, 0x4d, 0x5b, 0x41, 0xff, 0x93] @ le_bytes 4 disp @ [0x90]"

lemma length_call_code [simp]: "length (call_code d) = 16"
  by (simp add: call_code_def)

lemma call_r11_bytes: "mem_bytes (opn_rex (Address r11 0x7fffffff) OR 0x40) 0xff 2 (Address r11 0x7fffffff) =
  [0x41, 0xff, 0x93, 0xff, 0xff, 0xff, 0x7f]"
  by code_simp

lemma x64_CallFunction_bytes:
  "x64_CallFunction f s = Inr (s\<lparr>x64_buf := x64_buf s @ call_code 0x7fffffff,
     x64_heap := x64_heap s @ [x64_link_to (15 + int (length (x64_buf s))) kDisp32_off_9 (x64_RelocLabelEntry f)],
     x64_data_labels := Some ((case x64_data_labels s of None \<Rightarrow> [] | Some ls \<Rightarrow> ls) @ [length (x64_heap s)])\<rparr>)"
proof -
  have "le_bytes 4 (0x7fffffff :: u32) = [0xff, 0xff, 0xff, 0x7f]" "le_bytes 4 (0 :: u32) = [0, 0, 0, 0]" by code_simp+
  moreover have "x64_code r11 = 0xb" "x64_size r11 = 64" by (simp_all add: x64_register_defs)
  ultimately show ?thesis
    by (simp add: x64_CallFunction_def MovRipToRegister_def call_imm_def Immediate_sized_def EmitImmediate_def emit_defs x64_pop_def
        EmitREX_ExtraRegister_def EmitOptionalRex_def EmitOpcode_Register_def low_bits_def x64_nop_def VOLATILE_REGISTER_def
        call_mem_bytes call_r11_bytes Let_def x64_AppendRelocLabelEntry_def ip_offset_def x64_EmitBuffer_def call_code_def)
qed

text \<open>
  The pool entry of a call that was emitted at offset \<open>p\<close>, when the pool starts at the end of the
  code: its displacement field gets the distance from the popped address to the entry.
\<close>

lemma x64_RelocBind_call:
  assumes "x64_data_labels s = None"
  shows "\<exists>s'. bindr (x64_CallFunction f s) (\<lambda>s. x64_RelocBind (x64_EmitBuffer post s)) = Inr s' \<and>
    x64_buf s' = x64_buf s @ call_code (word_of_nat (10 + length post)) @ post @ le_bytes 8 f"
proof -
  let ?p = "length (x64_buf s)" and ?d = "word_of_nat (10 + length post) :: u32"
  let ?pre = "x64_buf s @ [0x90, 0xe8, 0, 0, 0, 0, 0x4d, 0x5b, 0x41, 0xff, 0x93]"
  have code: "x64_buf s @ call_code v @ post = ?pre @ le_bytes 4 v @ 0x90 # post" for v
    by (simp add: call_code_def)
  have "store_bytes (x64_buf s @ call_code 0x7fffffff @ post) (11 + ?p) (le_bytes 4 ?d) = x64_buf s @ call_code ?d @ post"
  proof -
    have "length ?pre = 11 + ?p" by simp
    then show ?thesis
      unfolding code by (metis store_bytes_replace length_le_bytes)
  qed
  moreover have "(word_of_int (int ?p + (16 + int (length post)) - (15 + int ?p) + 9) :: u32) = ?d"
    by (simp add: of_nat_diff)
  ultimately have patch: "x64_FixBindLabel (15 + int ?p - 4)
      (word_of_int (int ?p + (16 + int (length post)) - (15 + int ?p) + 9)) (x64_buf s @ call_code 0x7fffffff @ post) =
      Inr (x64_buf s @ call_code ?d @ post)"
    by (simp add: x64_FixBindLabel_def nat_add_distrib)
  show ?thesis
    using assms patch by (simp add: x64_CallFunction_bytes x64_RelocBind_def x64_EmitBuffer_def x64_PseudoBind_def x64_link_to_def
        x64_RelocLabelEntry_def ip_offset_def Let_def x64_EmitInt64_def bind_to_def pos_def nth_append)
qed

lemma call_decodes:
  "x64_decode ([0x90] @ rest) = Some (X_nop, 1)" "x64_decode ([0xe8, 0, 0, 0, 0] @ rest) = Some (X_call 0, 5)"
  "x64_decode ([0x4d, 0x5b] @ rest) = Some (X_pop 11, 2)"
  "x64_decode (([0x41, 0xff, 0x93] @ le_bytes 4 d) @ rest) = Some (X_call_ea (Ea_mem (Some 11) None (scast (d :: u32))), 7)"
  using disp32_value [of d rest]
  by (simp_all add: x64_decode_def rex_split_def x64_opcode_def x64_ea_def disp_value_def extended_def disp_size_def)

lemma call_code_runs:
  assumes code: "loaded (xmem m) (rip m) (call_code d)" and rsp: "apart (rip m) 16 (gpr m 4 - 8) 8"
    and pool: "loaded (xmem m) (rip m + 6 + scast d) (le_bytes 8 f)" "apart (rip m + 6 + scast d) 8 (gpr m 4 - 8) 8"
  shows "x64_steps 4 m = Some (m\<lparr>rip := f, gpr := (gpr m)(11 := rip m + 6, 4 := gpr m 4 - 8),
    xmem := st64 (gpr m 4 - 8) (rip m + 15) (st64 (gpr m 4 - 8) (rip m + 6) (xmem m))\<rparr>)"
proof -
  let ?m1 = "m\<lparr>rip := rip m + 1\<rparr>" and ?st = "st64 (gpr m 4 - 8) (rip m + 6) (xmem m)"
  let ?m2 = "m\<lparr>rip := rip m + 6, gpr := (gpr m)(4 := gpr m 4 - 8), xmem := ?st\<rparr>"
  let ?m3 = "m\<lparr>rip := rip m + 8, gpr := (gpr m)(11 := rip m + 6), xmem := ?st\<rparr>"
  have st: "loaded ?st (rip m) (call_code d)" "loaded ?st (rip m + 6 + scast d) (le_bytes 8 f)"
    using code rsp pool by (simp_all add: loaded_st64)
  have parts: "loaded mm a (call_code d) \<longleftrightarrow> loaded mm a [0x90] \<and> loaded mm (a + 1) [0xe8, 0, 0, 0, 0] \<and>
    loaded mm (a + 6) [0x4d, 0x5b] \<and> loaded mm (a + 8) ([0x41, 0xff, 0x93] @ le_bytes 4 d) \<and> loaded mm (a + 15) [0x90]" for mm a
  proof -
    have "call_code d = [0x90] @ [0xe8, 0, 0, 0, 0] @ [0x4d, 0x5b] @ ([0x41, 0xff, 0x93] @ le_bytes 4 d) @ [0x90]"
      by (simp add: call_code_def)
    note eq = this
    have "loaded mm a (call_code d) \<longleftrightarrow> loaded mm a [0x90] \<and> loaded mm (a + word_of_nat 1) [0xe8, 0, 0, 0, 0] \<and>
        loaded mm (a + word_of_nat 1 + word_of_nat 5) [0x4d, 0x5b] \<and>
        loaded mm (a + word_of_nat 1 + word_of_nat 5 + word_of_nat 2) ([0x41, 0xff, 0x93] @ le_bytes 4 d) \<and>
        loaded mm (a + word_of_nat 1 + word_of_nat 5 + word_of_nat 2 + word_of_nat 7) [0x90]"
      unfolding eq by (subst loaded_append, simp only: loaded_append [of _ _ "[0xe8, 0, 0, 0, 0]"] loaded_append [of _ _ "[0x4d, 0x5b]"]
          loaded_append [of _ _ "[0x41, 0xff, 0x93] @ le_bytes 4 d"]) simp
    then show ?thesis by (simp add: add.assoc)
  qed
  have 1: "x64_step m = Some ?m1"
    using x64_step_bytes [of m "[0x90]"] code call_decodes(1) by (simp add: parts)
  have 2: "x64_step ?m1 = Some ?m2"
    using x64_step_bytes [of ?m1 "[0xe8, 0, 0, 0, 0]"] code call_decodes(2)
    by (simp add: parts x64_push_value_def add.commute [of 6])
  have 3: "x64_step ?m2 = Some ?m3"
    using x64_step_bytes [of ?m2 "[0x4d, 0x5b]"] st call_decodes(3)
    by (simp add: parts ld64_st64 add.commute [of 8 "rip m"] fun_upd_twist)
  have "ld64 ?st (rip m + 6 + scast d) = f"
    using loaded_ld [OF st(2)] by (simp add: ld64_def bytes)
  then have "x64_step ?m3 = Some (m\<lparr>rip := f, gpr := (gpr m)(11 := rip m + 6, 4 := gpr m 4 - 8),
    xmem := st64 (gpr m 4 - 8) (rip m + 15) ?st\<rparr>)"
    using x64_step_bytes [of ?m3 "[0x41, 0xff, 0x93] @ le_bytes 4 d"] st call_decodes(4) [of d]
    by (simp add: parts x64_push_value_def add.commute [of 15])
  then show ?thesis
    using 1 2 3 by (simp add: numeral_eq_Suc)
qed

section \<open>Trampolines\<close>

text \<open>
  \<^verbatim>\<open>trampoline-x64.cc\<close>. \<open>near\<close> stands for \<^verbatim>\<open>NearMemoryArena::AllocateDataChunk\<close>, with the position,
  the range and the size: the address of the chunk, or nothing. The result is the code and the
  store to the stub; without a chunk the code writes through the null pointer.
\<close>

definition AllocIndirectStub :: "(u64 \<Rightarrow> u64 \<Rightarrow> nat \<Rightarrow> u64 option) \<Rightarrow> u64 \<Rightarrow> u64 option" where
  "AllocIndirectStub near branch_address = near branch_address (2 * 1024 * 1024 * 1024) 8"

definition x64_GenerateNormalTrampolineBuffer ::
  "(u64 \<Rightarrow> u64 \<Rightarrow> nat \<Rightarrow> u64 option) \<Rightarrow> u64 \<Rightarrow> u64 \<Rightarrow> (bytes \<times> u64 \<times> u64) res" where
  "x64_GenerateNormalTrampolineBuffer near from_addr to_addr =
    (case AllocIndirectStub near from_addr of
       None \<Rightarrow> Inl NullPointer
     | Some branch_stub \<Rightarrow>
         Inr (x64_buf (JmpNearIndirect branch_stub (x64_TurboAssembler from_addr)), branch_stub, to_addr))"

definition x64_GenerateNearTrampolineBuffer :: "u64 \<Rightarrow> u64 \<Rightarrow> bytes option" where
  "x64_GenerateNearTrampolineBuffer src dst = None"

lemma scast_ucast_32: "- (2 ^ 31) \<le> sint w \<Longrightarrow> sint w < 2 ^ 31 \<Longrightarrow> scast (ucast (w :: u64) :: u32) = w"
proof -
  assume "- (2 ^ 31) \<le> sint w" "sint w < 2 ^ 31"
  then have "signed_take_bit 31 (sint w) = sint w"
    by (intro signed_take_bit_int_eq_self) auto
  moreover have "sint (ucast w :: u32) = signed_take_bit 31 (sint w)"
    by (rule bit_eqI) (auto simp: bit_simps)
  ultimately have "sint (ucast w :: u32) = sint w" by simp
  then show ?thesis
    by (metis of_int_sint scast_id)
qed

lemma JmpNearIndirect_bytes:
  "x64_buf (JmpNearIndirect address s) =
    x64_buf s @ [0xff, 0x25] @ le_bytes 4 (ucast (address - (CurrentIP s + 6)) :: u32)"
  by (simp add: JmpNearIndirect_def Let_def emit_defs x64_EmitBuffer_def)

lemma decode_jmp_rip:
  "x64_decode (([0xff, 0x25] @ le_bytes 4 d) @ rest) = Some (X_jmp_ea (Ea_rip (scast (d :: u32))), 6)"
  using disp32_value [of d rest] by (simp add: x64_decode_def rex_split_def x64_opcode_def x64_ea_def disp_value_def)

text \<open>An indirect jump through a stub in reach of a signed 32-bit displacement.\<close>

lemma jmp_indirect_step:
  assumes "loaded (xmem m) (rip m) ([0xff, 0x25] @ le_bytes 4 (ucast (stub - (rip m + 6)) :: u32))"
    and "- (2 ^ 31) \<le> sint (stub - (rip m + 6))" "sint (stub - (rip m + 6)) < 2 ^ 31"
    and "loaded (xmem m) stub (le_bytes 8 t)"
  shows "x64_step m = Some (m\<lparr>rip := t\<rparr>)"
  using x64_step_bytes [OF assms(1) _ decode_jmp_rip] scast_ucast_32 [OF assms(2,3)] loaded_ld [OF assms(4)]
  by (simp add: ld64_def bytes add.commute [of 6])

section \<open>Properties\<close>

text \<open>
  C26. The four address constructors round trip: for all registers but \<^verbatim>\<open>rsp\<close> as an index, every
  scale and every 32-bit displacement, the ModRM, SIB and displacement bytes they build decode, under
  the REX bits they record, to the operand that was asked for, with nothing read beyond them.
\<close>

theorem address_operands_roundtrip:
  assumes "x64_code base < 16" "x64_code index < 16" "x64_code index \<noteq> 4"
  shows "encodes (Address base disp) (Ea_mem (Some (unat (x64_code base))) None (scast disp)) \<and>
    encodes (Address_fixed base disp) (Ea_mem (Some (unat (x64_code base))) None (scast disp)) \<and>
    encodes (Address_index index scale disp) (Ea_mem None (index_ea index scale) (scast disp)) \<and>
    encodes (Address_base_index base index scale disp) (Ea_mem (Some (unat (x64_code base))) (index_ea index scale) (scast disp))"
  using Address_encodes Address_fixed_encodes Address_index_encodes Address_base_index_encodes assms by blast

theorem address_operands_roundtrip_witness:
  "encodes (Address r12 0x80) (Ea_mem (Some 12) None 0x80) \<and>
   encodes (Address_base_index r13 r9 TIMES_8 0) (Ea_mem (Some 13) (Some (9, 8)) 0)"
  using address_operands_roundtrip [of r12 r9 "0x80" TIMES_8] address_operands_roundtrip [of r13 r9 0 TIMES_8]
  by (simp add: x64_register_defs index_ea_def)

text \<open>
  C29. The two moves between a register and memory: a store to \<open>[base + disp]\<close> decodes to that store for
  all sixteen base registers; a load reads through the base register with the number taken modulo
  eight, because its REX byte does not carry the bits of the operand, so that for \<^verbatim>\<open>r8\<close> to \<^verbatim>\<open>r15\<close> it
  loads through another register.
\<close>

theorem x64_mov_operands:
  assumes "x64_code base < 16" "x64_code reg < 16" "x64_size reg = 64"
  shows "(\<exists>bs. mov_mem_reg (Address base disp) reg s = Inr (x64_EmitBuffer bs s) \<and>
      decodes_as bs (X_store (Ea_mem (Some (unat (x64_code base))) None (scast disp)) (unat (x64_code reg)))) \<and>
    (\<exists>bs. mov_reg_mem reg (Address base disp) s = x64_EmitBuffer bs s \<and>
      decodes_as bs (X_load (unat (x64_code reg)) (Ea_mem (Some (unat (x64_code base AND 7))) None (scast disp))))"
  using mov_mem_reg_decodes [OF assms] mov_reg_mem_decodes [OF assms] by blast

theorem x64_mov_operands_witness:
  "\<exists>bs. mov_reg_mem rax (Address r9 0x10) (x64_TurboAssembler 0) = x64_EmitBuffer bs (x64_TurboAssembler 0) \<and>
     decodes_as bs (X_load 0 (Ea_mem (Some 1) None 0x10))"
  using x64_mov_operands [of r9 rax "0x10" "x64_TurboAssembler 0"] by (auto simp: x64_register_defs)

lemma scast_of_nat_32: "n < 2 ^ 31 \<Longrightarrow> (scast (word_of_nat n :: u32) :: u64) = word_of_nat n"
proof -
  assume n: "n < 2 ^ 31"
  then have "sint (word_of_nat n :: u64) = int n"
    by (simp add: signed_of_nat signed_take_bit_int_eq_self)
  then have "scast (ucast (word_of_nat n :: u64) :: u32) = (word_of_nat n :: u64)"
    using n by (intro scast_ucast_32) auto
  moreover have "(ucast (word_of_nat n :: u64) :: u32) = word_of_nat n"
    by (rule bit_word_eqI) (auto simp: bit_simps)
  ultimately show ?thesis by simp
qed

text \<open>
  C27. A call of a function through a relocation label reaches the function: after any code, with any
  code behind it and the label pool at the end, four instructions take the machine to the function with
  the stack as a call leaves it, the return address behind the call instruction and no register but
  \<^verbatim>\<open>r11\<close> and \<^verbatim>\<open>rsp\<close> changed, wherever the code is loaded, as long as the pushed address does not hit
  the code itself.
\<close>

theorem x64_CallFunction_reaches_function:
  assumes "x64_data_labels s = None" "length post < 2 ^ 31 - 10"
  shows "\<exists>s'. bindr (x64_CallFunction f s) (\<lambda>s. x64_RelocBind (x64_EmitBuffer post s)) = Inr s' \<and>
    (\<forall>m a. loaded (xmem m) a (x64_buf s') \<and> rip m = a + word_of_nat (length (x64_buf s)) \<and>
       apart a (length (x64_buf s')) (gpr m 4 - 8) 8 \<longrightarrow>
     x64_steps 4 m = Some (m\<lparr>rip := f, gpr := (gpr m)(11 := rip m + 6, 4 := gpr m 4 - 8),
       xmem := st64 (gpr m 4 - 8) (rip m + 15) (st64 (gpr m 4 - 8) (rip m + 6) (xmem m))\<rparr>))"
proof -
  let ?d = "word_of_nat (10 + length post) :: u32" and ?p = "length (x64_buf s)"
  obtain s' where s': "bindr (x64_CallFunction f s) (\<lambda>s. x64_RelocBind (x64_EmitBuffer post s)) = Inr s'"
    "x64_buf s' = x64_buf s @ call_code ?d @ post @ le_bytes 8 f"
    using x64_RelocBind_call [OF assms(1)] by blast
  have d: "(scast ?d :: u64) = word_of_nat (10 + length post)"
    by (rule scast_of_nat_32) (use assms(2) in simp)
  have "x64_steps 4 m = Some (m\<lparr>rip := f, gpr := (gpr m)(11 := rip m + 6, 4 := gpr m 4 - 8),
       xmem := st64 (gpr m 4 - 8) (rip m + 15) (st64 (gpr m 4 - 8) (rip m + 6) (xmem m))\<rparr>)"
    if m: "loaded (xmem m) a (x64_buf s')" "rip m = a + word_of_nat ?p" "apart a (length (x64_buf s')) (gpr m 4 - 8) 8" for m a
  proof (rule call_code_runs)
    have pool: "rip m + 6 + scast ?d = a + word_of_nat (?p + 16 + length post)"
      unfolding m(2) d by (simp add: algebra_simps)
    show "loaded (xmem m) (rip m) (call_code ?d)" "loaded (xmem m) (rip m + 6 + scast ?d) (le_bytes 8 f)"
      unfolding pool using m(1,2) s'(2) by (simp_all add: loaded_append add.assoc)
    show "apart (rip m + 6 + scast ?d) 8 (gpr m 4 - 8) 8"
      unfolding pool using s'(2) by (intro apart_sub [OF m(3)]) simp
    show "apart (rip m) 16 (gpr m 4 - 8) 8"
      unfolding m(2) using s'(2) by (intro apart_sub [OF m(3)]) simp
  qed
  then show ?thesis
    using s'(1) by blast
qed

theorem x64_CallFunction_reaches_function_witness:
  "\<exists>s' m'. bindr (x64_CallFunction 0x123456 (x64_TurboAssembler 0)) (\<lambda>s. x64_RelocBind (x64_EmitBuffer [0xc3] s)) = Inr s' \<and>
     x64_steps 4 \<lparr>gpr = (\<lambda>_. 0x8000), rip = 0x1000, xmem = image_at 0x1000 (x64_buf s') (\<lambda>_. 0), xcond = (\<lambda>_. False)\<rparr> = Some m' \<and>
     rip m' = 0x123456"
proof -
  let ?s = "x64_TurboAssembler 0"
  have none: "x64_data_labels ?s = None" "x64_buf ?s = []" by (simp_all add: x64_TurboAssembler_def)
  have short: "length [0xc3 :: u8] < 2 ^ 31 - 10" by simp
  obtain s' where s': "bindr (x64_CallFunction 0x123456 ?s) (\<lambda>s. x64_RelocBind (x64_EmitBuffer [0xc3] s)) = Inr s'"
    and run: "\<forall>m a. loaded (xmem m) a (x64_buf s') \<and> rip m = a + word_of_nat (length (x64_buf ?s)) \<and>
       apart a (length (x64_buf s')) (gpr m 4 - 8) 8 \<longrightarrow>
     x64_steps 4 m = Some (m\<lparr>rip := 0x123456, gpr := (gpr m)(11 := rip m + 6, 4 := gpr m 4 - 8),
       xmem := st64 (gpr m 4 - 8) (rip m + 15) (st64 (gpr m 4 - 8) (rip m + 6) (xmem m))\<rparr>)"
    using x64_CallFunction_reaches_function [OF none(1) short, of "0x123456"] by (elim exE conjE)
  have n: "length (x64_buf s') = 25"
    using x64_RelocBind_call [OF none(1), of "0x123456" "[0xc3]"] s' none(2) by auto
  let ?m = "\<lparr>gpr = (\<lambda>_. 0x8000), rip = 0x1000, xmem = image_at 0x1000 (x64_buf s') (\<lambda>_. 0), xcond = (\<lambda>_. False)\<rparr>"
  have "apart 0x1000 25 0x7ff8 8" by (rule apartI) simp
  then show ?thesis
    using run [rule_format, of ?m "0x1000"] n s' none(2) loaded_image_at [of "x64_buf s'" "0x1000" "\<lambda>_. 0"] by auto
qed

text \<open>
  C28. The x64 trampoline transfers control to its target in one instruction and changes nothing else:
  whenever the stub that is allocated lies within a signed 32-bit displacement of the end of the jump,
  six bytes are generated, and executing them where they were generated for, with the stub filled,
  reaches the target.
\<close>

theorem x64_trampoline_reaches_target:
  assumes "AllocIndirectStub near (rip m) = Some stub"
    and "- (2 ^ 31) \<le> sint (stub - (rip m + 6))" "sint (stub - (rip m + 6)) < 2 ^ 31"
  shows "\<exists>bs. x64_GenerateNormalTrampolineBuffer near (rip m) t = Inr (bs, stub, t) \<and> length bs = 6 \<and>
    (loaded (xmem m) (rip m) bs \<and> loaded (xmem m) stub (le_bytes 8 t) \<longrightarrow> x64_step m = Some (m\<lparr>rip := t\<rparr>))"
  using jmp_indirect_step [OF _ assms(2,3)] assms(1)
  by (simp add: x64_GenerateNormalTrampolineBuffer_def JmpNearIndirect_bytes CurrentIP_def ip_offset_def x64_TurboAssembler_def)

theorem x64_trampoline_reaches_target_witness:
  "\<exists>bs. x64_GenerateNormalTrampolineBuffer (\<lambda>p r n. Some (p + 0x100)) 0x1000 0x7f0012345678 = Inr (bs, 0x1100, 0x7f0012345678) \<and>
    x64_step \<lparr>gpr = (\<lambda>_. 0), rip = 0x1000,
      xmem = image_at 0x1100 (le_bytes 8 (0x7f0012345678 :: u64)) (image_at 0x1000 bs (\<lambda>_. 0)), xcond = (\<lambda>_. False)\<rparr> =
      Some \<lparr>gpr = (\<lambda>_. 0), rip = 0x7f0012345678,
        xmem = image_at 0x1100 (le_bytes 8 (0x7f0012345678 :: u64)) (image_at 0x1000 bs (\<lambda>_. 0)), xcond = (\<lambda>_. False)\<rparr>"
proof -
  let ?near = "\<lambda>p r n. Some (p + 0x100)" and ?t = "0x7f0012345678 :: u64"
  let ?m = "\<lambda>bs. \<lparr>gpr = (\<lambda>_. 0), rip = 0x1000, xmem = image_at 0x1100 (le_bytes 8 ?t) (image_at 0x1000 bs (\<lambda>_. 0)), xcond = (\<lambda>_. False)\<rparr>"
  have stub: "AllocIndirectStub ?near (rip (?m bs)) = Some 0x1100" for bs by (simp add: AllocIndirectStub_def)
  obtain bs where bs: "x64_GenerateNormalTrampolineBuffer ?near 0x1000 ?t = Inr (bs, 0x1100, ?t)" "length bs = 6"
    using x64_trampoline_reaches_target [OF stub, of "[]" ?t] by fastforce
  have "apart 0x1000 6 0x1100 8" by (rule apartI) simp
  then have "loaded (xmem (?m bs)) 0x1000 bs" "loaded (xmem (?m bs)) 0x1100 (le_bytes 8 ?t)"
    using bs(2) by (simp_all add: loaded_image_at loaded_image_at_other)
  moreover have "- (2 ^ 31) \<le> sint (0x1100 - (rip (?m bs) + 6))" "sint (0x1100 - (rip (?m bs) + 6)) < 2 ^ 31"
    by simp_all
  ultimately show ?thesis
    using x64_trampoline_reaches_target [OF stub, of bs ?t] bs(1) by (intro exI [of _ bs]) simp
qed

end
