(* ===== verification/X64_Relocation.thy ===== *)
theory X64_Relocation
  imports X86_Length X86_Bounds X64_Codegen Memory_Arena
begin

text \<open>
  The relocation of x64 code, \<^verbatim>\<open>InstructionRelocation/x64/X64InstructionRelocation.cc\<close>: the
  instructions overwritten by a trampoline are decoded, rewritten for their new place and followed by
  a jump to the rest of the original function; when the chunk for the result is too small the
  whole routine is tried again with a larger one. Memory is a function from addresses to bytes, and a
  chunk is a \<open>MemoryChunk\<close> of the arena.
\<close>

section \<open>One instruction\<close>

text \<open>\<open>cursor\<close> is \<^verbatim>\<open>buffer_cursor\<close>; \<^verbatim>\<open>EmitBuffer\<close> copies from there.\<close>

definition x64_reloc_insn ::
  "(u64 \<Rightarrow> u8) \<Rightarrow> u64 \<Rightarrow> x86_insn \<Rightarrow> u64 \<Rightarrow> u64 \<Rightarrow> x64_assembler \<Rightarrow> x64_assembler res" where
  "x64_reloc_insn m cursor insn curr_orig_ip curr_relo_ip s =
    (if 0x70 \<le> primary_opcode insn \<and> primary_opcode insn \<le> 0x7F then
       (let orig_offset = ucast (immediate insn) :: u8;
            new_offset = ucast (curr_orig_ip + scast orig_offset - curr_relo_ip) :: u32;
            opcode = 0x80 OR (primary_opcode insn AND 0x0f) in
        Inr (x64_Emit new_offset (Emit1 opcode (Emit1 0x0F s))))
     else if primary_opcode insn = 0xEB then
       (let orig_offset = ucast (immediate insn) :: u8;
            new_offset = ucast (curr_orig_ip + scast orig_offset - curr_relo_ip) :: u8 in
        Inr (x64_Emit (scast new_offset) (Emit1 0xE9 s)))
     else if insn_flags insn AND X86_INSN_DECODE_FLAG_IP_RELATIVE \<noteq> 0 \<and> opnd_base (operands insn ! 1) = RIP_enum then
       (let orig_disp = opnd_disp (operands insn ! 1);
            new_disp = ucast (curr_orig_ip + scast orig_disp - curr_relo_ip) :: u32;
            s = x64_Emit new_disp (x64_EmitBuffer (ld (unat (displacement_offset insn)) m cursor) s) in
        Inr (if immediate_offset insn \<noteq> 0
             then x64_EmitBuffer (ld (unat (insn_length insn - ucast (immediate_offset insn)))
                    m (cursor + ucast (immediate_offset insn))) s
             else s))
     else if primary_opcode insn = 0xE8 \<or> primary_opcode insn = 0xE9 then
       (let orig_offset = ucast (immediate insn) :: u32;
            offset = ucast (curr_orig_ip + scast orig_offset - curr_relo_ip) :: u32 in
        Inr (x64_Emit offset (x64_EmitBuffer (ld (unat (immediate_offset insn)) m cursor) s)))
     else if 0xE0 \<le> primary_opcode insn \<and> primary_opcode insn \<le> 0xE2 then Inl Unimplemented
     else if primary_opcode insn = 0xE3 then Inl Unimplemented
     else Inr (x64_EmitBuffer (ld (unat (insn_length insn)) m cursor) s))"

section \<open>The loop and the branch back\<close>

text \<open>
  \<open>i\<close> is the distance of the cursor from \<open>buffer\<close> and \<open>n\<close> the size of the original chunk. The loop
  ends because a decoded instruction has at least one byte.
\<close>

function x64_reloc_loop ::
  "(u64 \<Rightarrow> u8) \<Rightarrow> u64 \<Rightarrow> nat \<Rightarrow> nat \<Rightarrow> u64 \<Rightarrow> u64 \<Rightarrow> x64_assembler \<Rightarrow> (nat \<times> u64 \<times> x64_assembler) res" where
  "x64_reloc_loop m buffer i n curr_orig_ip relo_start s =
    (if i < n then
       bindr (x86_insn_decode zero_insn (ld 15 m (buffer + word_of_nat i)) 64) (\<lambda>insn.
       bindr (x64_reloc_insn m (buffer + word_of_nat i) insn curr_orig_ip (relo_start + word_of_int (ip_offset s)) s) (\<lambda>s.
       x64_reloc_loop m buffer (i + unat (insn_length insn)) n (curr_orig_ip + ucast (insn_length insn)) relo_start s))
     else Inr (i, curr_orig_ip, s))"
  by pat_completeness auto

lemma length_ld [simp]: "length (ld n m a) = n"
  by (simp add: ld_def)

termination x64_reloc_loop
  by (relation "measure (\<lambda>(m, buffer, i, n, curr_orig_ip, relo_start, s). n - i)")
    (use x86_insn_decode_length(1) length_ld in \<open>fastforce+\<close>)

declare x64_reloc_loop.simps [simp del]

text \<open>
  The result is the updated original chunk and the code to be written at the start of the relocated
  chunk, or no code when that chunk is too small.
\<close>

definition x64_GenRelocateCodeFixed ::
  "(u64 \<Rightarrow> u8) \<Rightarrow> u64 \<Rightarrow> MemoryChunk \<Rightarrow> MemoryChunk \<Rightarrow> (MemoryChunk \<times> bytes option) res" where
  "x64_GenRelocateCodeFixed m buffer origin relocated =
    (let s = (x64_TurboAssembler 0)\<lparr>x64_realized_address := raw_instruction_start relocated\<rparr>;
         predefined_relocate_size = sint (ucast (raw_instruction_size origin) :: u32) in
     bindr (x64_reloc_loop m buffer 0 (nat predefined_relocate_size) (raw_instruction_start origin) (raw_instruction_start relocated) s)
       (\<lambda>(i, curr_orig_ip, s).
        let stub_addr = raw_instruction_start relocated + word_of_int (ip_offset s) + 6;
            s = x64_EmitInt64 curr_orig_ip (JmpNearIndirect stub_addr s);
            new_origin_len = sint (ucast (curr_orig_ip - raw_instruction_start origin) :: u32);
            origin = re_init_region_range (raw_instruction_start origin) new_origin_len;
            relo_len = length (x64_buf s) in
        Inr (origin, if word_of_nat relo_len > raw_instruction_size relocated then None else Some (x64_buf s))))"

text \<open>
  \<^verbatim>\<open>GenRelocateCodeAndBranch\<close> from the label \<^verbatim>\<open>x64_try_again\<close> on; \<open>relo_sz\<close> is
  \<^verbatim>\<open>relo_code_chunk_size\<close>. \<open>None\<close> is a run that does not end.
\<close>

partial_function (option) x64_try_again ::
  "'os os_api \<Rightarrow> (u64 \<Rightarrow> u8) \<Rightarrow> u64 \<Rightarrow> int \<Rightarrow> MemoryChunk \<Rightarrow> MemoryChunk \<Rightarrow> 'os arena \<Rightarrow>
     (MemoryChunk \<times> MemoryChunk \<times> bytes option \<times> 'os arena) res option" where
  "x64_try_again api m buffer relo_sz origin relocated s =
    (let (cchunk, relocated', s') =
       (if raw_instruction_start relocated = 0
        then (case AllocateCodeChunk api relo_sz s of (c, s') \<Rightarrow>
               (c, map_option (\<lambda>c. re_init_region_range (ck_address c) (sint (ucast (ck_length c) :: u32))) c, s'))
        else (None, Some relocated, s)) in
     case relocated' of
       None \<Rightarrow> Some (Inr (origin, relocated, None, s'))
     | Some relocated' \<Rightarrow>
         (case x64_GenRelocateCodeFixed m buffer origin relocated' of
            Inl e \<Rightarrow> Some (Inl e)
          | Inr (origin', code) \<Rightarrow>
              (case code of
                 Some bs \<Rightarrow> Some (Inr (origin', relocated', Some bs, s'))
               | None \<Rightarrow> x64_try_again api m buffer (relo_sz + 16) origin' (re_init_region_range 0 0) (Destroy cchunk s'))))"

definition x64_GenRelocateCodeAndBranch ::
  "'os os_api \<Rightarrow> (u64 \<Rightarrow> u8) \<Rightarrow> u64 \<Rightarrow> MemoryChunk \<Rightarrow> MemoryChunk \<Rightarrow> 'os arena \<Rightarrow>
     (MemoryChunk \<times> MemoryChunk \<times> bytes option \<times> 'os arena) res option" where
  "x64_GenRelocateCodeAndBranch api m buffer origin relocated s = x64_try_again api m buffer 32 origin relocated s"


section \<open>The bytes of one relocated instruction\<close>

definition x64_reloc_bytes :: "(u64 \<Rightarrow> u8) \<Rightarrow> u64 \<Rightarrow> x86_insn \<Rightarrow> u64 \<Rightarrow> u64 \<Rightarrow> bytes res" where
  "x64_reloc_bytes m cursor insn ip relo_ip =
    (if 0x70 \<le> primary_opcode insn \<and> primary_opcode insn \<le> 0x7F then
       Inr ([0x0F, 0x80 OR (primary_opcode insn AND 0x0f)] @ le_bytes 4 (ucast (ip + scast (ucast (immediate insn) :: u8) - relo_ip) :: u32))
     else if primary_opcode insn = 0xEB then
       Inr ([0xE9] @ le_bytes 4 (scast (ucast (ip + scast (ucast (immediate insn) :: u8) - relo_ip) :: u8) :: u32))
     else if insn_flags insn AND X86_INSN_DECODE_FLAG_IP_RELATIVE \<noteq> 0 \<and> opnd_base (operands insn ! 1) = RIP_enum then
       Inr (ld (unat (displacement_offset insn)) m cursor @ le_bytes 4 (ucast (ip + scast (opnd_disp (operands insn ! 1)) - relo_ip) :: u32) @
            (if immediate_offset insn \<noteq> 0
             then ld (unat (insn_length insn - ucast (immediate_offset insn))) m (cursor + ucast (immediate_offset insn)) else []))
     else if primary_opcode insn = 0xE8 \<or> primary_opcode insn = 0xE9 then
       Inr (ld (unat (immediate_offset insn)) m cursor @ le_bytes 4 (ucast (ip + scast (ucast (immediate insn) :: u32) - relo_ip) :: u32))
     else if 0xE0 \<le> primary_opcode insn \<and> primary_opcode insn \<le> 0xE3 then Inl Unimplemented
     else Inr (ld (unat (insn_length insn)) m cursor))"

lemma u8_E2_E3: "(c :: u8) \<le> 0xE3 \<longleftrightarrow> c \<le> 0xE2 \<or> c = 0xE3"
  by (auto simp: word_le_nat_alt word_eq_iff_unsigned [where 'a = nat])

lemma x64_reloc_insn_bytes:
  "x64_reloc_insn m cursor insn ip relo_ip s = bindr (x64_reloc_bytes m cursor insn ip relo_ip) (\<lambda>bs. Inr (x64_EmitBuffer bs s))"
  by (simp add: x64_reloc_insn_def x64_reloc_bytes_def Let_def emit_defs u8_E2_E3)

lemma x64_reloc_bytes_length:
  "map_sum id length (x64_reloc_bytes m cursor insn ip relo_ip) = map_sum id length (x64_reloc_bytes m cursor insn ip' relo_ip')"
  by (simp add: x64_reloc_bytes_def)

text \<open>Displacement arithmetic: moving the instruction by the same amount as the displacement keeps the target.\<close>

lemma relocated_target:
  assumes "- (2 ^ 31) \<le> sint (ip + d - relo_ip)" "sint (ip + d - relo_ip) < 2 ^ 31"
  shows "relo_ip + n + scast (ucast (ip + d - relo_ip :: u64) :: u32) = ip + n + d"
  by (simp add: scast_ucast_32 [OF assms])

text \<open>The decoded instruction, read from memory.\<close>

lemma decode_at:
  assumes "decodable ps rx two b rest" "ld 15 m cursor = ps @ rx @ opcode_bytes two b @ rest" "encoding_length ps rx two b rest \<le> 15"
  obtains insn where "x86_insn_decode zero_insn (ld 15 m cursor) 64 = Inr insn" "decodes_to ps rx two b rest (ld 15 m cursor) insn"
    "unat (insn_length insn) = encoding_length ps rx two b rest" "primary_opcode insn = b"
  using decodable_decodes [OF assms(1,2) length_ld assms(3)] assms(3) by (auto simp: decodes_to_def unat_of_nat)

lemma ld_part: "j + k \<le> n \<Longrightarrow> ld k m (a + word_of_nat j) = take k (drop j (ld n m a))"
proof -
  assume "j + k \<le> n"
  then obtain r where "n = j + (k + r)" by (metis le_Suc_ex add.assoc)
  then show ?thesis
    using ld_add [of j "k + r" m a] ld_add [of k r m "a + word_of_nat j"] by simp
qed

lemma ld_take: "k \<le> n \<Longrightarrow> ld k m a = take k (ld n m a)"
  using ld_part [of 0 k n m a] by simp

lemma le_word_ucast: "(le_word (le_bytes 4 (d :: u32)) :: u64) = ucast d"
proof -
  have "ucast (le_word (le_bytes 4 d) :: u32) = (le_word (le_bytes 4 d) :: u64)"
    by (rule ucast_le_word) simp
  then show ?thesis by (simp add: bytes)
qed

text \<open>A relative branch with a 32-bit offset.\<close>

lemma near_branch_decodes:
  assumes "loaded m cursor (op # le_bytes 4 (d :: u32))" "op \<in> {0xe8, 0xe9}"
  obtains insn where "x86_insn_decode zero_insn (ld 15 m cursor) 64 = Inr insn" "insn_length insn = 5" "primary_opcode insn = op"
    "immediate_offset insn = 1" "insn_flags insn AND X86_INSN_DECODE_FLAG_IP_RELATIVE = 0" "ucast (immediate insn) = d"
proof -
  define rest where "rest = le_bytes 4 d @ ld 10 m (cursor + 5)"
  have code: "ld 15 m cursor = [] @ [] @ opcode_bytes False op @ rest"
    using ld_loaded_prefix [OF assms(1), of 15] by (simp add: opcode_bytes_def rest_def)
  have facts: "covered False 0xe8" "covered False 0xe9" "imm_opcode False 0xe8 = ImmZ" "imm_opcode False 0xe9 = ImmZ"
    "\<not> modrm_opcode False 0xe8" "\<not> modrm_opcode False 0xe9"
    by code_simp+
  have op: "covered False (uint op)" "imm_opcode False (uint op) = ImmZ" "\<not> modrm_opcode False (uint op)"
    using assms(2) facts by auto
  have "decodable [] [] False op rest"
    using op by (simp add: decodable_def rex_ok_def)
  moreover have len: "encoding_length [] [] False op rest = 5" "head_length [] [] False = 1" "form_length False op rest = 0"
      "immediate_length [] [] False op = 4"
    using op by (simp_all add: encoding_length_def head_length_def form_length_def immediate_length_def imm_length_def rex_of_def)
  ultimately obtain insn where insn: "x86_insn_decode zero_insn (ld 15 m cursor) 64 = Inr insn"
    "decodes_to [] [] False op rest (ld 15 m cursor) insn" "primary_opcode insn = op"
    using decode_at [OF _ code] by auto
  have "le_word (take 4 (drop 1 (ld 15 m cursor))) = (ucast d :: u64)"
    using code by (simp add: opcode_bytes_def rest_def le_word_ucast)
  then have "ucast (immediate insn) = d"
    using insn(2) len op by (simp add: decodes_to_def ucast_back_32)
  then show thesis
    using that [OF insn(1)] insn op len by (simp add: decodes_to_def)
qed

lemma near_branch_relocated:
  assumes "loaded m cursor (op # le_bytes 4 (d :: u32))" "op \<in> {0xe8, 0xe9}"
    and "- (2 ^ 31) \<le> sint (ip + scast d - relo_ip)" "sint (ip + scast d - relo_ip) < 2 ^ 31"
  shows "\<exists>insn bs. x86_insn_decode zero_insn (ld 15 m cursor) 64 = Inr insn \<and> insn_length insn = 5 \<and>
    x64_reloc_insn m cursor insn ip relo_ip s = Inr (x64_EmitBuffer bs s) \<and> length bs = 5 \<and>
    (\<forall>M. loaded (xmem M) relo_ip bs \<and> rip M = relo_ip \<longrightarrow>
       x64_step M = Some ((if op = 0xe8 then x64_push_value (relo_ip + 5) M else M)\<lparr>rip := ip + 5 + scast d\<rparr>))"
proof -
  obtain insn where insn: "x86_insn_decode zero_insn (ld 15 m cursor) 64 = Inr insn" "insn_length insn = 5"
    "primary_opcode insn = op" "immediate_offset insn = 1" "insn_flags insn AND X86_INSN_DECODE_FLAG_IP_RELATIVE = 0"
    "ucast (immediate insn) = d"
    using near_branch_decodes [OF assms(1,2)] by blast
  let ?d' = "ucast (ip + scast d - relo_ip) :: u32"
  let ?bs = "op # le_bytes 4 ?d'"
  have "ld 1 m cursor = [op]"
    using assms(1) [unfolded loaded_def, rule_format, of 0] by (simp add: ld_def)
  then have "x64_reloc_bytes m cursor insn ip relo_ip = Inr ?bs"
    using insn assms(2) by (auto simp: x64_reloc_bytes_def)
  then have emit: "x64_reloc_insn m cursor insn ip relo_ip s = Inr (x64_EmitBuffer ?bs s)"
    by (simp add: x64_reloc_insn_bytes)
  have dec: "x64_decode (?bs @ rest) = Some (if op = 0xe8 then X_call (scast ?d') else X_jmp (scast ?d'), 5)" for rest
    using assms(2) disp32_value [of ?d' rest] by (auto simp: x64_decode_def rex_split_def x64_opcode_def)
  have "x64_step M = Some ((if op = 0xe8 then x64_push_value (relo_ip + 5) M else M)\<lparr>rip := ip + 5 + scast d\<rparr>)"
    if "loaded (xmem M) relo_ip ?bs" "rip M = relo_ip" for M
    using x64_step_bytes [of M ?bs, OF _ _ dec] that relocated_target [OF assms(3,4), of 5] by (simp add: ac_simps)
  then show ?thesis
    using insn(1,2) emit by (intro exI [of _ insn] exI [of _ ?bs]) simp
qed

text \<open>An operand relative to the instruction pointer.\<close>

lemma ip_relative_relocated:
  assumes ok: "decodable ps rx two b rest" and code: "ld 15 m cursor = ps @ rx @ opcode_bytes two b @ rest"
    and fits: "encoding_length ps rx two b rest \<le> 15"
    and form: "modrm_opcode two (uint b)" "ip_form (rest ! 0)" and b: "\<not> (0x70 \<le> b \<and> b \<le> 0x7f)" "b \<noteq> 0xeb"
  defines "h \<equiv> head_length ps rx two" and "d \<equiv> le_word (take 4 (drop 1 rest)) :: u32"
  shows "\<exists>insn. x86_insn_decode zero_insn (ld 15 m cursor) 64 = Inr insn \<and>
    unat (insn_length insn) = encoding_length ps rx two b rest \<and>
    x64_reloc_bytes m cursor insn ip relo_ip =
      Inr (take (h + 1) (ld 15 m cursor) @ le_bytes 4 (ucast (ip + scast d - relo_ip) :: u32) @
           take (immediate_length ps rx two b) (drop (h + 5) (ld 15 m cursor)))"
proof -
  obtain insn where insn: "x86_insn_decode zero_insn (ld 15 m cursor) 64 = Inr insn"
    "decodes_to ps rx two b rest (ld 15 m cursor) insn" "unat (insn_length insn) = encoding_length ps rx two b rest" "primary_opcode insn = b"
    using decode_at [OF ok code fits] by blast
  let ?k = "immediate_length ps rx two b"
  have form5: "form_length two b rest = 5"
    using form by (simp add: form_length_def modrm_form_length_def ip_form_def)
  then have len: "encoding_length ps rx two b rest = h + 5 + ?k" "h + 5 + ?k \<le> 15"
    using fits by (simp_all add: encoding_length_def h_def)
  have hd: "drop (h + 1) (ld 15 m cursor) = drop 1 rest"
    unfolding code h_def head_length_def by (simp add: opcode_bytes_def)
  have ip: "insn_flags insn = X86_INSN_DECODE_FLAG_IP_RELATIVE" "displacement_offset insn = word_of_nat (h + 1)"
    "opnd_base (operands insn ! 1) = RIP_enum" "opnd_disp (operands insn ! 1) = d"
    using insn(2) form hd by (simp_all add: decodes_to_def h_def [symmetric] d_def)
  have disp: "unat (displacement_offset insn) = h + 1"
    unfolding ip(2) using len(2) by (simp add: unat_of_nat del: of_nat_add of_nat_Suc)
  have flag: "X86_INSN_DECODE_FLAG_IP_RELATIVE AND X86_INSN_DECODE_FLAG_IP_RELATIVE \<noteq> 0"
    by (simp add: X86_INSN_DECODE_FLAG_IP_RELATIVE_def)
  have imm: "(if immediate_offset insn \<noteq> 0
      then ld (unat (insn_length insn - ucast (immediate_offset insn))) m (cursor + ucast (immediate_offset insn)) else []) =
      take ?k (drop (h + 5) (ld 15 m cursor))"
  proof (cases "imm_opcode two (uint b) = NoImm")
    case True
    then show ?thesis
      using insn(2) by (simp add: decodes_to_def immediate_length_def imm_length_def)
  next
    case False
    then have off: "immediate_offset insn = word_of_nat (h + 5)"
      using insn(2) form5 by (simp add: decodes_to_def h_def)
    then have "unat (immediate_offset insn) = h + 5"
      using len(2) by (simp add: unat_of_nat del: of_nat_add of_nat_Suc)
    moreover have "immediate_offset insn \<noteq> 0"
      using calculation by auto
    moreover have "(ucast (immediate_offset insn) :: u64) = word_of_nat (h + 5)" "(ucast (immediate_offset insn) :: u32) = word_of_nat (h + 5)"
      unfolding off using len(2) by (simp_all add: unsigned_of_nat take_bit_nat_eq_self del: of_nat_add of_nat_Suc)
    moreover have "unat (insn_length insn - word_of_nat (h + 5)) = ?k"
      using insn(3) len by (subst unat_sub) (auto simp: word_le_nat_alt unat_of_nat simp del: of_nat_add of_nat_Suc)
    ultimately show ?thesis
      using ld_part [of "h + 5" ?k 15 m cursor] len(2) by (simp del: of_nat_add of_nat_Suc)
  qed
  have "x64_reloc_bytes m cursor insn ip relo_ip =
      Inr (ld (h + 1) m cursor @ le_bytes 4 (ucast (ip + scast d - relo_ip) :: u32) @ take ?k (drop (h + 5) (ld 15 m cursor)))"
    unfolding x64_reloc_bytes_def imm disp insn(4) ip(1,3,4) by (simp only: b if_False flag simp_thms if_True)
  then show ?thesis
    using insn(1,3) ld_take [of "h + 1" 15 m cursor] len(2) by (intro exI [of _ insn]) (simp del: One_nat_def add_Suc_right)
qed

text \<open>The opcodes the routine rewrites whatever their operands.\<close>

definition x64_rewritten :: "u8 \<Rightarrow> bool" where
  "x64_rewritten b \<longleftrightarrow> 0x70 \<le> b \<and> b \<le> 0x7f \<or> b = 0xeb \<or> b = 0xe8 \<or> b = 0xe9 \<or> 0xe0 \<le> b \<and> b \<le> 0xe3"

lemma copied:
  assumes ok: "decodable ps rx two b rest" and code: "ld 15 m cursor = ps @ rx @ opcode_bytes two b @ rest"
    and fits: "encoding_length ps rx two b rest \<le> 15"
    and "\<not> (modrm_opcode two (uint b) \<and> ip_form (rest ! 0))" "\<not> x64_rewritten b"
  shows "\<exists>insn. x86_insn_decode zero_insn (ld 15 m cursor) 64 = Inr insn \<and>
    unat (insn_length insn) = encoding_length ps rx two b rest \<and>
    x64_reloc_bytes m cursor insn ip relo_ip = Inr (take (encoding_length ps rx two b rest) (ld 15 m cursor))"
proof -
  obtain insn where insn: "x86_insn_decode zero_insn (ld 15 m cursor) 64 = Inr insn"
    "decodes_to ps rx two b rest (ld 15 m cursor) insn" "unat (insn_length insn) = encoding_length ps rx two b rest" "primary_opcode insn = b"
    using decode_at [OF ok code fits] by blast
  have "insn_flags insn AND X86_INSN_DECODE_FLAG_IP_RELATIVE = 0"
    using insn(2) assms(4) unfolding decodes_to_def by (meson)
  then have "x64_reloc_bytes m cursor insn ip relo_ip = Inr (ld (unat (insn_length insn)) m cursor)"
    using assms(5) insn(4) by (auto simp: x64_reloc_bytes_def x64_rewritten_def)
  then show ?thesis
    using insn ld_take [OF fits] by auto
qed

text \<open>A relative branch with an 8-bit offset.\<close>

definition short_branch :: "u8 \<Rightarrow> bool" where
  "short_branch op \<longleftrightarrow> 0x70 \<le> op \<and> op \<le> 0x7f \<or> op = 0xeb"

lemma short_branch_tables:
  assumes "short_branch op"
  shows "covered False (uint op) \<and> imm_opcode False (uint op) = Imm8 \<and> \<not> modrm_opcode False (uint op)"
proof -
  have "uint op \<in> {0x70..0x7f} \<or> uint op = 0xeb"
    using assms by (auto simp: short_branch_def word_le_def)
  then have "uint op \<in> set (0xeb # [0x70..0x7f])"
    unfolding set_simps set_upto by blast
  moreover have "list_all (\<lambda>k. covered False k \<and> imm_opcode False k = Imm8 \<and> \<not> modrm_opcode False k) (0xeb # [0x70..0x7f])"
    by code_simp
  ultimately show ?thesis unfolding list_all_iff by blast
qed

lemma short_branch_decodes:
  assumes "loaded m cursor [op, d]" "short_branch op"
  obtains insn where "x86_insn_decode zero_insn (ld 15 m cursor) 64 = Inr insn" "insn_length insn = 2" "primary_opcode insn = op"
    "ucast (immediate insn) = d"
proof -
  define rest where "rest = d # ld 13 m (cursor + 2)"
  have code: "ld 15 m cursor = [] @ [] @ opcode_bytes False op @ rest"
    using ld_loaded_prefix [OF assms(1), of 15] by (simp add: opcode_bytes_def rest_def)
  note op = short_branch_tables [OF assms(2)]
  have "decodable [] [] False op rest"
    using op by (simp add: decodable_def rex_ok_def)
  moreover have len: "encoding_length [] [] False op rest = 2" "head_length [] [] False = 1" "form_length False op rest = 0"
      "immediate_length [] [] False op = 1"
    using op by (simp_all add: encoding_length_def head_length_def form_length_def immediate_length_def imm_length_def rex_of_def)
  ultimately obtain insn where insn: "x86_insn_decode zero_insn (ld 15 m cursor) 64 = Inr insn"
    "decodes_to [] [] False op rest (ld 15 m cursor) insn" "primary_opcode insn = op"
    using decode_at [OF _ code] by auto
  have "le_word (take 1 (drop 1 (ld 15 m cursor))) = (ucast d :: u64)"
    using code by (simp add: opcode_bytes_def rest_def)
  moreover have "(ucast (ucast d :: u64) :: u8) = d"
    by (rule bit_word_eqI) (simp add: bit_simps)
  ultimately have "ucast (immediate insn) = d"
    using insn(2) len op by (simp add: decodes_to_def)
  then show thesis
    using that [OF insn(1)] insn op len by (simp add: decodes_to_def)
qed

lemma jcc_relocated:
  assumes "loaded m cursor [op, d]" "0x70 \<le> op" "op \<le> 0x7f"
    and "- (2 ^ 31) \<le> sint (ip + scast d - relo_ip)" "sint (ip + scast d - relo_ip) < 2 ^ 31"
  shows "\<exists>insn bs. x86_insn_decode zero_insn (ld 15 m cursor) 64 = Inr insn \<and> insn_length insn = 2 \<and>
    x64_reloc_insn m cursor insn ip relo_ip s = Inr (x64_EmitBuffer bs s) \<and> length bs = 6 \<and>
    (\<forall>M. loaded (xmem M) relo_ip bs \<and> rip M = relo_ip \<longrightarrow>
       x64_step M = Some (M\<lparr>rip := if xcond M (op AND 0xf) then ip + 2 + scast d + 4 else relo_ip + 6\<rparr>))"
proof -
  obtain insn where insn: "x86_insn_decode zero_insn (ld 15 m cursor) 64 = Inr insn" "insn_length insn = 2" "primary_opcode insn = op"
    "ucast (immediate insn) = d"
    using short_branch_decodes [OF assms(1)] assms(2,3) by (auto simp: short_branch_def)
  let ?d' = "ucast (ip + scast d - relo_ip) :: u32"
  let ?bs = "[0x0F, 0x80 OR (op AND 0x0f)] @ le_bytes 4 ?d'"
  have emit: "x64_reloc_insn m cursor insn ip relo_ip s = Inr (x64_EmitBuffer ?bs s)"
    using insn assms(2,3) by (simp add: x64_reloc_insn_bytes x64_reloc_bytes_def)
  have low: "(0x80 OR (op AND 0x0f)) AND 0xf = op AND 0xf" "0x80 \<le> 0x80 OR (op AND 0x0f)" "0x80 OR (op AND 0x0f) \<le> 0x8f"
  proof -
    have "op AND 0xf < 16"
      using word_and_le1 [of op "0xf"] by (simp add: word_le_nat_alt word_less_nat_alt)
    from below_16_cases [OF this]
    have "0x80 \<le> 0x80 OR (op AND 0x0f) \<and> 0x80 OR (op AND 0x0f) \<le> 0x8f \<and> (0x80 OR (op AND 0x0f)) AND 0xf = op AND 0xf"
      by (elim insertE emptyE) simp_all
    then show "(0x80 OR (op AND 0x0f)) AND 0xf = op AND 0xf" "0x80 \<le> 0x80 OR (op AND 0x0f)" "0x80 OR (op AND 0x0f) \<le> 0x8f"
      by blast+
  qed
  have dec: "x64_decode (?bs @ rest) = Some (X_jcc (op AND 0xf) (scast ?d'), 6)" for rest
    using disp32_value [of ?d' rest] low by (simp add: x64_decode_def rex_split_def x64_opcode_def)
  have "x64_step M = Some (M\<lparr>rip := if xcond M (op AND 0xf) then ip + 2 + scast d + 4 else relo_ip + 6\<rparr>)"
    if "loaded (xmem M) relo_ip ?bs" "rip M = relo_ip" for M
    using x64_step_bytes [of M ?bs, OF _ _ dec] that relocated_target [OF assms(4,5), of 6] by (simp add: ac_simps)
  then show ?thesis
    using insn(1,2) emit by (intro exI [of _ insn] exI [of _ ?bs]) simp
qed

text \<open>The original branches, executed where they are.\<close>

lemma jcc_exec:
  assumes "0x70 \<le> op" "op \<le> 0x7f" "loaded (xmem M) (rip M) [op, d]"
  shows "x64_step M = Some (M\<lparr>rip := if xcond M (op AND 0xf) then rip M + 2 + scast d else rip M + 2\<rparr>)"
proof -
  have "op \<noteq> 0x90" "op \<noteq> 0xc3" "\<not> op \<le> 0x57" "\<not> op \<le> 0x5f" "\<not> op \<le> 0x4f"
    using assms(1,2) by (auto simp: word_le_nat_alt)
  then have "x64_decode ([op, d] @ rest) = Some (X_jcc (op AND 0xf) (scast d), 2)" for rest
    using assms(1,2) by (simp add: x64_decode_def rex_split_def x64_opcode_def split: prod.splits)
  from x64_step_bytes [OF assms(3) _ this] show ?thesis
    by (simp add: ac_simps)
qed

lemma jcc32_exec:
  assumes "0x80 \<le> op" "op \<le> 0x8f" "loaded (xmem M) (rip M) ([0x0f, op] @ le_bytes 4 (d :: u32))"
  shows "x64_step M = Some (M\<lparr>rip := if xcond M (op AND 0xf) then rip M + 6 + scast d else rip M + 6\<rparr>)"
proof -
  have "x64_decode (([0x0f, op] @ le_bytes 4 d) @ rest) = Some (X_jcc (op AND 0xf) (scast d), 6)" for rest
    using assms(1,2) disp32_value [of d rest] by (simp add: x64_decode_def rex_split_def x64_opcode_def)
  from x64_step_bytes [OF assms(3) _ this] show ?thesis
    by (simp add: ac_simps)
qed

lemma jmp8_relocated:
  assumes "loaded m cursor [0xeb, d]"
  shows "\<exists>insn bs e. x86_insn_decode zero_insn (ld 15 m cursor) 64 = Inr insn \<and> insn_length insn = 2 \<and>
    x64_reloc_insn m cursor insn ip relo_ip s = Inr (x64_EmitBuffer bs s) \<and> length bs = 5 \<and>
    e = sint (ucast (ip + scast d - relo_ip) :: u8) \<and>
    (\<forall>M. loaded (xmem M) relo_ip bs \<and> rip M = relo_ip \<longrightarrow> x64_step M = Some (M\<lparr>rip := relo_ip + 5 + word_of_int e\<rparr>))"
proof -
  obtain insn where insn: "x86_insn_decode zero_insn (ld 15 m cursor) 64 = Inr insn" "insn_length insn = 2" "primary_opcode insn = 0xeb"
    "ucast (immediate insn) = d"
    using short_branch_decodes [OF assms] by (auto simp: short_branch_def)
  let ?e = "ucast (ip + scast d - relo_ip) :: u8"
  let ?bs = "[0xE9] @ le_bytes 4 (scast ?e :: u32)"
  have emit: "x64_reloc_insn m cursor insn ip relo_ip s = Inr (x64_EmitBuffer ?bs s)"
    using insn by (simp add: x64_reloc_insn_bytes x64_reloc_bytes_def)
  have up: "(scast (scast ?e :: u32) :: u64) = scast ?e"
    by (rule bit_word_eqI) (auto simp: bit_simps min_def)
  have dec: "x64_decode (?bs @ rest) = Some (X_jmp (scast ?e), 5)" for rest
    using disp32_value [of "scast ?e" rest] up by (simp add: x64_decode_def rex_split_def x64_opcode_def)
  have "x64_step M = Some (M\<lparr>rip := relo_ip + 5 + word_of_int (sint ?e)\<rparr>)" if "loaded (xmem M) relo_ip ?bs" "rip M = relo_ip" for M
    using x64_step_bytes [of M ?bs, OF _ _ dec] that by (simp add: ac_simps)
  then show ?thesis
    using insn(1,2) emit by (intro exI [of _ insn] exI [of _ ?bs] exI [of _ "sint ?e"]) simp
qed

section \<open>The whole chunk\<close>

lemma x64_EmitBuffer_buf [simp]: "x64_buf (x64_EmitBuffer bs s) = x64_buf s @ bs"
  "x64_realized_address (x64_EmitBuffer bs s) = x64_realized_address s"
  by (simp_all add: x64_EmitBuffer_def)

lemma x64_reloc_loop_result:
  assumes "x64_reloc_loop m buffer i n ip r s = Inr (i', ip', s')"
  shows "i \<le> i' \<and> n \<le> i' \<and> (i' = i \<or> i' < n + 20) \<and> ip' = ip + word_of_nat (i' - i) \<and>
    x64_realized_address s' = x64_realized_address s"
  using assms
proof (induction m buffer i n ip r s rule: x64_reloc_loop.induct)
  case (1 m buffer i n ip r s)
  show ?case
  proof (cases "i < n")
    case False
    then show ?thesis using "1.prems" by (subst (asm) x64_reloc_loop.simps) auto
  next
    case True
    with "1.prems" obtain insn s1 where step: "x86_insn_decode zero_insn (ld 15 m (buffer + word_of_nat i)) 64 = Inr insn"
      "x64_reloc_insn m (buffer + word_of_nat i) insn ip (r + word_of_int (ip_offset s)) s = Inr s1"
      "x64_reloc_loop m buffer (i + unat (insn_length insn)) n (ip + ucast (insn_length insn)) r s1 = Inr (i', ip', s')"
      by (subst (asm) x64_reloc_loop.simps) (auto simp: bindr_Inr_iff)
    note IH = "1.IH" [OF True step(1,2,3)]
    note len = x86_insn_decode_length [OF step(1) length_ld]
    have "x64_realized_address s1 = x64_realized_address s"
      using step(2) by (auto simp: x64_reloc_insn_bytes bindr_Inr_iff)
    moreover have "(ucast (insn_length insn) :: u64) + word_of_nat (i' - (i + unat (insn_length insn))) = word_of_nat (i' - i)"
    proof -
      have "i' - i = unat (insn_length insn) + (i' - (i + unat (insn_length insn)))" using IH by simp
      moreover have "(ucast (insn_length insn) :: u64) = word_of_nat (unat (insn_length insn))" by simp
      ultimately show ?thesis by (metis of_nat_add)
    qed
    ultimately show ?thesis
      using IH len True by (auto simp: add.assoc)
  qed
qed

lemma sint_small_32: "n < 2 ^ 31 \<Longrightarrow> sint (ucast (word_of_nat n :: u64) :: u32) = int n"
proof -
  assume n: "n < 2 ^ 31"
  have "(ucast (word_of_nat n :: u64) :: u32) = word_of_nat n"
    by (rule bit_word_eqI) (auto simp: bit_simps)
  then show ?thesis
    using n by (simp add: signed_of_nat signed_take_bit_int_eq_self)
qed

lemma sint_size_32: "unat w < 2 ^ 31 \<Longrightarrow> sint (ucast (w :: u64) :: u32) = int (unat w)"
  using sint_small_32 [of "unat w"] by simp

text \<open>The routine in terms of its loop: \<open>n\<close> is the size of the original chunk.\<close>

definition fixed_loop :: "(u64 \<Rightarrow> u8) \<Rightarrow> u64 \<Rightarrow> u64 \<Rightarrow> nat \<Rightarrow> u64 \<Rightarrow> (nat \<times> u64 \<times> x64_assembler) res" where
  "fixed_loop m buffer start n r = x64_reloc_loop m buffer 0 n start r ((x64_TurboAssembler 0)\<lparr>x64_realized_address := r\<rparr>)"

lemma fixed_cases:
  assumes "unat (ck_length origin) < 2 ^ 31 - 20"
  shows "x64_GenRelocateCodeFixed m buffer origin relocated =
    bindr (fixed_loop m buffer (ck_address origin) (unat (ck_length origin)) (ck_address relocated)) (\<lambda>(i, ip, s).
      let code = x64_buf s @ [0xff, 0x25, 0, 0, 0, 0] @ le_bytes 8 ip in
      Inr (\<lparr>ck_address = ck_address origin, ck_length = word_of_nat i\<rparr>,
           if word_of_nat (length code) > ck_length relocated then None else Some code))"
proof -
  let ?r = "ck_address relocated" and ?n = "unat (ck_length origin)"
  have n: "nat (sint (ucast (ck_length origin) :: u32)) = ?n"
    using sint_size_32 [of "ck_length origin"] assms by simp
  have body: "(let stub_addr = ?r + word_of_int (ip_offset s) + 6;
        s = x64_EmitInt64 ip (JmpNearIndirect stub_addr s);
        new_origin_len = sint (ucast (ip - ck_address origin) :: u32);
        origin = re_init_region_range (ck_address origin) new_origin_len;
        relo_len = length (x64_buf s) in
      Inr (origin, if word_of_nat relo_len > ck_length relocated then None else Some (x64_buf s))) =
      (let code = x64_buf s @ [0xff, 0x25, 0, 0, 0, 0] @ le_bytes 8 ip in
      Inr (\<lparr>ck_address = ck_address origin, ck_length = word_of_nat i\<rparr>,
           if word_of_nat (length code) > ck_length relocated then None else Some code))"
    if "fixed_loop m buffer (ck_address origin) ?n ?r = Inr (i, ip, s)" for i ip s
  proof -
    have loop: "?n \<le> i" "i < ?n + 20 \<or> i = 0" "ip = ck_address origin + word_of_nat i" "x64_realized_address s = ?r"
      using x64_reloc_loop_result [OF that [unfolded fixed_loop_def]] by auto
    have "x64_buf (x64_EmitInt64 ip (JmpNearIndirect (?r + word_of_int (ip_offset s) + 6) s)) =
        x64_buf s @ [0xff, 0x25, 0, 0, 0, 0] @ le_bytes 8 ip"
    proof -
      have "le_bytes 4 (0 :: u32) = [0, 0, 0, 0]" by code_simp
      then show ?thesis
        using loop(4) by (simp add: x64_EmitInt64_def JmpNearIndirect_bytes CurrentIP_def)
    qed
    moreover have "sint (ucast (ip - ck_address origin) :: u32) = int i"
      using loop(2,3) assms sint_small_32 [of i] by auto
    ultimately show ?thesis
      by (simp add: Let_def re_init_region_range_def init_region_range_def)
  qed
  show ?thesis
    unfolding x64_GenRelocateCodeFixed_def raw_instruction_start_def raw_instruction_size_def Let_def [where s = "sint _"] n
      Let_def [where s = "x64_assembler.x64_realized_address_update _ _"]
    using body unfolding fixed_loop_def [symmetric] by (intro bindr_cong refl) (auto split: prod.splits)
qed

lemma jump_back_step:
  assumes "loaded (xmem M) (rip M) ([0xff, 0x25, 0, 0, 0, 0] @ le_bytes 8 (t :: u64))"
  shows "x64_step M = Some (M\<lparr>rip := t\<rparr>)"
proof -
  have z: "[0xff, 0x25] @ le_bytes 4 (0 :: u32) = [0xff, 0x25, 0, 0, 0, 0]" by code_simp
  have "loaded (xmem M) (rip M) [0xff, 0x25, 0, 0, 0, 0]" "loaded (xmem M) (rip M + word_of_nat 6) (le_bytes 8 t)"
    using assms loaded_append [of "xmem M" "rip M" "[0xff, 0x25, 0, 0, 0, 0]" "le_bytes 8 t"] by simp_all
  then show ?thesis
    using jmp_indirect_step [of M "rip M + 6" t] z by simp
qed

lemma fixed_returns:
  assumes "x64_GenRelocateCodeFixed m buffer origin relocated = Inr (origin', Some code)" "unat (ck_length origin) < 2 ^ 31 - 20"
  shows "14 \<le> length code \<and> ck_address origin' = ck_address origin \<and>
    unat (ck_length origin) \<le> unat (ck_length origin') \<and> unat (ck_length origin') < unat (ck_length origin) + 20 \<and>
    (\<forall>M. loaded (xmem M) (ck_address relocated) code \<and> rip M = ck_address relocated + word_of_nat (length code - 14) \<longrightarrow>
       x64_step M = Some (M\<lparr>rip := ck_address origin + ck_length origin'\<rparr>))"
proof -
  obtain i ip s where s: "fixed_loop m buffer (ck_address origin) (unat (ck_length origin)) (ck_address relocated) = Inr (i, ip, s)"
    "origin' = \<lparr>ck_address = ck_address origin, ck_length = word_of_nat i\<rparr>"
    "code = x64_buf s @ [0xff, 0x25, 0, 0, 0, 0] @ le_bytes 8 ip"
    using assms(1) unfolding fixed_cases [OF assms(2)] by (auto simp: bindr_Inr_iff Let_def split: if_splits)
  have i: "unat (ck_length origin) \<le> i" "i < unat (ck_length origin) + 20" "ip = ck_address origin + word_of_nat i"
    using x64_reloc_loop_result [OF s(1) [unfolded fixed_loop_def]] by auto
  have "x64_step M = Some (M\<lparr>rip := ip\<rparr>)"
    if "loaded (xmem M) (ck_address relocated) code" "rip M = ck_address relocated + word_of_nat (length code - 14)" for M
    using that unfolding s(3) by (intro jump_back_step) (simp add: loaded_append)
  moreover have "unat (word_of_nat i :: u64) = i"
    using i(2) assms(2) by (simp add: unat_of_nat)
  ultimately show ?thesis
    using i s(2,3) by simp
qed

section \<open>The retry loop\<close>

text \<open>
  The result of the loop up to the addresses: the error, or the number of bytes consumed and emitted.
\<close>

definition loop_shape :: "(nat \<times> u64 \<times> x64_assembler) res \<Rightarrow> (nat \<times> nat) res" where
  "loop_shape r = map_sum id (\<lambda>(i, ip, s). (i, length (x64_buf s))) r"

lemma loop_shape_independent:
  "length (x64_buf s) = length (x64_buf t) \<Longrightarrow>
   loop_shape (x64_reloc_loop m buffer i n ip r s) = loop_shape (x64_reloc_loop m buffer i n ip' r' t)"
proof (induction m buffer i n ip r s arbitrary: ip' t rule: x64_reloc_loop.induct)
  case (1 m buffer i n ip r s)
  let ?c = "buffer + word_of_nat i"
  show ?case
  proof (cases "i < n")
    case False
    then show ?thesis
      using "1.prems" by (subst (1 2) x64_reloc_loop.simps) (simp add: loop_shape_def)
  next
    case True
    show ?thesis
    proof (cases "x86_insn_decode zero_insn (ld 15 m ?c) 64")
      case (Inl e)
      then show ?thesis
        using True by (subst (1 2) x64_reloc_loop.simps) (simp add: loop_shape_def)
    next
      case (Inr insn)
      have same: "map_sum id length (x64_reloc_bytes m ?c insn ip (r + word_of_int (ip_offset s))) =
          map_sum id length (x64_reloc_bytes m ?c insn ip' (r' + word_of_int (ip_offset t)))"
        by (rule x64_reloc_bytes_length)
      show ?thesis
      proof (cases "x64_reloc_bytes m ?c insn ip (r + word_of_int (ip_offset s))")
        case (Inl e)
        then have "x64_reloc_bytes m ?c insn ip' (r' + word_of_int (ip_offset t)) = Inl e"
          using same by (cases "x64_reloc_bytes m ?c insn ip' (r' + word_of_int (ip_offset t))") auto
        then show ?thesis
          using True Inl Inr by (subst (1 2) x64_reloc_loop.simps) (simp add: loop_shape_def x64_reloc_insn_bytes)
      next
        case (Inr bs)
        then obtain bs' where bs': "x64_reloc_bytes m ?c insn ip' (r' + word_of_int (ip_offset t)) = Inr bs'" "length bs' = length bs"
          using same by (cases "x64_reloc_bytes m ?c insn ip' (r' + word_of_int (ip_offset t))") auto
        have "x64_reloc_insn m ?c insn ip (r + word_of_int (ip_offset s)) s = Inr (x64_EmitBuffer bs s)"
          using Inr by (simp add: x64_reloc_insn_bytes)
        from "1.IH" [OF True \<open>x86_insn_decode _ _ _ = Inr insn\<close> this, of "x64_EmitBuffer bs' t"] show ?thesis
          using True Inr \<open>x86_insn_decode _ _ _ = Inr insn\<close> bs' "1.prems"
          by (subst (1 2) x64_reloc_loop.simps) (simp add: x64_reloc_insn_bytes)
      qed
    qed
  qed
qed

text \<open>A second run with the size the first one found repeats it.\<close>

lemma loop_again:
  "x64_reloc_loop m buffer i n ip r s = Inr (i', ip', s') \<Longrightarrow> x64_reloc_loop m buffer i i' ip r s = Inr (i', ip', s')"
proof (induction m buffer i n ip r s rule: x64_reloc_loop.induct)
  case (1 m buffer i n ip r s)
  show ?case
  proof (cases "i < n")
    case False
    then have "i' = i" "ip' = ip" "s' = s" using "1.prems" by (subst (asm) x64_reloc_loop.simps, simp)+
    then show ?thesis by (subst x64_reloc_loop.simps) simp
  next
    case True
    with "1.prems" obtain insn s1 where step: "x86_insn_decode zero_insn (ld 15 m (buffer + word_of_nat i)) 64 = Inr insn"
      "x64_reloc_insn m (buffer + word_of_nat i) insn ip (r + word_of_int (ip_offset s)) s = Inr s1"
      "x64_reloc_loop m buffer (i + unat (insn_length insn)) n (ip + ucast (insn_length insn)) r s1 = Inr (i', ip', s')"
      by (subst (asm) x64_reloc_loop.simps) (auto simp: bindr_Inr_iff)
    have "i < i'" using x64_reloc_loop_result [OF "1.prems"] True by auto
    then show ?thesis
      using "1.IH" [OF True step] step(1,2) by (subst x64_reloc_loop.simps) simp
  qed
qed

text \<open>An instruction becomes at most 279 bytes, so the size of the result is bounded.\<close>

lemma reloc_bytes_bound:
  assumes "x86_insn_decode zero_insn (ld 15 m c) 64 = Inr insn" "x64_reloc_bytes m c insn ip r = Inr bs"
  shows "length bs \<le> 279"
proof -
  note len = x86_insn_decode_length [OF assms(1) length_ld]
  have z: "immediate_offset zero_insn = 0" by (simp add: zero_insn_def)
  have "unat (word_of_nat (unat (immediate_offset insn)) :: u32) = unat (immediate_offset insn)"
    unfolding unat_of_nat using u8_less_256 [of "immediate_offset insn"] by simp
  then have "(ucast (immediate_offset insn) :: u32) \<le> insn_length insn"
    using len(3) [OF z] by (simp add: word_le_nat_alt)
  then have "unat (insn_length insn - ucast (immediate_offset insn)) \<le> 20"
    using len(2) by (simp add: unat_sub)
  moreover have "unat (displacement_offset insn) < 256" "unat (immediate_offset insn) < 256"
    by (rule u8_less_256)+
  ultimately show ?thesis
    using assms(2) len(2) by (auto simp: x64_reloc_bytes_def split: if_splits)
qed

lemma loop_bound:
  "x64_reloc_loop m buffer i n ip r s = Inr (i', ip', s') \<Longrightarrow> length (x64_buf s') \<le> length (x64_buf s) + 279 * (n - i)"
proof (induction m buffer i n ip r s rule: x64_reloc_loop.induct)
  case (1 m buffer i n ip r s)
  show ?case
  proof (cases "i < n")
    case False
    then show ?thesis using "1.prems" by (subst (asm) x64_reloc_loop.simps) simp
  next
    case True
    with "1.prems" obtain insn bs where step: "x86_insn_decode zero_insn (ld 15 m (buffer + word_of_nat i)) 64 = Inr insn"
      "x64_reloc_bytes m (buffer + word_of_nat i) insn ip (r + word_of_int (ip_offset s)) = Inr bs"
      "x64_reloc_loop m buffer (i + unat (insn_length insn)) n (ip + ucast (insn_length insn)) r (x64_EmitBuffer bs s) = Inr (i', ip', s')"
      by (subst (asm) x64_reloc_loop.simps) (auto simp: bindr_Inr_iff x64_reloc_insn_bytes)
    have "x64_reloc_insn m (buffer + word_of_nat i) insn ip (r + word_of_int (ip_offset s)) s = Inr (x64_EmitBuffer bs s)"
      using step(2) by (simp add: x64_reloc_insn_bytes)
    note IH = "1.IH" [OF True step(1) this step(3)]
    note len = x86_insn_decode_length(1) [OF step(1) length_ld]
    have "length bs + 279 * (n - (i + unat (insn_length insn))) \<le> 279 * (n - i)"
      using len True reloc_bytes_bound [OF step(1,2)] by (auto simp: algebra_simps diff_mult_distrib2)
    then show ?thesis using IH by simp
  qed
qed

lemma fixed_code_length:
  assumes "x64_GenRelocateCodeFixed m buffer origin relocated = Inr (origin', Some code)" "unat (ck_length origin) \<le> 2 ^ 20"
  shows "length code \<le> 279 * 2 ^ 20 + 14"
proof -
  have "unat (ck_length origin) < 2 ^ 31 - 20" using assms(2) by simp
  from assms(1) [unfolded fixed_cases [OF this]]
  obtain i ip s where s: "fixed_loop m buffer (ck_address origin) (unat (ck_length origin)) (ck_address relocated) = Inr (i, ip, s)"
    "code = x64_buf s @ [0xff, 0x25, 0, 0, 0, 0] @ le_bytes 8 ip"
    by (auto simp: bindr_Inr_iff Let_def split: if_splits)
  then have "length (x64_buf s) \<le> 279 * unat (ck_length origin)"
    using loop_bound [OF s(1) [unfolded fixed_loop_def]] by (simp add: x64_TurboAssembler_def)
  then show ?thesis using assms(2) s(2) by simp
qed

text \<open>A run that failed for want of room, and the same run on the updated chunk.\<close>

lemma fixed_none:
  assumes "unat (ck_length origin) \<le> 2 ^ 20" "x64_GenRelocateCodeFixed m buffer origin relocated = Inr (origin', c)"
    and "fixed_loop m buffer (ck_address origin) (unat (ck_length origin)) r = Inr (i, ip, t)"
  shows "origin' = \<lparr>ck_address = ck_address origin, ck_length = word_of_nat i\<rparr>"
    "word_of_nat (length (x64_buf t) + 14) \<le> ck_length relocated \<Longrightarrow> c \<noteq> None"
proof -
  have small: "unat (ck_length origin) < 2 ^ 31 - 20" using assms(1) by simp
  obtain j jp s where s: "fixed_loop m buffer (ck_address origin) (unat (ck_length origin)) (ck_address relocated) = Inr (j, jp, s)"
    "origin' = \<lparr>ck_address = ck_address origin, ck_length = word_of_nat j\<rparr>"
    "c = (if word_of_nat (length (x64_buf s) + 14) > ck_length relocated then None else
       Some (x64_buf s @ [0xff, 0x25, 0, 0, 0, 0] @ le_bytes 8 jp))"
    using assms(2) unfolding fixed_cases [OF small] by (auto simp: bindr_Inr_iff Let_def)
  have "loop_shape (fixed_loop m buffer (ck_address origin) (unat (ck_length origin)) r) =
      loop_shape (fixed_loop m buffer (ck_address origin) (unat (ck_length origin)) (ck_address relocated))"
    unfolding fixed_loop_def by (rule loop_shape_independent) (simp add: x64_TurboAssembler_def)
  then have "j = i" "length (x64_buf s) = length (x64_buf t)"
    unfolding s(1) assms(3) by (simp_all add: loop_shape_def)
  then show "origin' = \<lparr>ck_address = ck_address origin, ck_length = word_of_nat i\<rparr>"
    "word_of_nat (length (x64_buf t) + 14) \<le> ck_length relocated \<Longrightarrow> c \<noteq> None"
    using s(2,3) by (auto simp: not_less)
qed

text \<open>\<open>settled origin i n\<close>: the loop consumes the chunk exactly and emits \<open>n\<close> bytes.\<close>

definition settled :: "(u64 \<Rightarrow> u8) \<Rightarrow> u64 \<Rightarrow> MemoryChunk \<Rightarrow> nat \<Rightarrow> bool" where
  "settled m buffer origin n \<longleftrightarrow> unat (ck_length origin) \<le> 2 ^ 20 \<and>
    (\<exists>ip t. fixed_loop m buffer (ck_address origin) (unat (ck_length origin)) 0 = Inr (unat (ck_length origin), ip, t) \<and> length (x64_buf t) = n)"

lemma AllocateCodeChunk_length:
  "AllocateCodeChunk api n s = (Some c, s') \<Longrightarrow> ck_length c = word_of_int n"
  by (auto simp: AllocateCodeChunk_def AllocateChunk_def carve_at_def carve_def Let_def split: prod.splits option.splits if_splits)

lemma fixed_settled:
  assumes "settled m buffer origin n" "x64_GenRelocateCodeFixed m buffer origin relocated = Inr (origin', c)"
  shows "origin' = origin" "word_of_nat (n + 14) \<le> ck_length relocated \<Longrightarrow> c \<noteq> None"
  using assms fixed_none [of origin m buffer relocated origin' c 0] by (auto simp: settled_def)

text \<open>One attempt with a chunk from the arena.\<close>

lemma attempt:
  assumes "settled m buffer origin n" "0 < sz" "sz < 2 ^ 31"
  shows "(\<exists>r. x64_try_again api m buffer sz origin (re_init_region_range 0 0) s = Some r) \<or>
    nat sz < n + 14 \<and> (\<exists>s'. x64_try_again api m buffer sz origin (re_init_region_range 0 0) s =
      x64_try_again api m buffer (sz + 16) origin (re_init_region_range 0 0) s')"
proof -
  obtain c s' where Pair: "AllocateCodeChunk api sz s = (c, s')" by (rule prod.exhaust)
  have zero: "raw_instruction_start (re_init_region_range 0 0) = 0"
    by (simp add: re_init_region_range_def init_region_range_def raw_instruction_start_def)
  show ?thesis
  proof (cases c)
    case None
    then show ?thesis
      using Pair zero by (subst x64_try_again.simps) simp
  next
    case (Some c')
    let ?r = "re_init_region_range (ck_address c') (sint (ucast (ck_length c') :: u32))"
    have "ck_length c' = word_of_nat (nat sz)"
      using AllocateCodeChunk_length Pair Some assms(2) by fastforce
    then have len: "ck_length ?r = word_of_nat (nat sz)"
      using assms(2,3) sint_small_32 [of "nat sz"] by (simp add: re_init_region_range_def init_region_range_def)
    show ?thesis
    proof (cases "x64_GenRelocateCodeFixed m buffer origin ?r")
      case (Inl e)
      then show ?thesis
        using Pair Some zero by (subst x64_try_again.simps) simp
    next
      case (Inr oc)
      obtain origin' code where oc: "oc = (origin', code)" by fastforce
      note same = fixed_settled [OF assms(1) Inr [unfolded oc]]
      show ?thesis
      proof (cases code)
        case None
        then have "\<not> (word_of_nat (n + 14) :: u64) \<le> word_of_nat (nat sz)"
          using same(2) len by auto
        then have "unat (word_of_nat (nat sz) :: u64) < unat (word_of_nat (n + 14) :: u64)"
          by (simp only: word_le_nat_alt not_le)
        moreover have "unat (word_of_nat (nat sz) :: u64) = nat sz"
          unfolding unat_of_nat using assms(2,3) by (simp add: nat_less_iff)
        moreover have "unat (word_of_nat (n + 14) :: u64) \<le> n + 14"
          unfolding unat_of_nat by (rule mod_less_eq_dividend)
        ultimately have "nat sz < n + 14" by linarith
        moreover have "x64_try_again api m buffer sz origin (re_init_region_range 0 0) s =
            x64_try_again api m buffer (sz + 16) origin (re_init_region_range 0 0) (Destroy c s')"
          using Pair Some zero Inr oc None same(1) by (subst x64_try_again.simps) simp
        ultimately show ?thesis by blast
      next
        case (Some bs)
        then show ?thesis
          using Pair \<open>c = Some c'\<close> zero Inr oc by (subst x64_try_again.simps) simp
      qed
    qed
  qed
qed

lemma retry_ends:
  assumes "settled m buffer origin n" "0 < sz" "n + 14 \<le> nat sz + 16 * k" "nat sz + 16 * k < 2 ^ 31"
  shows "\<exists>r. x64_try_again api m buffer sz origin (re_init_region_range 0 0) s = Some r"
  using assms(2-)
proof (induction k arbitrary: sz s)
  case 0
  then show ?case using attempt [OF assms(1), of sz api s] by auto
next
  case (Suc k)
  then have "\<exists>r. x64_try_again api m buffer (sz + 16) origin (re_init_region_range 0 0) s' = Some r" for s'
    by (intro Suc.IH) (auto simp: nat_add_distrib)
  moreover have "sz < 2 ^ 31" using Suc.prems by simp
  ultimately show ?case
    using attempt [OF assms(1) Suc.prems(1), of api s] by metis
qed

text \<open>After the first attempt the chunk is settled, with a bounded result.\<close>

lemma first_settles:
  assumes "unat (ck_length origin) \<le> 2 ^ 20 - 20" "x64_GenRelocateCodeFixed m buffer origin relocated = Inr (origin', c)"
  obtains n where "settled m buffer origin' n" "n \<le> 279 * 2 ^ 20"
proof -
  let ?n = "unat (ck_length origin)" and ?a = "ck_address origin"
  have small: "?n < 2 ^ 31 - 20" using assms(1) by simp
  obtain i ip s where s: "fixed_loop m buffer ?a ?n (ck_address relocated) = Inr (i, ip, s)"
    "origin' = \<lparr>ck_address = ?a, ck_length = word_of_nat i\<rparr>"
    using assms(2) unfolding fixed_cases [OF small] by (auto simp: bindr_Inr_iff Let_def)
  have i: "i \<le> 2 ^ 20"
    using x64_reloc_loop_result [OF s(1) [unfolded fixed_loop_def]] assms(1) by auto
  then have len: "unat (ck_length origin') = i"
    by (simp add: s(2) unat_of_nat)
  have "fixed_loop m buffer ?a i (ck_address relocated) = Inr (i, ip, s)"
    using loop_again s(1) by (simp add: fixed_loop_def)
  moreover have "loop_shape (fixed_loop m buffer ?a i 0) = loop_shape (fixed_loop m buffer ?a i (ck_address relocated))"
    unfolding fixed_loop_def by (rule loop_shape_independent) (simp add: x64_TurboAssembler_def)
  ultimately obtain jp t where "fixed_loop m buffer ?a i 0 = Inr (i, jp, t)" "length (x64_buf t) = length (x64_buf s)"
    by (cases "fixed_loop m buffer ?a i 0") (auto simp: loop_shape_def)
  then have "settled m buffer origin' (length (x64_buf s))"
    using i len by (auto simp: settled_def s(2))
  moreover have "length (x64_buf s) \<le> 279 * ?n"
    using loop_bound [OF s(1) [unfolded fixed_loop_def]] by (simp add: x64_TurboAssembler_def)
  then have "length (x64_buf s) \<le> 279 * 2 ^ 20"
    using assms(1) by simp
  ultimately show thesis by (rule that)
qed

lemma GenRelocateCodeAndBranch_ends:
  assumes "unat (ck_length origin) \<le> 2 ^ 20 - 20"
  shows "\<exists>r. x64_GenRelocateCodeAndBranch api m buffer origin relocated s = Some r"
proof -
  define step where "step = (if raw_instruction_start relocated = 0
     then (case AllocateCodeChunk api 32 s of (c, s') \<Rightarrow>
       (c, map_option (\<lambda>c. re_init_region_range (ck_address c) (sint (ucast (ck_length c) :: u32))) c, s'))
     else (None, Some relocated, s))"
  obtain cc c s' where cs: "step = (cc, c, s')" by (rule prod_cases3)
  have unfold: "x64_GenRelocateCodeAndBranch api m buffer origin relocated s =
     (case c of None \<Rightarrow> Some (Inr (origin, relocated, None, s'))
      | Some r \<Rightarrow> (case x64_GenRelocateCodeFixed m buffer origin r of
          Inl e \<Rightarrow> Some (Inl e)
        | Inr (origin', Some bs) \<Rightarrow> Some (Inr (origin', r, Some bs, s'))
        | Inr (origin', None) \<Rightarrow> x64_try_again api m buffer 48 origin' (re_init_region_range 0 0) (Destroy cc s')))"
    unfolding x64_GenRelocateCodeAndBranch_def
    by (subst x64_try_again.simps) (simp add: step_def [symmetric] cs split: option.splits sum.splits prod.splits)
  have "\<exists>r. x64_try_again api m buffer 48 origin' (re_init_region_range 0 0) t = Some r"
    if run: "x64_GenRelocateCodeFixed m buffer origin r = Inr (origin', d)" for r origin' d t
  proof -
    obtain n where n: "settled m buffer origin' n" "n \<le> 279 * 2 ^ 20"
      using first_settles [OF assms run] by blast
    have "n + 14 \<le> nat 48 + 16 * (n div 16 + 1)" "nat 48 + 16 * (n div 16 + 1) < 2 ^ 31"
      using n(2) by auto
    then show ?thesis
      by (intro retry_ends [OF n(1), of 48 "n div 16 + 1"]) simp_all
  qed
  then show ?thesis
    unfolding unfold by (auto split: option.splits sum.splits prod.splits)
qed

text \<open>A conditional branch with a 32-bit offset.\<close>

lemma jcc32_tables:
  assumes "0x80 \<le> (op :: u8)" "op \<le> 0x8f"
  shows "covered True (uint op) \<and> imm_opcode True (uint op) = ImmZ \<and> \<not> modrm_opcode True (uint op)"
proof -
  have "uint op \<in> set [0x80..0x8f]"
    using assms unfolding set_upto word_le_def by simp
  moreover have "list_all (\<lambda>k. covered True k \<and> imm_opcode True k = ImmZ \<and> \<not> modrm_opcode True k) [0x80..0x8f]"
    by code_simp
  ultimately show ?thesis unfolding list_all_iff by blast
qed

lemma jcc32_relocated:
  assumes "loaded m cursor ([0x0f, op] @ le_bytes 4 (d :: u32))" "0x80 \<le> op" "op \<le> 0x8f"
  shows "\<exists>insn. x86_insn_decode zero_insn (ld 15 m cursor) 64 = Inr insn \<and> insn_length insn = 6 \<and>
    x64_reloc_insn m cursor insn ip relo_ip s = Inr (x64_EmitBuffer ([0x0f, op] @ le_bytes 4 d) s)"
proof -
  define rest where "rest = le_bytes 4 d @ ld 9 m (cursor + 6)"
  have code: "ld 15 m cursor = [] @ [] @ opcode_bytes True op @ rest"
    using ld_loaded_prefix [OF assms(1), of 15] by (simp add: opcode_bytes_def rest_def)
  note op = jcc32_tables [OF assms(2,3)]
  have ok: "decodable [] [] True op rest"
    using op by (simp add: decodable_def rex_ok_def)
  have len: "encoding_length [] [] True op rest = 6"
    using op by (simp add: encoding_length_def head_length_def form_length_def immediate_length_def imm_length_def rex_of_def)
  have "\<not> x64_rewritten op"
    using assms(2,3) by (auto simp: x64_rewritten_def word_le_nat_alt)
  then obtain insn where "x86_insn_decode zero_insn (ld 15 m cursor) 64 = Inr insn" "unat (insn_length insn) = 6"
    "x64_reloc_bytes m cursor insn ip relo_ip = Inr (take 6 (ld 15 m cursor))"
    using copied [OF ok code] op len by auto
  moreover have "take 6 (ld 15 m cursor) = [0x0f, op] @ le_bytes 4 d"
    using code by (simp add: opcode_bytes_def rest_def)
  moreover have "insn_length insn = 6"
    using calculation(2) by (simp add: word_eq_iff_unsigned [where 'a = nat])
  ultimately show ?thesis by (auto simp: x64_reloc_insn_bytes)
qed

section \<open>Properties\<close>

text \<open>
  C21. A relocated \<^verbatim>\<open>call\<close> or \<^verbatim>\<open>jmp\<close> with a 32-bit offset reaches the target of the original, whatever
  the addresses and the offset, as long as the new offset has 32 bits; the call returns behind the
  relocated instruction.
\<close>

theorem x64_relocated_branch_reaches_target:
  assumes "loaded m cursor (op # le_bytes 4 (d :: u32))" "op \<in> {0xe8, 0xe9}"
    and "- (2 ^ 31) \<le> sint (ip + scast d - relo_ip)" "sint (ip + scast d - relo_ip) < 2 ^ 31"
  shows "\<exists>insn bs. x86_insn_decode zero_insn (ld 15 m cursor) 64 = Inr insn \<and> insn_length insn = 5 \<and>
    x64_reloc_insn m cursor insn ip relo_ip s = Inr (x64_EmitBuffer bs s) \<and> length bs = 5 \<and>
    (\<forall>M. loaded (xmem M) relo_ip bs \<and> rip M = relo_ip \<longrightarrow>
       x64_step M = Some ((if op = 0xe8 then x64_push_value (relo_ip + 5) M else M)\<lparr>rip := ip + 5 + scast d\<rparr>))"
  by (rule near_branch_relocated [OF assms])

theorem x64_relocated_branch_reaches_target_witness:
  "\<exists>insn bs. x86_insn_decode zero_insn (ld 15 (image_at 0x1000 (0xe9 # le_bytes 4 (0x20 :: u32)) (\<lambda>_. 0)) 0x1000) 64 = Inr insn \<and>
    x64_reloc_insn (image_at 0x1000 (0xe9 # le_bytes 4 (0x20 :: u32)) (\<lambda>_. 0)) 0x1000 insn 0x1000 0x9000 (x64_TurboAssembler 0) =
      Inr (x64_EmitBuffer bs (x64_TurboAssembler 0)) \<and>
    (\<forall>M. loaded (xmem M) 0x9000 bs \<and> rip M = 0x9000 \<longrightarrow> x64_step M = Some (M\<lparr>rip := 0x1025\<rparr>))"
proof -
  let ?m = "image_at 0x1000 (0xe9 # le_bytes 4 (0x20 :: u32)) (\<lambda>_. 0)"
  have l: "loaded ?m 0x1000 (0xe9 # le_bytes 4 (0x20 :: u32))" by (rule loaded_image_at) simp
  have r: "- (2 ^ 31) \<le> sint ((0x1000 :: u64) + scast (0x20 :: u32) - 0x9000)" "sint ((0x1000 :: u64) + scast (0x20 :: u32) - 0x9000) < 2 ^ 31"
    by simp_all
  have e: "(0x1000 :: u64) + 5 + scast (0x20 :: u32) = 0x1025" by simp
  have op: "(0xe9 :: u8) \<in> {0xe8, 0xe9}" "((0xe9 :: u8) = 0xe8) = False" by simp_all
  from x64_relocated_branch_reaches_target [OF l op(1) r, of "x64_TurboAssembler 0"] show ?thesis
    unfolding op(2) if_False e by blast
qed

text \<open>
  C20. An instruction with an operand relative to the instruction pointer is copied with a new
  displacement and its length kept: for every handled encoding that is no branch, the bytes up to the
  displacement and the immediate are those of the original, and the operand has the address it had,
  as long as the new displacement has 32 bits.
\<close>

theorem x64_relocated_operand_address:
  assumes "decodable ps rx two b rest" "ld 15 m cursor = ps @ rx @ opcode_bytes two b @ rest" "encoding_length ps rx two b rest \<le> 15"
    and "modrm_opcode two (uint b)" "ip_form (rest ! 0)" "\<not> (0x70 \<le> b \<and> b \<le> 0x7f)" "b \<noteq> 0xeb"
    and "d = le_word (take 4 (drop 1 rest))" "- (2 ^ 31) \<le> sint (ip + scast d - relo_ip)" "sint (ip + scast d - relo_ip) < 2 ^ 31"
  shows "\<exists>insn d'. x86_insn_decode zero_insn (ld 15 m cursor) 64 = Inr insn \<and> unat (insn_length insn) = encoding_length ps rx two b rest \<and>
    x64_reloc_insn m cursor insn ip relo_ip s = Inr (x64_EmitBuffer
      (ps @ rx @ opcode_bytes two b @ [rest ! 0] @ le_bytes 4 (d' :: u32) @ take (immediate_length ps rx two b) (drop 5 rest)) s) \<and>
    relo_ip + word_of_nat (encoding_length ps rx two b rest) + scast d' = ip + word_of_nat (encoding_length ps rx two b rest) + scast (d :: u32)"
proof -
  let ?h = "head_length ps rx two" and ?d' = "ucast (ip + scast d - relo_ip) :: u32"
  obtain insn where insn: "x86_insn_decode zero_insn (ld 15 m cursor) 64 = Inr insn" "unat (insn_length insn) = encoding_length ps rx two b rest"
    "x64_reloc_bytes m cursor insn ip relo_ip = Inr (take (?h + 1) (ld 15 m cursor) @ le_bytes 4 ?d' @
       take (immediate_length ps rx two b) (drop (?h + 5) (ld 15 m cursor)))"
    using ip_relative_relocated [OF assms(1-7), of ip relo_ip] assms(8) by auto
  have "length (ps @ rx @ opcode_bytes two b @ rest) = 15"
    unfolding assms(2) [symmetric] by simp
  then have "rest \<noteq> []"
    using assms(1) by (auto simp: decodable_def rex_ok_def opcode_bytes_def split: list.splits if_splits)
  then have "take (?h + 1) (ld 15 m cursor) = ps @ rx @ opcode_bytes two b @ [rest ! 0]"
    "drop (?h + 5) (ld 15 m cursor) = drop 5 rest"
    unfolding assms(2) head_length_def by (auto simp: opcode_bytes_def take_Suc hd_conv_nth)
  then show ?thesis
    using insn relocated_target [OF assms(9,10)] by (intro exI [of _ insn] exI [of _ ?d']) (simp add: x64_reloc_insn_bytes)
qed

text \<open>Witness: \<^verbatim>\<open>imul r8, [rip + 0x11223344], 7\<close>, moved from \<open>0x1000\<close> to \<open>0x9000\<close>.\<close>

theorem x64_relocated_operand_address_witness:
  "\<exists>insn d'. x86_insn_decode zero_insn (ld 15 (image_at 0x1000 [0x4c, 0x6b, 0x05, 0x44, 0x33, 0x22, 0x11, 0x07, 0, 0, 0, 0, 0, 0, 0] (\<lambda>_. 0)) 0x1000) 64 = Inr insn \<and>
    x64_reloc_insn (image_at 0x1000 [0x4c, 0x6b, 0x05, 0x44, 0x33, 0x22, 0x11, 0x07, 0, 0, 0, 0, 0, 0, 0] (\<lambda>_. 0)) 0x1000 insn 0x1000 0x9000 (x64_TurboAssembler 0) =
      Inr (x64_EmitBuffer ([0x4c, 0x6b, 0x05] @ le_bytes 4 (d' :: u32) @ [0x07]) (x64_TurboAssembler 0)) \<and>
    0x9008 + scast d' = (0x1008 + 0x11223344 :: u64)"
proof -
  let ?rest = "[0x05, 0x44, 0x33, 0x22, 0x11, 0x07, 0, 0, 0, 0, 0, 0, 0] :: bytes"
  let ?code = "[] @ [0x4c] @ opcode_bytes False 0x6b @ ?rest" and ?d = "0x11223344 :: u32"
  have c: "?code = [0x4c, 0x6b, 0x05, 0x44, 0x33, 0x22, 0x11, 0x07, 0, 0, 0, 0, 0, 0, 0]" by (simp add: opcode_bytes_def)
  have dec: "decodable [] [0x4c] False 0x6b ?rest" "encoding_length [] [0x4c] False 0x6b ?rest = 8" "modrm_opcode False 0x6b" "ip_form (?rest ! 0)"
    "immediate_length [] [0x4c] False 0x6b = 1" "le_word (take 4 (drop 1 ?rest)) = ?d"
    by code_simp+
  have u: "uint (0x6b :: u8) = 0x6b" "opcode_bytes False 0x6b = [0x6b]" by (simp_all add: opcode_bytes_def)
  have "loaded (image_at 0x1000 ?code (\<lambda>_. 0)) 0x1000 ?code"
    by (rule loaded_image_at) (simp add: opcode_bytes_def)
  then have ld: "ld 15 (image_at 0x1000 ?code (\<lambda>_. 0)) 0x1000 = ?code"
    by (rule loaded_ld) (simp add: opcode_bytes_def)
  have r: "- (2 ^ 31) \<le> sint ((0x1000 :: u64) + scast ?d - 0x9000)" "sint ((0x1000 :: u64) + scast ?d - 0x9000) < 2 ^ 31" by simp_all
  have "encoding_length [] [0x4c] False 0x6b ?rest \<le> 15" "modrm_opcode False (uint (0x6b :: u8))" "\<not> (0x70 \<le> (0x6b :: u8) \<and> (0x6b :: u8) \<le> 0x7f)" "(0x6b :: u8) \<noteq> 0xeb"
    using dec by (simp_all add: u)
  from x64_relocated_operand_address [OF dec(1) ld this(1,2) dec(4) this(3,4) dec(6) [symmetric] r, of "x64_TurboAssembler 0"]
  show ?thesis
    unfolding c by (simp add: dec u) blast
qed

text \<open>
  C24. Every other handled instruction is copied unchanged: for all handled encodings without an operand
  relative to the instruction pointer, except short and near branches, calls and loops, the relocated
  code is exactly the bytes of the instruction.
\<close>

theorem x64_other_instructions_copied:
  assumes "decodable ps rx two b rest" "ld 15 m cursor = ps @ rx @ opcode_bytes two b @ rest" "encoding_length ps rx two b rest \<le> 15"
    and "\<not> (modrm_opcode two (uint b) \<and> ip_form (rest ! 0))" "\<not> x64_rewritten b"
  shows "\<exists>insn. x86_insn_decode zero_insn (ld 15 m cursor) 64 = Inr insn \<and> unat (insn_length insn) = encoding_length ps rx two b rest \<and>
    x64_reloc_insn m cursor insn ip relo_ip s = Inr (x64_EmitBuffer (take (encoding_length ps rx two b rest) (ld 15 m cursor)) s)"
  using copied [OF assms, of ip relo_ip] by (auto simp: x64_reloc_insn_bytes)

theorem x64_other_instructions_copied_witness:
  "\<exists>insn. x86_insn_decode zero_insn (ld 15 (\<lambda>_. 0x90) 0x1000) 64 = Inr insn \<and> unat (insn_length insn) = 1 \<and>
    x64_reloc_insn (\<lambda>_. 0x90) 0x1000 insn 0x1000 0x9000 (x64_TurboAssembler 0) = Inr (x64_EmitBuffer [0x90] (x64_TurboAssembler 0))"
proof -
  let ?rest = "replicate 14 0x90 :: bytes"
  have ld: "ld 15 (\<lambda>_. 0x90) 0x1000 = [] @ [] @ opcode_bytes False 0x90 @ ?rest"
    by (simp add: ld_def opcode_bytes_def map_replicate_const numeral_eq_Suc)
  have dec: "decodable [] [] False 0x90 ?rest" "encoding_length [] [] False 0x90 ?rest = 1" "\<not> modrm_opcode False 0x90" "\<not> x64_rewritten 0x90"
    by code_simp+
  then have "encoding_length [] [] False 0x90 ?rest \<le> 15" "\<not> (modrm_opcode False (uint (0x90 :: u8)) \<and> ip_form (?rest ! 0))" by simp_all
  from x64_other_instructions_copied [OF dec(1) ld this dec(4), of "0x1000" "0x9000" "x64_TurboAssembler 0"] show ?thesis
    by (simp add: dec(2) ld [symmetric] ld_def upt_conv_Cons)
qed

text \<open>
  C22. The relocated chunk returns to the original function: whenever the routine produces code, that code
  ends in a jump, and executing the jump where the chunk is placed reaches the address that follows the
  relocated instructions. The relocated range covers the range asked for and is less than twenty bytes
  longer, and the original chunk is updated to it.
\<close>

theorem x64_relocated_chunk_returns:
  assumes "x64_GenRelocateCodeFixed m buffer origin relocated = Inr (origin', Some code)" "unat (ck_length origin) < 2 ^ 31 - 20"
  shows "14 \<le> length code \<and> ck_address origin' = ck_address origin \<and>
    unat (ck_length origin) \<le> unat (ck_length origin') \<and> unat (ck_length origin') < unat (ck_length origin) + 20 \<and>
    (\<forall>M. loaded (xmem M) (ck_address relocated) code \<and> rip M = ck_address relocated + word_of_nat (length code - 14) \<longrightarrow>
       x64_step M = Some (M\<lparr>rip := ck_address origin + ck_length origin'\<rparr>))"
  by (rule fixed_returns [OF assms])

theorem x64_relocated_chunk_returns_witness:
  "\<exists>origin' code. x64_GenRelocateCodeFixed (\<lambda>_. 0x90) 0x1000 \<lparr>ck_address = 0x1000, ck_length = 2\<rparr> \<lparr>ck_address = 0x9000, ck_length = 32\<rparr> =
     Inr (origin', Some code) \<and> unat (ck_length origin') < 22"
proof -
  let ?r = "x64_GenRelocateCodeFixed (\<lambda>_. 0x90) 0x1000 \<lparr>ck_address = 0x1000, ck_length = 2\<rparr> \<lparr>ck_address = 0x9000, ck_length = 32\<rparr>"
  have "(case ?r of Inr (origin', Some code) \<Rightarrow> True | _ \<Rightarrow> False)" by code_simp
  then obtain origin' code where r: "?r = Inr (origin', Some code)" by (auto split: sum.splits prod.splits option.splits)
  from x64_relocated_chunk_returns [OF this] r show ?thesis by auto
qed

text \<open>
  C23. Relocation always returns: for every memory content, every original chunk of up to a megabyte,
  whatever the operating system answers and wherever the chunks of the arena lie, the retry loop with
  its growing chunk size ends, with code, with an error, or without memory.
\<close>

theorem x64_relocation_returns:
  assumes "unat (ck_length origin) \<le> 2 ^ 20 - 20"
  shows "\<exists>r. x64_GenRelocateCodeAndBranch api m buffer origin relocated s = Some r"
  by (rule GenRelocateCodeAndBranch_ends [OF assms])

theorem x64_relocation_returns_witness:
  "\<exists>r. x64_GenRelocateCodeAndBranch wit_api (\<lambda>_. 0x90) 0x1000 \<lparr>ck_address = 0x1000, ck_length = 200\<rparr> \<lparr>ck_address = 0, ck_length = 0\<rparr>
     (None, 0x10000) = Some r"
  by (rule x64_relocation_returns) simp

text \<open>
  C25. Conditional branches are moved to wrong targets. A relocated branch with an 8-bit offset,
  executed when its condition holds, goes four bytes beyond the target of the original, because the new
  offset is computed without the difference in length. A branch with a 32-bit offset is copied with
  its offset, so that executing it at its new place misses the target of the original by the distance
  it was moved.
\<close>

theorem x64_conditional_branches_miss:
  assumes "loaded m cursor [op, d]" "0x70 \<le> op" "op \<le> 0x7f"
    and "- (2 ^ 31) \<le> sint (ip + scast d - relo_ip)" "sint (ip + scast d - relo_ip) < 2 ^ 31"
    and "loaded m' cursor' ([0x0f, op'] @ le_bytes 4 (d' :: u32))" "0x80 \<le> op'" "op' \<le> 0x8f"
  shows "(\<exists>insn bs. x86_insn_decode zero_insn (ld 15 m cursor) 64 = Inr insn \<and>
      x64_reloc_insn m cursor insn ip relo_ip s = Inr (x64_EmitBuffer bs s) \<and>
      (\<forall>M. xcond M (op AND 0xf) \<longrightarrow>
         (loaded (xmem M) ip [op, d] \<and> rip M = ip \<longrightarrow> x64_step M = Some (M\<lparr>rip := ip + 2 + scast d\<rparr>)) \<and>
         (loaded (xmem M) relo_ip bs \<and> rip M = relo_ip \<longrightarrow> x64_step M = Some (M\<lparr>rip := ip + 2 + scast d + 4\<rparr>)))) \<and>
    (\<exists>insn bs. x86_insn_decode zero_insn (ld 15 m' cursor') 64 = Inr insn \<and>
      x64_reloc_insn m' cursor' insn ip relo_ip s = Inr (x64_EmitBuffer bs s) \<and>
      (\<forall>M. xcond M (op' AND 0xf) \<longrightarrow>
         (loaded (xmem M) ip ([0x0f, op'] @ le_bytes 4 d') \<and> rip M = ip \<longrightarrow> x64_step M = Some (M\<lparr>rip := ip + 6 + scast d'\<rparr>)) \<and>
         (loaded (xmem M) relo_ip bs \<and> rip M = relo_ip \<longrightarrow>
            x64_step M = Some (M\<lparr>rip := ip + 6 + scast d' + (relo_ip - ip)\<rparr>))))"
proof (intro conjI)
  obtain insn bs where "x86_insn_decode zero_insn (ld 15 m cursor) 64 = Inr insn"
    "x64_reloc_insn m cursor insn ip relo_ip s = Inr (x64_EmitBuffer bs s)"
    "\<forall>M. loaded (xmem M) relo_ip bs \<and> rip M = relo_ip \<longrightarrow>
       x64_step M = Some (M\<lparr>rip := if xcond M (op AND 0xf) then ip + 2 + scast d + 4 else relo_ip + 6\<rparr>)"
    using jcc_relocated [OF assms(1-5), of s] by blast
  then show "\<exists>insn bs. x86_insn_decode zero_insn (ld 15 m cursor) 64 = Inr insn \<and>
      x64_reloc_insn m cursor insn ip relo_ip s = Inr (x64_EmitBuffer bs s) \<and>
      (\<forall>M. xcond M (op AND 0xf) \<longrightarrow>
         (loaded (xmem M) ip [op, d] \<and> rip M = ip \<longrightarrow> x64_step M = Some (M\<lparr>rip := ip + 2 + scast d\<rparr>)) \<and>
         (loaded (xmem M) relo_ip bs \<and> rip M = relo_ip \<longrightarrow> x64_step M = Some (M\<lparr>rip := ip + 2 + scast d + 4\<rparr>)))"
    using jcc_exec [OF assms(2,3)] by (intro exI [of _ insn] exI [of _ bs]) auto
next
  obtain insn where "x86_insn_decode zero_insn (ld 15 m' cursor') 64 = Inr insn"
    "x64_reloc_insn m' cursor' insn ip relo_ip s = Inr (x64_EmitBuffer ([0x0f, op'] @ le_bytes 4 d') s)"
    using jcc32_relocated [OF assms(6-8), of ip relo_ip s] by blast
  then show "\<exists>insn bs. x86_insn_decode zero_insn (ld 15 m' cursor') 64 = Inr insn \<and>
      x64_reloc_insn m' cursor' insn ip relo_ip s = Inr (x64_EmitBuffer bs s) \<and>
      (\<forall>M. xcond M (op' AND 0xf) \<longrightarrow>
         (loaded (xmem M) ip ([0x0f, op'] @ le_bytes 4 d') \<and> rip M = ip \<longrightarrow> x64_step M = Some (M\<lparr>rip := ip + 6 + scast d'\<rparr>)) \<and>
         (loaded (xmem M) relo_ip bs \<and> rip M = relo_ip \<longrightarrow>
            x64_step M = Some (M\<lparr>rip := ip + 6 + scast d' + (relo_ip - ip)\<rparr>)))"
    using jcc32_exec [OF assms(7,8)] by (intro exI [of _ insn] exI [of _ "[0x0f, op'] @ le_bytes 4 d'"]) auto
qed

text \<open>
  Witness: \<^verbatim>\<open>je\<close> with both widths and the offset \<open>0x10\<close>, moved from \<open>0x1000\<close> to
  \<open>0x9000\<close>: the short one goes to \<open>0x1016\<close> for \<open>0x1012\<close>, the long one to
  \<open>0x9016\<close> for \<open>0x1016\<close>.
\<close>

theorem x64_conditional_branches_miss_witness:
  "(\<exists>insn bs. x86_insn_decode zero_insn (ld 15 (image_at 0x1000 [0x74, 0x10] (\<lambda>_. 0)) 0x1000) 64 = Inr insn \<and>
      x64_reloc_insn (image_at 0x1000 [0x74, 0x10] (\<lambda>_. 0)) 0x1000 insn 0x1000 0x9000 (x64_TurboAssembler 0) =
        Inr (x64_EmitBuffer bs (x64_TurboAssembler 0)) \<and>
      (\<forall>M. xcond M 4 \<longrightarrow> loaded (xmem M) 0x9000 bs \<and> rip M = 0x9000 \<longrightarrow> x64_step M = Some (M\<lparr>rip := 0x1016\<rparr>))) \<and>
   (\<exists>insn bs. x86_insn_decode zero_insn (ld 15 (image_at 0x1000 ([0x0f, 0x84] @ le_bytes 4 (0x10 :: u32)) (\<lambda>_. 0)) 0x1000) 64 = Inr insn \<and>
      x64_reloc_insn (image_at 0x1000 ([0x0f, 0x84] @ le_bytes 4 (0x10 :: u32)) (\<lambda>_. 0)) 0x1000 insn 0x1000 0x9000 (x64_TurboAssembler 0) =
        Inr (x64_EmitBuffer bs (x64_TurboAssembler 0)) \<and>
      (\<forall>M. xcond M 4 \<longrightarrow>
         (loaded (xmem M) 0x1000 ([0x0f, 0x84] @ le_bytes 4 (0x10 :: u32)) \<and> rip M = 0x1000 \<longrightarrow> x64_step M = Some (M\<lparr>rip := 0x1016\<rparr>)) \<and>
         (loaded (xmem M) 0x9000 bs \<and> rip M = 0x9000 \<longrightarrow> x64_step M = Some (M\<lparr>rip := 0x9016\<rparr>))))"
proof -
  let ?m = "image_at 0x1000 [0x74, 0x10] (\<lambda>_. 0)" and ?m' = "image_at 0x1000 ([0x0f, 0x84] @ le_bytes 4 (0x10 :: u32)) (\<lambda>_. 0)"
  have l: "loaded ?m 0x1000 [0x74, 0x10]" by (rule loaded_image_at) simp
  have l': "loaded ?m' 0x1000 ([0x0f, 0x84] @ le_bytes 4 (0x10 :: u32))" by (rule loaded_image_at) simp
  have r: "- (2 ^ 31) \<le> sint ((0x1000 :: u64) + scast (0x10 :: u8) - 0x9000)" "sint ((0x1000 :: u64) + scast (0x10 :: u8) - 0x9000) < 2 ^ 31"
    by simp_all
  have c: "(0x70 :: u8) \<le> 0x74" "(0x74 :: u8) \<le> 0x7f" "(0x80 :: u8) \<le> 0x84" "(0x84 :: u8) \<le> 0x8f" by simp_all
  have e: "(0x74 :: u8) AND 0xf = 4" "(0x84 :: u8) AND 0xf = 4" "(0x1000 :: u64) + 2 + scast (0x10 :: u8) + 4 = 0x1016"
    "(0x1000 :: u64) + 6 + scast (0x10 :: u32) = 0x1016" "(0x1016 :: u64) + (0x9000 - 0x1000) = 0x9016" by simp_all
  from x64_conditional_branches_miss [OF l c(1,2) r l' c(3,4), of "x64_TurboAssembler 0"] show ?thesis
    unfolding e by blast
qed

end
