(* ===== verification/Hook_Registry.thy ===== *)
theory Hook_Registry
  imports Memory_Arena
begin

text \<open>
  The registry of hooks: the intrusive circular list of \<^verbatim>\<open>include/list_structure.h\<close> and the
  \<^verbatim>\<open>Interceptor\<close> of \<^verbatim>\<open>Interceptor.cpp\<close> on top of it. Objects live in a store with one map per kind of
  object, from addresses to contents; reading or writing an address that holds no such object is a
  fault. A \<^verbatim>\<open>HookEntryNode\<close> starts with its \<^verbatim>\<open>list_node\<close> and an \<^verbatim>\<open>Interceptor\<close> with its
  \<^verbatim>\<open>hook_entry_list_\<close>, so \<^verbatim>\<open>container_of\<close> and the address of those members leave an address as it is.
  An operation that calls \<^verbatim>\<open>new\<close> takes the address that the call returns as an argument.
\<close>

section \<open>Objects\<close>

record list_head =
  lh_next :: u64
  lh_prev :: u64

datatype HookEntryType = kFunctionWrapper | kFunctionInlineHook | kDynamicBinaryInstrument

text \<open>The unions of \<^verbatim>\<open>HookEntry\<close> are one field each: all their members have the same type.\<close>

record HookEntry =
  he_id :: u32
  he_type :: HookEntryType
  he_address :: u64
  he_route :: u64
  he_relocated :: u64
  he_chunk :: MemoryChunk
  he_chunk_buffer :: bytes

record registry =
  heads :: "u64 \<rightharpoonup> list_head"
  nodes :: "u64 \<rightharpoonup> u64"
  hook_entries :: "u64 \<rightharpoonup> HookEntry"
  priv_interceptor :: u64

definition deref :: "(u64 \<rightharpoonup> 'a) \<Rightarrow> u64 \<Rightarrow> 'a res" where
  "deref h p = (if p = 0 then Inl NullPointer else case h p of None \<Rightarrow> Inl OutOfBounds | Some v \<Rightarrow> Inr v)"

lemma deref_Inr: "deref h p = Inr v \<longleftrightarrow> p \<noteq> 0 \<and> h p = Some v"
  by (auto simp: deref_def split: option.splits)

definition set_next :: "u64 \<Rightarrow> u64 \<Rightarrow> (u64 \<rightharpoonup> list_head) \<Rightarrow> (u64 \<rightharpoonup> list_head) res" where
  "set_next p v h = bindr (deref h p) (\<lambda>l. Inr (h(p \<mapsto> l\<lparr>lh_next := v\<rparr>)))"

definition set_prev :: "u64 \<Rightarrow> u64 \<Rightarrow> (u64 \<rightharpoonup> list_head) \<Rightarrow> (u64 \<rightharpoonup> list_head) res" where
  "set_prev p v h = bindr (deref h p) (\<lambda>l. Inr (h(p \<mapsto> l\<lparr>lh_prev := v\<rparr>)))"

section \<open>The circular list\<close>

definition INIT_LIST_HEAD :: "u64 \<Rightarrow> (u64 \<rightharpoonup> list_head) \<Rightarrow> (u64 \<rightharpoonup> list_head) res" where
  "INIT_LIST_HEAD p h = bindr (set_next p p h) (set_prev p p)"

definition list_empty :: "u64 \<Rightarrow> (u64 \<rightharpoonup> list_head) \<Rightarrow> bool res" where
  "list_empty head h = bindr (deref h head) (\<lambda>l. Inr (lh_next l = head))"

definition list_add_between :: "u64 \<Rightarrow> u64 \<Rightarrow> u64 \<Rightarrow> (u64 \<rightharpoonup> list_head) \<Rightarrow> (u64 \<rightharpoonup> list_head) res" where
  "list_add_between new_node prev next h =
    bindr (set_prev next new_node h) (\<lambda>h.
    bindr (set_next new_node next h) (\<lambda>h.
    bindr (set_prev new_node prev h) (set_next prev new_node)))"

definition list_add :: "u64 \<Rightarrow> u64 \<Rightarrow> (u64 \<rightharpoonup> list_head) \<Rightarrow> (u64 \<rightharpoonup> list_head) res" where
  "list_add new_node head h = bindr (deref h head) (\<lambda>l. list_add_between new_node head (lh_next l) h)"

definition list_del_between :: "u64 \<Rightarrow> u64 \<Rightarrow> (u64 \<rightharpoonup> list_head) \<Rightarrow> (u64 \<rightharpoonup> list_head) res" where
  "list_del_between prev next h = bindr (set_prev next prev h) (set_next prev next)"

definition list_del :: "u64 \<Rightarrow> (u64 \<rightharpoonup> list_head) \<Rightarrow> (u64 \<rightharpoonup> list_head) res" where
  "list_del entry h =
    bindr (deref h entry) (\<lambda>l.
    bindr (list_del_between (lh_prev l) (lh_next l) h) (\<lambda>h.
    bindr (set_next entry 0 h) (set_prev entry 0)))"

section \<open>The interceptor\<close>

definition SharedInstance :: "u64 \<Rightarrow> 'z registry_scheme \<Rightarrow> (u64 \<times> 'z registry_scheme) res" where
  "SharedInstance p st =
    (if priv_interceptor st = 0 then
       bindr (INIT_LIST_HEAD p ((heads st)(p \<mapsto> \<lparr>lh_next = 0, lh_prev = 0\<rparr>))) (\<lambda>h.
       Inr (p, st\<lparr>priv_interceptor := p, heads := h\<rparr>))
     else Inr (priv_interceptor st, st))"

text \<open>
  The loops over the list may not end when the list is damaged: \<^const>\<open>None\<close> is a run that does
  not return. \<open>this\<close> is the address of the interceptor and so of its list head.
\<close>

partial_function (option) find_from :: "'z registry_scheme \<Rightarrow> u64 \<Rightarrow> u64 \<Rightarrow> u64 \<Rightarrow> u64 res option" where
  "find_from st this address entry_node =
    (if entry_node = this then Some (Inr 0)
     else case bindr (deref (nodes st) entry_node) (deref (hook_entries st)) of
       Inl e \<Rightarrow> Some (Inl e)
     | Inr entry \<Rightarrow>
         if he_address entry = address then Some (Inr entry_node)
         else (case deref (heads st) entry_node of
             Inl e \<Rightarrow> Some (Inl e)
           | Inr l \<Rightarrow> find_from st this address (lh_next l)))"

definition find_hook_entry_node :: "u64 \<Rightarrow> u64 \<Rightarrow> 'z registry_scheme \<Rightarrow> u64 res option" where
  "find_hook_entry_node this address st =
    (case deref (heads st) this of Inl e \<Rightarrow> Some (Inl e) | Inr l \<Rightarrow> find_from st this address (lh_next l))"

definition FindHookEntry :: "u64 \<Rightarrow> u64 \<Rightarrow> 'z registry_scheme \<Rightarrow> u64 res option" where
  "FindHookEntry this address st =
    map_option (\<lambda>r. bindr r (\<lambda>entry_node. if entry_node \<noteq> 0 then deref (nodes st) entry_node else Inr 0))
      (find_hook_entry_node this address st)"

definition AddHookEntry :: "u64 \<Rightarrow> u64 \<Rightarrow> u64 \<Rightarrow> 'z registry_scheme \<Rightarrow> 'z registry_scheme res" where
  "AddHookEntry this entry_node entry st =
    bindr (list_add entry_node this ((heads st)(entry_node \<mapsto> \<lparr>lh_next = 0, lh_prev = 0\<rparr>))) (\<lambda>h.
    Inr (st\<lparr>heads := h, nodes := (nodes st)(entry_node \<mapsto> entry)\<rparr>))"

definition RemoveHookEntry :: "u64 \<Rightarrow> u64 \<Rightarrow> 'z registry_scheme \<Rightarrow> 'z registry_scheme res option" where
  "RemoveHookEntry this address st =
    map_option (\<lambda>r. bindr r (\<lambda>entry_node.
        if entry_node \<noteq> 0 then bindr (list_del entry_node (heads st)) (\<lambda>h. Inr (st\<lparr>heads := h\<rparr>)) else Inr st))
      (find_hook_entry_node this address st)"

partial_function (option) count_from :: "'z registry_scheme \<Rightarrow> u64 \<Rightarrow> u64 \<Rightarrow> u32 \<Rightarrow> u32 res option" where
  "count_from st this entry_node count =
    (if entry_node = this then Some (Inr count)
     else case deref (heads st) entry_node of
       Inl e \<Rightarrow> Some (Inl e)
     | Inr l \<Rightarrow> count_from st this (lh_next l) (count + 1))"

definition GetHookEntryCount :: "u64 \<Rightarrow> 'z registry_scheme \<Rightarrow> u32 res option" where
  "GetHookEntryCount this st =
    (case deref (heads st) this of Inl e \<Rightarrow> Some (Inl e) | Inr l \<Rightarrow> count_from st this (lh_next l) 0)"

section \<open>Linked lists\<close>

definition next_of :: "(u64 \<rightharpoonup> list_head) \<Rightarrow> u64 \<Rightarrow> u64 option" where
  "next_of h p = map_option lh_next (h p)"

definition prev_of :: "(u64 \<rightharpoonup> list_head) \<Rightarrow> u64 \<Rightarrow> u64 option" where
  "prev_of h p = map_option lh_prev (h p)"

definition link :: "(u64 \<rightharpoonup> list_head) \<Rightarrow> u64 \<Rightarrow> u64 \<Rightarrow> bool" where
  "link h a b \<longleftrightarrow> next_of h a = Some b \<and> prev_of h b = Some a"

text \<open>The list with head \<open>head\<close> holds the nodes \<open>ps\<close>, each linked to the next in both directions.\<close>

definition ring :: "(u64 \<rightharpoonup> list_head) \<Rightarrow> u64 \<Rightarrow> u64 list \<Rightarrow> bool" where
  "ring h head ps \<longleftrightarrow> distinct (head # ps) \<and> 0 \<notin> set (head # ps) \<and> successively (link h) (head # ps @ [head])"

lemma successively_link_cong:
  assumes "\<And>a. a \<in> set (butlast xs) \<Longrightarrow> next_of h a = next_of h' a" "\<And>a. a \<in> set (tl xs) \<Longrightarrow> prev_of h a = prev_of h' a"
  shows "successively (link h) xs = successively (link h') xs"
  using assms
proof (induction xs rule: induct_list012)
  case (3 a b xs)
  then have "successively (link h) (b # xs) = successively (link h') (b # xs)" by (cases xs) auto
  moreover have "link h a b = link h' a b" using "3.prems" by (simp add: link_def)
  ultimately show ?case by simp
qed simp_all

lemma next_of_upd [simp]: "next_of (h(p \<mapsto> l)) a = (if a = p then Some (lh_next l) else next_of h a)"
  by (simp add: next_of_def)

lemma prev_of_upd [simp]: "prev_of (h(p \<mapsto> l)) a = (if a = p then Some (lh_prev l) else prev_of h a)"
  by (simp add: prev_of_def)

lemma set_next_Inr: "p \<noteq> 0 \<Longrightarrow> p \<in> D \<Longrightarrow> dom h = D \<Longrightarrow> \<exists>h'. set_next p v h = Inr h' \<and> dom h' = D \<and>
    (\<forall>a. next_of h' a = (if a = p then Some v else next_of h a)) \<and> (\<forall>a. prev_of h' a = prev_of h a)"
  by (auto simp: set_next_def deref_def prev_of_def)

lemma set_prev_Inr: "p \<noteq> 0 \<Longrightarrow> p \<in> D \<Longrightarrow> dom h = D \<Longrightarrow> \<exists>h'. set_prev p v h = Inr h' \<and> dom h' = D \<and>
    (\<forall>a. prev_of h' a = (if a = p then Some v else prev_of h a)) \<and> (\<forall>a. next_of h' a = next_of h a)"
  by (auto simp: set_prev_def deref_def next_of_def)

lemma ring_dom: "ring h head ps \<Longrightarrow> set (head # ps) \<subseteq> dom h"
proof
  fix a assume r: "ring h head ps" and a: "a \<in> set (head # ps)"
  then obtain xs ys where "head # ps = xs @ a # ys" by (meson split_list)
  then have "head # ps @ [head] = xs @ a # ys @ [head]" by simp
  then have "successively (link h) (a # ys @ [head])" using r by (metis ring_def successively_append_iff)
  then obtain b where "link h a b" by (cases ys) auto
  then show "a \<in> dom h" by (auto simp: link_def next_of_def)
qed

lemma ring_tail:
  assumes "ring h head (xs @ ys)"
  shows "successively (link h) (ys @ [head])"
proof -
  have "successively (link h) ((head # xs) @ (ys @ [head]))" using assms by (simp add: ring_def)
  then show ?thesis by (simp only: successively_append_iff)
qed

lemma ring_next: "ring h head ps \<Longrightarrow> next_of h head = Some (hd (ps @ [head]))"
  by (cases ps) (auto simp: ring_def link_def)

lemma ring_first:
  assumes "ring h head ps"
  shows "\<exists>l. deref h head = Inr l \<and> lh_next l = hd (ps @ [head])"
  using assms ring_next [OF assms] by (auto simp: deref_def next_of_def ring_def)

lemma list_empty_ring: "ring h head ps \<Longrightarrow> list_empty head h = Inr (ps = [])"
  using ring_first [of h head ps] by (cases ps) (auto simp: list_empty_def ring_def)

lemma INIT_LIST_HEAD_ring:
  assumes p: "p \<noteq> 0" "p \<in> dom h"
  shows "\<exists>h'. INIT_LIST_HEAD p h = Inr h' \<and> ring h' p [] \<and> dom h' = dom h"
proof -
  obtain h1 where h1: "set_next p p h = Inr h1" "dom h1 = dom h" "\<forall>a. next_of h1 a = (if a = p then Some p else next_of h a)"
    using set_next_Inr [OF p refl, of p] by blast
  then show ?thesis
    using set_prev_Inr [OF p h1(2), of p] p by (auto simp: INIT_LIST_HEAD_def ring_def link_def)
qed

text \<open>Adding puts the new node first, also into an empty list, where the head is its own neighbour.\<close>

lemma list_add_between_heap:
  assumes "new \<noteq> 0" "prev \<noteq> 0" "next \<noteq> 0" "new \<in> dom h" "prev \<in> dom h" "next \<in> dom h" "new \<noteq> prev" "new \<noteq> next"
  shows "\<exists>h'. list_add_between new prev next h = Inr h' \<and> dom h' = dom h \<and>
    (\<forall>a. next_of h' a = (if a = prev then Some new else if a = new then Some next else next_of h a)) \<and>
    (\<forall>a. prev_of h' a = (if a = next then Some new else if a = new then Some prev else prev_of h a))"
proof -
  obtain h1 where h1: "set_prev next new h = Inr h1" "dom h1 = dom h" "\<forall>a. next_of h1 a = next_of h a"
    "\<forall>a. prev_of h1 a = (if a = next then Some new else prev_of h a)"
    using set_prev_Inr [OF assms(3,6) refl] by blast
  obtain h2 where h2: "set_next new next h1 = Inr h2" "dom h2 = dom h" "\<forall>a. prev_of h2 a = prev_of h1 a"
    "\<forall>a. next_of h2 a = (if a = new then Some next else next_of h1 a)"
    using set_next_Inr [OF assms(1,4) h1(2)] by blast
  obtain h3 where h3: "set_prev new prev h2 = Inr h3" "dom h3 = dom h" "\<forall>a. next_of h3 a = next_of h2 a"
    "\<forall>a. prev_of h3 a = (if a = new then Some prev else prev_of h2 a)"
    using set_prev_Inr [OF assms(1,4) h2(2)] by blast
  obtain h4 where "set_next prev new h3 = Inr h4" "dom h4 = dom h" "\<forall>a. prev_of h4 a = prev_of h3 a"
    "\<forall>a. next_of h4 a = (if a = prev then Some new else next_of h3 a)"
    using set_next_Inr [OF assms(2,5) h3(2)] by blast
  with h1 h2 h3 show ?thesis
    using assms(7,8) by (auto simp: list_add_between_def)
qed

lemma list_add_ring:
  assumes r: "ring h head ps" and new: "new \<notin> set (head # ps)" "new \<noteq> 0" "new \<in> dom h"
  shows "\<exists>h'. list_add new head h = Inr h' \<and> ring h' head (new # ps) \<and> dom h' = dom h"
proof -
  let ?next = "hd (ps @ [head])"
  have mem: "?next \<in> set (head # ps)" by (cases ps) auto
  have in_head: "head \<in> set (head # ps)" "0 \<notin> set (head # ps)" using r by (auto simp: ring_def)
  have nz: "head \<noteq> 0" "?next \<noteq> 0" using in_head mem by metis+
  have dm: "head \<in> dom h" "?next \<in> dom h" using in_head mem ring_dom [OF r] by (meson subsetD)+
  have ne: "new \<noteq> head" "new \<noteq> ?next" using in_head mem new(1) by metis+
  obtain h' where h': "list_add_between new head ?next h = Inr h'" "dom h' = dom h"
    "\<forall>a. next_of h' a = (if a = head then Some new else if a = new then Some ?next else next_of h a)"
    "\<forall>a. prev_of h' a = (if a = ?next then Some new else if a = new then Some head else prev_of h a)"
    using list_add_between_heap [OF new(2) nz new(3) dm ne] by blast
  have d: "distinct (head # ps)" using r by (simp add: ring_def)
  have "successively (link h') (ps @ [head]) = successively (link h) (ps @ [head])"
    using new d by (intro successively_link_cong) (cases ps; auto simp: h'(3,4) butlast_append)+
  then have "successively (link h') (ps @ [head])" using ring_tail [of h head "[]" ps] r by simp
  moreover have "link h' head new" "link h' new ?next" using ne by (auto simp: link_def h'(3,4))
  ultimately have "successively (link h') (head # (new # ps) @ [head])" by (cases ps) auto
  then show ?thesis
    using ring_first [OF r] h'(1,2) r new by (auto simp: list_add_def ring_def)
qed

text \<open>Deleting a node links its neighbours to each other.\<close>

lemma list_del_ring:
  assumes r: "ring h head (xs @ x # ys)"
  shows "\<exists>h'. list_del x h = Inr h' \<and> ring h' head (xs @ ys) \<and> dom h' = dom h"
proof -
  let ?p = "last (head # xs)" and ?n = "hd (ys @ [head])"
  have s: "successively (link h) ((head # xs) @ x # ys @ [head])" using r by (simp add: ring_def)
  then have l: "successively (link h) (head # xs)" "successively (link h) (x # ys @ [head])" "link h ?p x"
    unfolding successively_append_iff [of _ "head # xs"] by simp_all
  then have l': "link h x ?n" "successively (link h) (ys @ [head])" by (simp_all add: successively_Cons)
  have mem: "?p \<in> set (head # xs)" "?n \<in> set (ys @ [head])" by (cases ys; simp)+
  have d: "distinct (head # xs @ x # ys)" "0 \<notin> set (head # xs @ x # ys)" using r by (auto simp: ring_def)
  have dm: "?p \<in> dom h" "?n \<in> dom h" "x \<in> dom h" using ring_dom [OF r] mem by auto
  have nz: "?p \<noteq> 0" "?n \<noteq> 0" "x \<noteq> 0" using mem d(2) by auto
  obtain c where c: "deref h x = Inr c" "lh_prev c = ?p" "lh_next c = ?n"
    using l(3) l'(1) d(2) by (auto simp: link_def next_of_def prev_of_def deref_def)
  obtain h1 where h1: "set_prev ?n ?p h = Inr h1" "dom h1 = dom h" "\<forall>a. next_of h1 a = next_of h a"
    "\<forall>a. prev_of h1 a = (if a = ?n then Some ?p else prev_of h a)"
    using set_prev_Inr [OF nz(2) dm(2) refl] by blast
  obtain h2 where h2: "set_next ?p ?n h1 = Inr h2" "dom h2 = dom h" "\<forall>a. prev_of h2 a = prev_of h1 a"
    "\<forall>a. next_of h2 a = (if a = ?p then Some ?n else next_of h1 a)"
    using set_next_Inr [OF nz(1) dm(1) h1(2)] by blast
  obtain h3 where h3: "set_next x 0 h2 = Inr h3" "dom h3 = dom h" "\<forall>a. prev_of h3 a = prev_of h2 a"
    "\<forall>a. next_of h3 a = (if a = x then Some 0 else next_of h2 a)"
    using set_next_Inr [OF nz(3) dm(3) h2(2)] by blast
  obtain h4 where h4: "set_prev x 0 h3 = Inr h4" "dom h4 = dom h" "\<forall>a. next_of h4 a = next_of h3 a"
    "\<forall>a. prev_of h4 a = (if a = x then Some 0 else prev_of h3 a)"
    using set_prev_Inr [OF nz(3) dm(3) h3(2)] by blast
  have "successively (link h4) (head # xs) = successively (link h) (head # xs)"
  proof (rule successively_link_cong)
    fix a assume "a \<in> set (butlast (head # xs))"
    moreover have "?p \<notin> set (butlast (head # xs))" using d(1)
      by (metis append_butlast_last_id distinct_append distinct.simps(2) append_Cons list.distinct(1) not_distinct_conv_prefix)
    ultimately have "a \<noteq> ?p" "a \<noteq> x" using d(1) in_set_butlastD [of a "head # xs"] by auto
    then show "next_of h4 a = next_of h a" using h1(3) h2(4) h3(4) h4(3) by simp
  next
    fix a assume "a \<in> set (tl (head # xs))"
    then have "a \<noteq> ?n" "a \<noteq> x" using d(1) by (cases ys; auto)+
    then show "prev_of h4 a = prev_of h a" using h1(4) h2(3) h3(3) h4(4) by simp
  qed
  moreover have "successively (link h4) (ys @ [head]) = successively (link h) (ys @ [head])"
  proof (rule successively_link_cong)
    fix a assume "a \<in> set (butlast (ys @ [head]))"
    then have "a \<noteq> ?p" "a \<noteq> x" using d(1) mem(1) by auto
    then show "next_of h4 a = next_of h a" using h1(3) h2(4) h3(4) h4(3) by simp
  next
    fix a assume "a \<in> set (tl (ys @ [head]))"
    then have "a \<noteq> ?n" "a \<noteq> x" using d(1) by (cases ys; auto)+
    then show "prev_of h4 a = prev_of h a" using h1(4) h2(3) h3(3) h4(4) by simp
  qed
  moreover have "?p \<noteq> x" "?n \<noteq> x" using mem d(1) by auto
  then have "link h4 ?p ?n" using h1(4) h2(3,4) h3(3,4) h4(3,4) by (simp add: link_def)
  ultimately have "successively (link h4) ((head # xs) @ ys @ [head])"
    using l(1) l'(2) by (simp only: successively_append_iff) simp
  then have "ring h4 head (xs @ ys)" using d by (auto simp: ring_def)
  then show ?thesis
    using c h1(1) h2(1) h3(1) h4(1,2) by (simp add: list_del_def list_del_between_def)
qed

section \<open>The interceptor on linked lists\<close>

definition node_ok :: "'z registry_scheme \<Rightarrow> u64 \<Rightarrow> bool" where
  "node_ok st p \<longleftrightarrow> (\<exists>e h. nodes st p = Some e \<and> e \<noteq> 0 \<and> hook_entries st e = Some h)"

text \<open>The hooked address and the entry that a node stands for.\<close>

definition node_hook :: "'z registry_scheme \<Rightarrow> u64 \<Rightarrow> u64 \<times> u64" where
  "node_hook st p = (he_address (the (hook_entries st (the (nodes st p)))), the (nodes st p))"

definition registry_ok :: "'z registry_scheme \<Rightarrow> u64 list \<Rightarrow> bool" where
  "registry_ok st ps \<longleftrightarrow> ring (heads st) (priv_interceptor st) ps \<and> (\<forall>p \<in> set ps. node_ok st p)"

lemma find_from_ring:
  assumes "successively (link (heads st)) (ps @ [this])" "this \<notin> set ps" "0 \<notin> set ps" "\<forall>p \<in> set ps. node_ok st p"
  shows "find_from st this a (hd (ps @ [this])) =
    Some (Inr (case find (\<lambda>p. fst (node_hook st p) = a) ps of None \<Rightarrow> 0 | Some p \<Rightarrow> p))"
  using assms
proof (induction ps)
  case Nil
  then show ?case by (simp add: find_from.simps)
next
  case (Cons p ps)
  then have n: "next_of (heads st) p = Some (hd (ps @ [this]))" "p \<noteq> 0" "p \<noteq> this"
    and s: "successively (link (heads st)) (ps @ [this])"
    by (auto simp: successively_Cons link_def)
  obtain e h where e: "nodes st p = Some e" "e \<noteq> 0" "hook_entries st e = Some h"
    using Cons.prems by (auto simp: node_ok_def)
  obtain l where l: "heads st p = Some l" "lh_next l = hd (ps @ [this])" using n by (auto simp: next_of_def)
  have "find_from st this a (hd ((p # ps) @ [this])) =
      (if he_address h = a then Some (Inr p) else find_from st this a (hd (ps @ [this])))"
    using n e l by (subst find_from.simps) (simp add: deref_def)
  then show ?case using Cons e s by (simp add: node_hook_def)
qed

lemma count_from_ring:
  assumes "successively (link (heads st)) (ps @ [this])" "this \<notin> set ps" "0 \<notin> set ps"
  shows "count_from st this (hd (ps @ [this])) c = Some (Inr (c + word_of_nat (length ps)))"
  using assms
proof (induction ps arbitrary: c)
  case Nil
  then show ?case by (simp add: count_from.simps)
next
  case (Cons p ps)
  then have n: "next_of (heads st) p = Some (hd (ps @ [this]))" "p \<noteq> 0" "p \<noteq> this"
    and s: "successively (link (heads st)) (ps @ [this])"
    by (auto simp: successively_Cons link_def)
  obtain l where l: "heads st p = Some l" "lh_next l = hd (ps @ [this])" using n by (auto simp: next_of_def)
  have "count_from st this (hd ((p # ps) @ [this])) c = count_from st this (hd (ps @ [this])) (c + 1)"
    using n l by (subst count_from.simps) (simp add: deref_def)
  then show ?case using Cons s by simp
qed

lemma find_hook_entry_node_ring:
  assumes "registry_ok st ps"
  shows "find_hook_entry_node (priv_interceptor st) a st =
    Some (Inr (case find (\<lambda>p. fst (node_hook st p) = a) ps of None \<Rightarrow> 0 | Some p \<Rightarrow> p))"
proof -
  have r: "ring (heads st) (priv_interceptor st) ps" using assms by (simp add: registry_ok_def)
  obtain l where "deref (heads st) (priv_interceptor st) = Inr l" "lh_next l = hd (ps @ [priv_interceptor st])"
    using ring_first [OF r] by blast
  then show ?thesis
    using find_from_ring [of st ps "priv_interceptor st" a] ring_tail [of _ _ "[]" ps] r assms
    by (simp add: find_hook_entry_node_def registry_ok_def ring_def)
qed

lemma GetHookEntryCount_ring:
  assumes "registry_ok st ps"
  shows "GetHookEntryCount (priv_interceptor st) st = Some (Inr (word_of_nat (length ps)))"
proof -
  have r: "ring (heads st) (priv_interceptor st) ps" using assms by (simp add: registry_ok_def)
  obtain l where "deref (heads st) (priv_interceptor st) = Inr l" "lh_next l = hd (ps @ [priv_interceptor st])"
    using ring_first [OF r] by blast
  then show ?thesis
    using count_from_ring [of st ps "priv_interceptor st" 0] ring_tail [of _ _ "[]" ps] r
    by (simp add: GetHookEntryCount_def ring_def)
qed

section \<open>Hooks as a stack\<close>

text \<open>
  The abstract state is the list of pairs of a hooked address and its entry, the latest first. The
  latest entry of an address is the one that counts, and removing it uncovers the one before it.
\<close>

definition top_hook :: "u64 \<Rightarrow> (u64 \<times> u64) list \<Rightarrow> u64" where
  "top_hook a es = (case map_of es a of None \<Rightarrow> 0 | Some e \<Rightarrow> e)"

fun pop_hook :: "u64 \<Rightarrow> (u64 \<times> u64) list \<Rightarrow> (u64 \<times> u64) list" where
  "pop_hook a [] = []"
| "pop_hook a (x # es) = (if fst x = a then es else x # pop_hook a es)"

definition registry_rep :: "'z registry_scheme \<Rightarrow> (u64 \<times> u64) list \<Rightarrow> bool" where
  "registry_rep st es \<longleftrightarrow> (\<exists>ps. registry_ok st ps \<and> es = map (node_hook st) ps)"

lemma find_top:
  assumes "\<forall>p \<in> set ps. node_ok st p"
  shows "(case find (\<lambda>p. fst (node_hook st p) = a) ps of None \<Rightarrow> top_hook a (map (node_hook st) ps) = 0
     | Some p \<Rightarrow> p \<in> set ps \<and> nodes st p = Some (top_hook a (map (node_hook st) ps)))"
  using assms by (induction ps) (auto simp: top_hook_def node_ok_def node_hook_def split: option.splits)

lemma FindHookEntry_top:
  assumes "registry_rep st es"
  shows "FindHookEntry (priv_interceptor st) a st = Some (Inr (top_hook a es))"
proof -
  obtain ps where ps: "registry_ok st ps" "es = map (node_hook st) ps" using assms by (auto simp: registry_rep_def)
  have "0 \<notin> set ps" using ps(1) by (simp add: registry_ok_def ring_def)
  then show ?thesis
    using find_top [of ps st a] ps unfolding FindHookEntry_def find_hook_entry_node_ring [OF ps(1)]
    by (auto simp: registry_ok_def deref_def split: option.splits)
qed

lemma AddHookEntry_push:
  assumes "registry_rep st es" "entry_node \<noteq> 0" "entry_node \<notin> dom (heads st)" "entry \<noteq> 0" "hook_entries st entry = Some h"
  shows "\<exists>st'. AddHookEntry (priv_interceptor st) entry_node entry st = Inr st' \<and> registry_rep st' ((he_address h, entry) # es) \<and>
    dom (heads st') = insert entry_node (dom (heads st)) \<and>
    st' = st\<lparr>heads := heads st', nodes := (nodes st)(entry_node \<mapsto> entry)\<rparr>"
proof -
  obtain ps where ps: "registry_ok st ps" "es = map (node_hook st) ps" using assms(1) by (auto simp: registry_rep_def)
  let ?head = "priv_interceptor st" and ?h = "(heads st)(entry_node \<mapsto> \<lparr>lh_next = 0, lh_prev = 0\<rparr>)"
  have r: "ring (heads st) ?head ps" using ps by (simp add: registry_ok_def)
  have fresh: "entry_node \<notin> set (?head # ps)" using ring_dom [OF r] assms(3) by (meson subsetD)
  then have "successively (link ?h) (?head # ps @ [?head]) = successively (link (heads st)) (?head # ps @ [?head])"
    by (intro successively_link_cong) (auto simp: butlast_append split: if_splits)
  then have "ring ?h ?head ps" using r by (simp add: ring_def)
  then obtain h' where h': "list_add entry_node ?head ?h = Inr h'" "ring h' ?head (entry_node # ps)" "dom h' = insert entry_node (dom (heads st))"
    using list_add_ring [of ?h ?head ps entry_node] fresh assms(2) by auto
  let ?st = "st\<lparr>heads := h', nodes := (nodes st)(entry_node \<mapsto> entry)\<rparr>"
  have "node_ok ?st p" "node_hook ?st p = node_hook st p" if "p \<in> set ps" for p
    using that fresh ps(1) by (auto simp: node_ok_def node_hook_def registry_ok_def)
  then have "registry_ok ?st (entry_node # ps)" "map (node_hook ?st) (entry_node # ps) = (he_address h, entry) # es"
    using h'(2) ps assms(4,5) by (auto simp: registry_ok_def node_ok_def node_hook_def)
  then have "registry_rep ?st ((he_address h, entry) # es)" unfolding registry_rep_def by metis
  then show ?thesis using h' by (simp add: AddHookEntry_def)
qed

lemma pop_hook_map: "find (\<lambda>p. fst (f p) = a) ps = None \<Longrightarrow> pop_hook a (map f ps) = map f ps"
  by (induction ps) (auto split: if_splits)

lemma find_Some_split: "find P ps = Some p \<Longrightarrow> \<exists>xs ys. ps = xs @ p # ys \<and> P p \<and> (\<forall>x \<in> set xs. \<not> P x)"
proof (induction ps)
  case (Cons x ps)
  show ?case
  proof (cases "P x")
    case True
    then show ?thesis using Cons.prems by (intro exI [of _ "[]"] exI [of _ ps]) auto
  next
    case False
    then obtain xs ys where "ps = xs @ p # ys \<and> P p \<and> (\<forall>x \<in> set xs. \<not> P x)" using Cons by auto
    then show ?thesis using False by (intro exI [of _ "x # xs"] exI [of _ ys]) simp
  qed
qed simp

lemma pop_hook_split:
  "\<forall>x \<in> set xs. fst (f x) \<noteq> a \<Longrightarrow> fst (f p) = a \<Longrightarrow> pop_hook a (map f (xs @ p # ys)) = map f (xs @ ys)"
  by (induction xs) auto

lemma RemoveHookEntry_pop:
  assumes "registry_rep st es"
  shows "\<exists>st'. RemoveHookEntry (priv_interceptor st) a st = Some (Inr st') \<and> registry_rep st' (pop_hook a es) \<and>
    dom (heads st') = dom (heads st) \<and> st' = st\<lparr>heads := heads st'\<rparr>"
proof -
  obtain ps where ps: "registry_ok st ps" "es = map (node_hook st) ps" using assms by (auto simp: registry_rep_def)
  note find = find_hook_entry_node_ring [OF ps(1), of a]
  show ?thesis
  proof (cases "find (\<lambda>p. fst (node_hook st p) = a) ps")
    case None
    then show ?thesis using assms ps find pop_hook_map [OF None] by (simp add: RemoveHookEntry_def)
  next
    case (Some p)
    obtain xs ys where split: "ps = xs @ p # ys" "fst (node_hook st p) = a" "\<forall>x \<in> set xs. fst (node_hook st x) \<noteq> a"
      using find_Some_split [OF Some] by blast
    have r: "ring (heads st) (priv_interceptor st) (xs @ p # ys)" using ps split by (simp add: registry_ok_def)
    obtain h' where h': "list_del p (heads st) = Inr h'" "ring h' (priv_interceptor st) (xs @ ys)" "dom h' = dom (heads st)"
      using list_del_ring [OF r] by blast
    let ?st = "st\<lparr>heads := h'\<rparr>"
    have "node_hook ?st = node_hook st" by (simp add: node_hook_def fun_eq_iff)
    then have "registry_ok ?st (xs @ ys)" "map (node_hook ?st) (xs @ ys) = pop_hook a es"
      using h' ps split pop_hook_split [OF split(3,2)] by (auto simp: registry_ok_def node_ok_def)
    then have "registry_rep ?st (pop_hook a es)" unfolding registry_rep_def by metis
    moreover have "p \<noteq> 0" using r by (auto simp: ring_def)
    ultimately show ?thesis using h' find Some by (simp add: RemoveHookEntry_def)
  qed
qed

section \<open>Contract of the registry\<close>

datatype hook_op = Push u64 u64 | Pop u64

text \<open>
  \<open>Push n e\<close> adds the entry \<open>e\<close> with the node \<open>n\<close>, \<open>Pop a\<close> removes the hook of \<open>a\<close>. A sequence of
  operations is run on a concrete state and on a list of hooks; \<open>f\<close> gives the address of an entry.
\<close>

fun run_ops :: "(u64 \<Rightarrow> u64 \<Rightarrow> 's \<Rightarrow> 's res) \<Rightarrow> (u64 \<Rightarrow> 's \<Rightarrow> 's res option) \<Rightarrow> hook_op list \<Rightarrow> 's \<Rightarrow> 's res option" where
  "run_ops add remove [] s = Some (Inr s)"
| "run_ops add remove (Push n e # ops) s = (case add n e s of Inl f \<Rightarrow> Some (Inl f) | Inr s \<Rightarrow> run_ops add remove ops s)"
| "run_ops add remove (Pop a # ops) s =
    (case remove a s of None \<Rightarrow> None | Some (Inl f) \<Rightarrow> Some (Inl f) | Some (Inr s) \<Rightarrow> run_ops add remove ops s)"

fun stack_ops :: "(u64 \<Rightarrow> u64) \<Rightarrow> hook_op list \<Rightarrow> (u64 \<times> u64) list \<Rightarrow> (u64 \<times> u64) list" where
  "stack_ops f [] es = es"
| "stack_ops f (Push n e # ops) es = stack_ops f ops ((f e, e) # es)"
| "stack_ops f (Pop a # ops) es = stack_ops f ops (pop_hook a es)"

fun pushed :: "hook_op list \<Rightarrow> (u64 \<times> u64) list" where
  "pushed [] = []"
| "pushed (Push n e # ops) = (n, e) # pushed ops"
| "pushed (Pop a # ops) = pushed ops"

locale hook_stack =
  fixes rep :: "'s \<Rightarrow> (u64 \<times> u64) list \<Rightarrow> bool" and address_of :: "'s \<Rightarrow> u64 \<Rightarrow> u64" and usable :: "'s \<Rightarrow> u64 \<Rightarrow> u64 \<Rightarrow> bool"
    and lookup :: "u64 \<Rightarrow> 's \<Rightarrow> u64 res option" and add :: "u64 \<Rightarrow> u64 \<Rightarrow> 's \<Rightarrow> 's res" and remove :: "u64 \<Rightarrow> 's \<Rightarrow> 's res option"
  assumes lookup_law: "rep s es \<Longrightarrow> lookup a s = Some (Inr (top_hook a es))"
    and add_law: "rep s es \<Longrightarrow> usable s n e \<Longrightarrow> \<exists>s'. add n e s = Inr s' \<and> rep s' ((address_of s e, e) # es) \<and>
      address_of s' = address_of s \<and> (\<forall>n' e'. n' \<noteq> n \<longrightarrow> usable s n' e' \<longrightarrow> usable s' n' e')"
    and remove_law: "rep s es \<Longrightarrow> \<exists>s'. remove a s = Some (Inr s') \<and> rep s' (pop_hook a es) \<and>
      address_of s' = address_of s \<and> usable s' = usable s"
begin

lemma run_ops_refine:
  assumes "rep s es" "\<forall>(n, e) \<in> set (pushed ops). usable s n e" "distinct (map fst (pushed ops))"
  shows "\<exists>s'. run_ops add remove ops s = Some (Inr s') \<and> rep s' (stack_ops (address_of s) ops es)"
  using assms
proof (induction ops arbitrary: s es)
  case (Cons op ops)
  show ?case
  proof (cases op)
    case (Push n e)
    obtain s1 where s1: "add n e s = Inr s1" "rep s1 ((address_of s e, e) # es)" "address_of s1 = address_of s"
      "\<forall>n' e'. n' \<noteq> n \<longrightarrow> usable s n' e' \<longrightarrow> usable s1 n' e'"
      using add_law [OF Cons.prems(1), of n e] Cons.prems(2) Push by auto
    have "\<forall>(n', e') \<in> set (pushed ops). usable s1 n' e'"
      using Cons.prems(2,3) s1(4) Push by (fastforce simp: image_iff)
    then show ?thesis using Cons.IH [OF s1(2)] Cons.prems(3) s1 Push by simp
  next
    case (Pop a)
    obtain s1 where s1: "remove a s = Some (Inr s1)" "rep s1 (pop_hook a es)" "address_of s1 = address_of s" "usable s1 = usable s"
      using remove_law [OF Cons.prems(1)] by blast
    then show ?thesis using Cons.IH [OF s1(2)] Cons.prems Pop by simp
  qed
qed simp

text \<open>What a client sees after adding a hook, and after adding and removing one.\<close>

lemma lookup_after_add:
  assumes "rep s es" "usable s n e"
  shows "\<exists>s'. add n e s = Inr s' \<and> lookup (address_of s e) s' = Some (Inr e) \<and>
    (\<forall>a. a \<noteq> address_of s e \<longrightarrow> lookup a s' = lookup a s)"
  using add_law [OF assms] lookup_law assms(1) by (fastforce simp: top_hook_def)

lemma remove_after_add:
  assumes "rep s es" "usable s n e"
  shows "\<exists>s' s''. add n e s = Inr s' \<and> remove (address_of s e) s' = Some (Inr s'') \<and> (\<forall>a. lookup a s'' = lookup a s)"
proof -
  obtain s' where s': "add n e s = Inr s'" "rep s' ((address_of s e, e) # es)" using add_law [OF assms] by blast
  then show ?thesis
    using remove_law [OF s'(2), of "address_of s e"] lookup_law assms(1) by fastforce
qed

end

definition entry_address :: "'z registry_scheme \<Rightarrow> u64 \<Rightarrow> u64" where
  "entry_address st e = he_address (the (hook_entries st e))"

text \<open>A node that \<^verbatim>\<open>new\<close> can return and an entry that is in the store.\<close>

definition usable_hook :: "'z registry_scheme \<Rightarrow> u64 \<Rightarrow> u64 \<Rightarrow> bool" where
  "usable_hook st n e \<longleftrightarrow> n \<noteq> 0 \<and> n \<notin> dom (heads st) \<and> e \<noteq> 0 \<and> e \<in> dom (hook_entries st)"

interpretation interceptor: hook_stack registry_rep entry_address usable_hook
  "\<lambda>a st. FindHookEntry (priv_interceptor st) a st"
  "\<lambda>n e st. AddHookEntry (priv_interceptor st) n e st"
  "\<lambda>a st. RemoveHookEntry (priv_interceptor st) a st"
proof
  fix st :: "'z registry_scheme" and es n e
  assume rep: "registry_rep st es" and use: "usable_hook st n e"
  then obtain h where h: "hook_entries st e = Some h" by (auto simp: usable_hook_def)
  then obtain st' where "AddHookEntry (priv_interceptor st) n e st = Inr st'"
    "registry_rep st' ((he_address h, e) # es)" "dom (heads st') = insert n (dom (heads st))"
    "st' = st\<lparr>heads := heads st', nodes := (nodes st)(n \<mapsto> e)\<rparr>"
    using AddHookEntry_push [OF rep _ _ _ h, of n] use unfolding usable_hook_def by blast
  moreover from this(4) have "hook_entries st' = hook_entries st" by (metis registry.select_convs(3) registry.surjective registry.update_convs(1,2))
  ultimately show "\<exists>s'. AddHookEntry (priv_interceptor st) n e st = Inr s' \<and> registry_rep s' ((entry_address st e, e) # es) \<and>
      entry_address s' = entry_address st \<and> (\<forall>n' e'. n' \<noteq> n \<longrightarrow> usable_hook st n' e' \<longrightarrow> usable_hook s' n' e')"
    using h by (auto simp: entry_address_def usable_hook_def fun_eq_iff)
next
  fix st :: "'z registry_scheme" and es a
  assume "registry_rep st es"
  then obtain st' where "RemoveHookEntry (priv_interceptor st) a st = Some (Inr st')" "registry_rep st' (pop_hook a es)"
    "dom (heads st') = dom (heads st)" "st' = st\<lparr>heads := heads st'\<rparr>"
    using RemoveHookEntry_pop by blast
  moreover from this(4) have "hook_entries st' = hook_entries st" by (metis registry.select_convs(3) registry.surjective registry.update_convs(1))
  ultimately show "\<exists>s'. RemoveHookEntry (priv_interceptor st) a st = Some (Inr s') \<and> registry_rep s' (pop_hook a es) \<and>
      entry_address s' = entry_address st \<and> usable_hook s' = usable_hook st"
    by (auto simp: entry_address_def usable_hook_def fun_eq_iff)
qed (rule FindHookEntry_top)

text \<open>The first call of \<^verbatim>\<open>SharedInstance\<close> makes an interceptor without hooks, later calls return it.\<close>

lemma SharedInstance_first:
  assumes "priv_interceptor st = 0" "p \<noteq> 0"
  shows "\<exists>st'. SharedInstance p st = Inr (p, st') \<and> priv_interceptor st' = p \<and> registry_rep st' [] \<and>
    dom (heads st') = insert p (dom (heads st)) \<and> st' = st\<lparr>priv_interceptor := p, heads := heads st'\<rparr>"
proof -
  let ?h = "(heads st)(p \<mapsto> \<lparr>lh_next = 0, lh_prev = 0\<rparr>)"
  obtain h' where "INIT_LIST_HEAD p ?h = Inr h'" "ring h' p []" "dom h' = dom ?h"
    using INIT_LIST_HEAD_ring [of p ?h] assms(2) by auto
  then show ?thesis
    using assms(1) by (auto simp: SharedInstance_def registry_rep_def registry_ok_def)
qed

lemma SharedInstance_later: "priv_interceptor st \<noteq> 0 \<Longrightarrow> SharedInstance p st = Inr (priv_interceptor st, st)"
  by (simp add: SharedInstance_def)

lemma GetHookEntryCount_rep:
  "registry_rep st es \<Longrightarrow> GetHookEntryCount (priv_interceptor st) st = Some (Inr (word_of_nat (length es)))"
  by (auto simp: registry_rep_def GetHookEntryCount_ring)

section \<open>Properties\<close>

text \<open>
  C33. The registry of hooks implements a stack of hooks per address: after any sequence of additions, with
  nodes as \<^verbatim>\<open>new\<close> returns them, and removals, in any order, none of which faults or runs forever, a
  lookup of an address returns its latest entry that was added and not removed, and the null
  pointer when there is none, and the count is the number of hooks added and not removed.
\<close>

theorem registry_refines_stack:
  assumes "registry_rep st es" "\<forall>(n, e) \<in> set (pushed ops). usable_hook st n e" "distinct (map fst (pushed ops))"
  shows "\<exists>st'. run_ops (\<lambda>n e st. AddHookEntry (priv_interceptor st) n e st) (\<lambda>a st. RemoveHookEntry (priv_interceptor st) a st) ops st =
      Some (Inr st') \<and>
    (\<forall>a. FindHookEntry (priv_interceptor st') a st' = Some (Inr (top_hook a (stack_ops (entry_address st) ops es)))) \<and>
    GetHookEntryCount (priv_interceptor st') st' = Some (Inr (word_of_nat (length (stack_ops (entry_address st) ops es))))"
  using interceptor.run_ops_refine [OF assms] FindHookEntry_top GetHookEntryCount_rep by blast

definition wit_entry :: "u64 \<Rightarrow> HookEntry" where
  "wit_entry a = \<lparr>he_id = 0, he_type = kFunctionInlineHook, he_address = a, he_route = 0, he_relocated = 0,
     he_chunk = \<lparr>ck_address = 0, ck_length = 0\<rparr>, he_chunk_buffer = replicate 64 0\<rparr>"

definition wit_registry :: registry where
  "wit_registry = \<lparr>heads = [0x10 \<mapsto> \<lparr>lh_next = 0x10, lh_prev = 0x10\<rparr>], nodes = Map.empty,
     hook_entries = [0x100 \<mapsto> wit_entry 0x4000, 0x200 \<mapsto> wit_entry 0x4000, 0x300 \<mapsto> wit_entry 0x5000], priv_interceptor = 0x10\<rparr>"

lemma wit_registry_rep: "registry_rep wit_registry []"
  by (simp add: registry_rep_def registry_ok_def ring_def link_def next_of_def prev_of_def wit_registry_def)

theorem registry_refines_stack_witness:
  "\<exists>st'. run_ops (\<lambda>n e st. AddHookEntry (priv_interceptor st) n e st) (\<lambda>a st. RemoveHookEntry (priv_interceptor st) a st)
       [Push 0x20 0x100, Push 0x30 0x300, Push 0x40 0x200, Pop 0x4000] wit_registry = Some (Inr st') \<and>
     FindHookEntry (priv_interceptor st') 0x4000 st' = Some (Inr 0x100) \<and> GetHookEntryCount (priv_interceptor st') st' = Some (Inr 2)"
proof -
  let ?ops = "[Push 0x20 0x100, Push 0x30 0x300, Push 0x40 0x200, Pop 0x4000]"
  have "\<forall>(n, e) \<in> set (pushed ?ops). usable_hook wit_registry n e" "distinct (map fst (pushed ?ops))"
    by (simp_all add: usable_hook_def wit_registry_def)
  from registry_refines_stack [OF wit_registry_rep this] show ?thesis
    by (auto simp: wit_registry_def entry_address_def wit_entry_def top_hook_def)
qed

end
