(* ===== verification/Hook_Engine.thy ===== *)
theory Hook_Engine
  imports Hook_Registry Near_Arena X64_Relocation
begin

text \<open>
  Installing and removing a hook on x64: \<^verbatim>\<open>InterceptRouting.cpp\<close>, \<^verbatim>\<open>function-inline-replace.cc\<close>,
  \<^verbatim>\<open>DobbyHook\<close>, \<^verbatim>\<open>DobbyDestroy\<close>, the routing plugins and the near-branch plugin, composed from the
  registry, the allocators, the relocation, the trampolines and the code patching of the other theories.
  A result \<^const>\<open>None\<close> is a run that does not end. The relocation reads the code to be relocated as
  it is when the relocation starts: the mapping of a fresh page does not change it.
\<close>

section \<open>State\<close>

text \<open>
  A routing of the class \<^verbatim>\<open>FunctionInlineReplaceRouting\<close>. The constructor leaves \<^verbatim>\<open>origin_\<close> unset, the
  other pointers are null.
\<close>

record Routing =
  rt_entry :: u64
  rt_origin :: "MemoryChunk option"
  rt_trampoline_buffer :: "bytes option"
  rt_trampoline_target :: u64
  rt_replace_call :: u64

text \<open>
  The objects of the library and the memory of the process. \<open>near_branch_trampoline\<close> is the pointer to the
  plugin, null when it is off, and \<open>plugins\<close> the content of the array of plugins, none before the first is
  registered; that an array with memory to grow behaves as its
  list of objects is shown in \<^verbatim>\<open>Lite_Containers\<close>.
\<close>

record 'k dobby = registry +
  routes :: "u64 \<rightharpoonup> Routing"
  code_pages :: "PageChunk list option"
  near_pages :: "PageChunk list option"
  near_branch_trampoline :: u64
  plugins :: "u64 list option"
  memory :: "'k vmem"

text \<open>The addresses that \<^verbatim>\<open>new\<close> returns during a call of \<^verbatim>\<open>DobbyHook\<close>.\<close>

record new_objects =
  new_interceptor :: u64
  new_entry :: u64
  new_route :: u64
  new_node :: u64

datatype RetStatus = RS_FAILED | RS_SUCCESS

definition bindo :: "'a res option \<Rightarrow> ('a \<Rightarrow> 'b res option) \<Rightarrow> 'b res option" where
  "bindo m f = (case m of None \<Rightarrow> None | Some (Inl e) \<Rightarrow> Some (Inl e) | Some (Inr x) \<Rightarrow> f x)"

lemma bindo_simps [simp]: "bindo None f = None" "bindo (Some (Inl e)) f = Some (Inl e)" "bindo (Some (Inr x)) f = f x"
  by (simp_all add: bindo_def)

lemma bindo_Inr_iff: "bindo m f = Some (Inr y) \<longleftrightarrow> (\<exists>x. m = Some (Inr x) \<and> f x = Some (Inr y))"
  by (auto simp: bindo_def split: option.splits sum.splits)

section \<open>Plugins\<close>

definition registerPlugin :: "u64 \<Rightarrow> 'k dobby \<Rightarrow> 'k dobby" where
  "registerPlugin plugin st =
    st\<lparr>plugins := Some ((case plugins st of None \<Rightarrow> [] | Some ps \<Rightarrow> ps) @ [plugin])\<rparr>"

definition dobby_enable_near_branch_trampoline :: "u64 \<Rightarrow> 'k dobby \<Rightarrow> 'k dobby" where
  "dobby_enable_near_branch_trampoline plugin st = (registerPlugin plugin st)\<lparr>near_branch_trampoline := plugin\<rparr>"

definition dobby_disable_near_branch_trampoline :: "'k dobby \<Rightarrow> 'k dobby" where
  "dobby_disable_near_branch_trampoline st = st\<lparr>near_branch_trampoline := 0\<rparr>"

section \<open>Trampolines\<close>

text \<open>
  \<^verbatim>\<open>GenerateNormalTrampolineBuffer\<close> with its allocation and the store to the stub.
\<close>

definition normal_trampoline :: "'k sys \<Rightarrow> u64 \<Rightarrow> u64 \<Rightarrow> 'k dobby \<Rightarrow> (bytes \<times> 'k dobby) res option" where
  "normal_trampoline sys from_addr to_addr st =
    bindo (near_AllocateDataChunk False sys from_addr (2 * 1024 * 1024 * 1024) 8 (near_pages st, memory st)) (\<lambda>(c, pages, m).
    Some (bindr (x64_GenerateNormalTrampolineBuffer (\<lambda>_ _ _. map_option ck_address c) from_addr to_addr) (\<lambda>(code, branch_stub, target).
    bindr (vm_memcpy branch_stub (le_bytes 8 target) m) (\<lambda>m.
    Inr (code, st\<lparr>near_pages := pages, memory := m\<rparr>)))))"

text \<open>
  \<^verbatim>\<open>InterceptRouting::GenerateTrampolineBuffer\<close> and the method of the near-branch plugin that it calls,
  which gives no buffer on x64.
\<close>

definition plugin_GenerateTrampolineBuffer :: "u64 \<Rightarrow> u64 \<Rightarrow> Routing \<Rightarrow> bool \<times> Routing" where
  "plugin_GenerateTrampolineBuffer src dst route =
    (case x64_GenerateNearTrampolineBuffer src dst of
       None \<Rightarrow> (False, route)
     | Some trampoline_buffer \<Rightarrow> (True, route\<lparr>rt_trampoline_buffer := Some trampoline_buffer\<rparr>))"

definition GenerateTrampolineBuffer :: "'k sys \<Rightarrow> u64 \<Rightarrow> u64 \<Rightarrow> Routing \<Rightarrow> 'k dobby \<Rightarrow> (Routing \<times> 'k dobby) res option" where
  "GenerateTrampolineBuffer sys src dst route st =
    (let route = (if near_branch_trampoline st \<noteq> 0 then snd (plugin_GenerateTrampolineBuffer src dst route) else route) in
     if rt_trampoline_buffer route = None
     then bindo (normal_trampoline sys src dst st) (\<lambda>(trampoline_buffer, st).
            Some (Inr (route\<lparr>rt_trampoline_buffer := Some trampoline_buffer\<rparr>, st)))
     else Some (Inr (route, st)))"

definition BuildReplaceRouting :: "'k sys \<Rightarrow> HookEntry \<Rightarrow> Routing \<Rightarrow> 'k dobby \<Rightarrow> (Routing \<times> 'k dobby) res option" where
  "BuildReplaceRouting sys entry route st =
    (let route = route\<lparr>rt_trampoline_target := rt_replace_call route\<rparr> in
     GenerateTrampolineBuffer sys (he_address entry) (rt_trampoline_target route) route st)"

section \<open>Relocated code\<close>

text \<open>
  \<^verbatim>\<open>GenRelocateCodeAndBranch\<close> with the code written to its chunk by \<^verbatim>\<open>FinalizeFromTurboAssembler\<close>, which
  has the address of the chunk as its realized address.
\<close>

definition relocate :: "'k sys \<Rightarrow> u64 \<Rightarrow> MemoryChunk \<Rightarrow> MemoryChunk \<Rightarrow> 'k dobby \<Rightarrow> (MemoryChunk \<times> MemoryChunk \<times> 'k dobby) res option" where
  "relocate sys buffer origin relocated st =
    bindo (x64_GenRelocateCodeAndBranch (sys_api sys) (vm_bytes (memory st)) buffer origin relocated (code_pages st, memory st))
      (\<lambda>(origin, relocated, code, pages, m).
       case code of
         None \<Rightarrow> Some (Inr (origin, relocated, st\<lparr>code_pages := pages, memory := m\<rparr>))
       | Some code \<Rightarrow>
           Some (bindr (FinalizeFromTurboAssembler 0 (sys_api sys) (sys_mprotect sys) code (raw_instruction_start relocated) (pages, m))
             (\<lambda>(_, _, pages, m). Inr (origin, relocated, st\<lparr>code_pages := pages, memory := m\<rparr>))))"

text \<open>The copy of the original code goes to an array of 64 bytes.\<close>

definition GenerateRelocatedCode ::
  "'k sys \<Rightarrow> int \<Rightarrow> HookEntry \<Rightarrow> Routing \<Rightarrow> 'k dobby \<Rightarrow> (bool \<times> HookEntry \<times> Routing \<times> 'k dobby) res option" where
  "GenerateRelocatedCode sys tramp_size entry route st =
    bindo (relocate sys (he_address entry) (FinalizeFromAddress (he_address entry) tramp_size) (FinalizeFromAddress 0 0) st)
      (\<lambda>(origin, relocated, st).
       let route = route\<lparr>rt_origin := Some origin\<rparr> in
       if raw_instruction_start relocated = 0 then Some (Inr (False, entry, route, st))
       else if 64 < raw_instruction_size origin then Some (Inl OutOfBounds)
       else
         (let saved = ld (unat (raw_instruction_size origin)) (vm_bytes (memory st)) (raw_instruction_start origin);
              entry = entry\<lparr>he_relocated := raw_instruction_start relocated,
                he_chunk_buffer := saved @ drop (length saved) (he_chunk_buffer entry),
                he_chunk := init_region_range (raw_instruction_start origin) (raw_instruction_size origin)\<rparr> in
          Some (Inr (True, entry, route, st))))"

text \<open>The result of \<^verbatim>\<open>GenerateRelocatedCode\<close> is ignored.\<close>

definition DispatchRouting :: "'k sys \<Rightarrow> HookEntry \<Rightarrow> Routing \<Rightarrow> 'k dobby \<Rightarrow> (HookEntry \<times> Routing \<times> 'k dobby) res option" where
  "DispatchRouting sys entry route st =
    bindo (BuildReplaceRouting sys entry route st) (\<lambda>(route, st).
    case rt_trampoline_buffer route of
      None \<Rightarrow> Some (Inl NullPointer)
    | Some trampoline_buffer \<Rightarrow>
        bindo (GenerateRelocatedCode sys (int (length trampoline_buffer)) entry route st) (\<lambda>(_, entry, route, st).
        Some (Inr (entry, route, st))))"

definition Active :: "'k sys \<Rightarrow> Routing \<Rightarrow> 'k dobby \<Rightarrow> 'k dobby res" where
  "Active sys route st =
    (case (rt_origin route, rt_trampoline_buffer route) of
       (Some origin, Some trampoline_buffer) \<Rightarrow>
         bindr (CodePatch (os_page_size (sys_api sys)) (sys_mprotect sys) (raw_instruction_start origin) trampoline_buffer (memory st))
           (\<lambda>m. Inr (st\<lparr>memory := m\<rparr>))
     | _ \<Rightarrow> Inl NullPointer)"

definition Commit :: "'k sys \<Rightarrow> Routing \<Rightarrow> 'k dobby \<Rightarrow> 'k dobby res" where
  "Commit = Active"

section \<open>The interface\<close>

text \<open>
  The entry found for an address that has a hook already, when its routing has the same target.
\<close>

definition already_hooked :: "u64 \<Rightarrow> u64 \<Rightarrow> 'k dobby \<Rightarrow> bool res" where
  "already_hooked entry replace_call st =
    (if entry = 0 then Inr False
     else bindr (deref (hook_entries st) entry) (\<lambda>h.
          bindr (deref (routes st) (he_route h)) (\<lambda>route. Inr (rt_trampoline_target route = replace_call))))"

definition new_hook_entry :: "u32 \<Rightarrow> u64 \<Rightarrow> u64 \<Rightarrow> HookEntry" where
  "new_hook_entry i address route = \<lparr>he_id = i, he_type = kFunctionInlineHook, he_address = address, he_route = route, he_relocated = 0,
     he_chunk = \<lparr>ck_address = 0, ck_length = 0\<rparr>, he_chunk_buffer = replicate 64 0\<rparr>"

definition FunctionInlineReplaceRouting :: "u64 \<Rightarrow> u64 \<Rightarrow> Routing" where
  "FunctionInlineReplaceRouting entry replace_call = \<lparr>rt_entry = entry, rt_origin = None, rt_trampoline_buffer = None,
     rt_trampoline_target = 0, rt_replace_call = replace_call\<rparr>"

text \<open>
  The results are the status, the value stored through \<^verbatim>\<open>origin_call\<close>, if any, and the state. The objects of
  the call are stored in the heap when their fields are final.
\<close>

definition DobbyHook :: "'k sys \<Rightarrow> new_objects \<Rightarrow> u64 \<Rightarrow> u64 \<Rightarrow> 'k dobby \<Rightarrow> (RetStatus \<times> u64 option \<times> 'k dobby) res option" where
  "DobbyHook sys new address replace_call st =
    (if address = 0 then Some (Inr (RS_FAILED, None, st))
     else
       bindo (Some (SharedInstance (new_interceptor new) st)) (\<lambda>(this, st).
       bindo (FindHookEntry this address st) (\<lambda>found.
       bindo (Some (already_hooked found replace_call st)) (\<lambda>hooked.
       if hooked then Some (Inr (RS_FAILED, None, st))
       else
         bindo (GetHookEntryCount this st) (\<lambda>count.
         bindo (DispatchRouting sys (new_hook_entry count address (new_route new))
                  (FunctionInlineReplaceRouting (new_entry new) replace_call) st) (\<lambda>(entry, route, st).
         let st = st\<lparr>hook_entries := (hook_entries st)(new_entry new \<mapsto> entry), routes := (routes st)(new_route new \<mapsto> route)\<rparr> in
         bindo (Some (AddHookEntry this (new_node new) (new_entry new) st)) (\<lambda>st.
         bindo (Some (Commit sys route st)) (\<lambda>st.
         Some (Inr (RS_SUCCESS, Some (he_relocated entry), st))))))))))"

definition DobbyDestroy :: "'k sys \<Rightarrow> u64 \<Rightarrow> u64 \<Rightarrow> 'k dobby \<Rightarrow> (RetStatus \<times> 'k dobby) res option" where
  "DobbyDestroy sys new_int address st =
    bindo (Some (SharedInstance new_int st)) (\<lambda>(this, st).
    bindo (FindHookEntry this address st) (\<lambda>found.
    if found = 0 then Some (Inr (RS_FAILED, st))
    else
      bindo (Some (deref (hook_entries st) found)) (\<lambda>entry.
      let buffer_size = unat (ucast (ck_length (he_chunk entry)) :: u32) in
      if length (he_chunk_buffer entry) < buffer_size then Some (Inl OutOfBounds)
      else
        bindo (Some (CodePatch (os_page_size (sys_api sys)) (sys_mprotect sys) address (take buffer_size (he_chunk_buffer entry)) (memory st)))
          (\<lambda>m. bindo (RemoveHookEntry this address (st\<lparr>memory := m\<rparr>)) (\<lambda>st. Some (Inr (RS_SUCCESS, st)))))))"

section \<open>The relocation and its arena\<close>

text \<open>
  \<open>relocatable m o n i\<close>: the code of the chunk \<open>o\<close> can be relocated, \<open>i\<close> bytes of it to \<open>n\<close> bytes.
\<close>

definition relocatable :: "(u64 \<Rightarrow> u8) \<Rightarrow> u64 \<Rightarrow> MemoryChunk \<Rightarrow> nat \<Rightarrow> nat \<Rightarrow> bool" where
  "relocatable m buffer origin n i \<longleftrightarrow> unat (ck_length origin) \<le> 2 ^ 20 \<and> i \<le> 2 ^ 20 \<and>
    (\<exists>ip t. fixed_loop m buffer (ck_address origin) (unat (ck_length origin)) 0 = Inr (i, ip, t) \<and> length (x64_buf t) = n)"

lemma fixed_relocatable:
  assumes "relocatable m buffer origin n i"
  shows "\<exists>code. x64_GenRelocateCodeFixed m buffer origin relocated =
      Inr (\<lparr>ck_address = ck_address origin, ck_length = word_of_nat i\<rparr>,
        if (word_of_nat (n + 14) :: u64) > ck_length relocated then None else Some code) \<and> length code = n + 14"
proof -
  obtain ip t where t: "fixed_loop m buffer (ck_address origin) (unat (ck_length origin)) 0 = Inr (i, ip, t)" "length (x64_buf t) = n"
    and small: "unat (ck_length origin) < 2 ^ 31 - 20"
    using assms by (auto simp: relocatable_def)
  have "loop_shape (fixed_loop m buffer (ck_address origin) (unat (ck_length origin)) (ck_address relocated)) =
      loop_shape (fixed_loop m buffer (ck_address origin) (unat (ck_length origin)) 0)"
    unfolding fixed_loop_def by (rule loop_shape_independent) (simp add: x64_TurboAssembler_def)
  then obtain jp s where "fixed_loop m buffer (ck_address origin) (unat (ck_length origin)) (ck_address relocated) = Inr (i, jp, s)"
    "length (x64_buf s) = n"
    using t by (cases "fixed_loop m buffer (ck_address origin) (unat (ck_length origin)) (ck_address relocated)") (auto simp: loop_shape_def)
  then show ?thesis unfolding fixed_cases [OF small]
    by (intro exI [of _ "x64_buf s @ [0xff, 0x25, 0, 0, 0, 0] @ le_bytes 8 jp"]) (auto simp: Let_def)
qed

lemma relocatable_again:
  assumes "relocatable m buffer origin n i"
  shows "relocatable m buffer \<lparr>ck_address = ck_address origin, ck_length = word_of_nat i\<rparr> n i"
  using assms loop_again unfolding relocatable_def fixed_loop_def by (auto simp: unat_of_nat)

text \<open>
  The outcome of the retry loop for an arena with an invariant \<open>I\<close>, whose chunks satisfy \<open>J\<close>: nothing for want of
  memory, or the code in a chunk that is large enough.
\<close>

definition relocated_in ::
  "('s arena \<Rightarrow> bool) \<Rightarrow> (MemoryChunk \<Rightarrow> 's arena \<Rightarrow> bool) \<Rightarrow> (u64 \<Rightarrow> u8) \<Rightarrow> u64 \<Rightarrow> u64 \<Rightarrow> nat \<Rightarrow> nat \<Rightarrow>
    (MemoryChunk \<times> MemoryChunk \<times> bytes option \<times> 's arena) res option \<Rightarrow> bool" where
  "relocated_in I J m buffer a n i r \<longleftrightarrow> (\<exists>o' relocated code s'. r = Some (Inr (o', relocated, code, s')) \<and> ck_address o' = a \<and> I s' \<and>
    (case code of None \<Rightarrow> ck_address relocated = 0
     | Some bs \<Rightarrow> J relocated s' \<and> length bs \<le> unat (ck_length relocated) \<and> ck_length o' = word_of_nat i \<and>
         (\<exists>o1. relocatable m buffer o1 n i \<and> ck_address o1 = a \<and> x64_GenRelocateCodeFixed m buffer o1 relocated = Inr (o', Some bs))))"

lemma try_again_fits:
  assumes "relocatable m buffer origin n i" "0 < sz" "sz < 2 ^ 31" "AllocateCodeChunk api sz s = (Some ch, s')" "n + 14 \<le> nat sz"
  shows "\<exists>code. x64_try_again api m buffer sz origin (re_init_region_range 0 0) s =
      Some (Inr (\<lparr>ck_address = ck_address origin, ck_length = word_of_nat i\<rparr>, ch, Some code, s')) \<and>
    x64_GenRelocateCodeFixed m buffer origin ch = Inr (\<lparr>ck_address = ck_address origin, ck_length = word_of_nat i\<rparr>, Some code) \<and>
    length code \<le> unat (ck_length ch)"
proof -
  have len: "ck_length ch = word_of_nat (nat sz)" using AllocateCodeChunk_length [OF assms(4)] assms(2) by simp
  have un: "unat (word_of_nat x :: u64) = x" if "x < 2 ^ 31" for x using that by (simp add: unat_of_nat)
  have "nat sz < 2 ^ 31" "n + 14 < 2 ^ 31" using assms(2,3,5) by auto
  note u = un [OF this(1)] un [OF this(2)]
  have re: "re_init_region_range (ck_address ch) (sint (ucast (ck_length ch) :: u32)) = ch"
    using sint_small_32 [of "nat sz"] len assms(2,3) by (simp add: re_init_region_range_def init_region_range_def)
  have fits: "\<not> (word_of_nat (n + 14) :: u64) > ck_length ch" using u len assms(5) by (simp add: word_less_nat_alt)
  obtain code where code: "x64_GenRelocateCodeFixed m buffer origin ch = Inr (\<lparr>ck_address = ck_address origin, ck_length = word_of_nat i\<rparr>, Some code)"
    "length code = n + 14"
    using fixed_relocatable [OF assms(1), of ch] fits by auto
  have zero: "raw_instruction_start (re_init_region_range 0 0) = 0"
    by (simp add: re_init_region_range_def init_region_range_def raw_instruction_start_def)
  have "x64_try_again api m buffer sz origin (re_init_region_range 0 0) s =
      Some (Inr (\<lparr>ck_address = ck_address origin, ck_length = word_of_nat i\<rparr>, ch, Some code, s'))"
    using assms(4) zero code(1) re by (subst x64_try_again.simps) simp
  then show ?thesis using code u len assms(5) by simp
qed

lemma try_again_total:
  assumes alloc: "\<And>sz s c s'. I s \<Longrightarrow> 0 < sz \<Longrightarrow> sz \<le> psz \<Longrightarrow> AllocateCodeChunk api sz s = (c, s') \<Longrightarrow> I s' \<and> (\<forall>ch. c = Some ch \<longrightarrow> J ch s')"
    and psz: "int n + 30 \<le> psz" "psz < 2 ^ 31"
    and "relocatable m buffer origin n i" "I s" "0 < sz" "sz \<le> psz"
  shows "relocated_in I J m buffer (ck_address origin) n i (x64_try_again api m buffer sz origin (re_init_region_range 0 0) s)"
  using assms(4-)
proof (induction "n + 30 - nat sz" arbitrary: sz origin s rule: less_induct)
  case less
  have zero: "raw_instruction_start (re_init_region_range 0 0) = 0" "ck_address (re_init_region_range 0 0) = 0"
    by (simp_all add: re_init_region_range_def init_region_range_def raw_instruction_start_def)
  obtain c s' where c: "AllocateCodeChunk api sz s = (c, s')" by (rule prod.exhaust)
  note inv = alloc [OF less.prems(2-4) c]
  show ?case
  proof (cases c)
    case None
    then show ?thesis using c inv zero unfolding relocated_in_def by (subst x64_try_again.simps) simp
  next
    case (Some ch)
    have len: "ck_length ch = word_of_nat (nat sz)" using AllocateCodeChunk_length c Some less.prems(3) by fastforce
    have un: "unat (word_of_nat x :: u64) = x" if "x < 2 ^ 31" for x using that by (simp add: unat_of_nat)
    have "nat sz < 2 ^ 31" "n + 14 < 2 ^ 31" using less.prems(3,4) psz by auto
    note u = un [OF this(1)] un [OF this(2)]
    have re: "re_init_region_range (ck_address ch) (sint (ucast (ck_length ch) :: u32)) = ch"
      using sint_small_32 [of "nat sz"] len less.prems(3,4) psz(2) by (simp add: re_init_region_range_def init_region_range_def)
    obtain code where code: "x64_GenRelocateCodeFixed m buffer origin ch =
        Inr (\<lparr>ck_address = ck_address origin, ck_length = word_of_nat i\<rparr>,
          if (word_of_nat (n + 14) :: u64) > ck_length ch then None else Some code)" "length code = n + 14"
      using fixed_relocatable [OF less.prems(1)] by blast
    let ?o = "\<lparr>ck_address = ck_address origin, ck_length = word_of_nat i\<rparr> :: MemoryChunk"
    show ?thesis
    proof (cases "(word_of_nat (n + 14) :: u64) > ck_length ch")
      case True
      then have "nat sz < n + 14" using u len by (simp add: word_less_nat_alt)
      then have "n + 30 - nat (sz + 16) < n + 30 - nat sz" "sz + 16 \<le> psz" using less.prems(3) psz(1) by auto
      from less.hyps [OF this(1) relocatable_again [OF less.prems(1)] _ _ this(2), of s'] inv less.prems(3)
      have IH: "relocated_in I J m buffer (ck_address origin) n i (x64_try_again api m buffer (sz + 16) ?o (re_init_region_range 0 0) s')"
        by simp
      have "x64_try_again api m buffer sz origin (re_init_region_range 0 0) s = x64_try_again api m buffer (sz + 16) ?o (re_init_region_range 0 0) s'"
        using c Some zero code(1) re True by (subst x64_try_again.simps) (simp add: Destroy_def)
      then show ?thesis using IH by simp
    next
      case False
      then have "n + 14 \<le> nat sz" "sz < 2 ^ 31" using u len less.prems(4) psz(2) by (simp_all add: word_less_nat_alt)
      from try_again_fits [OF less.prems(1,3) this(2) c [unfolded Some] this(1)] show ?thesis
        using inv Some less.prems(1) by (cases s') (fastforce simp: relocated_in_def)
    qed
  qed
qed

text \<open>The addresses that are mapped, as numbers.\<close>

definition mapped_of :: "'k vmem \<Rightarrow> nat set" where
  "mapped_of m = unat ` {x. vm_prot m x \<noteq> None}"

lemma mapped_of_iff: "unat x \<in> mapped_of m \<longleftrightarrow> vm_prot m x \<noteq> None"
  by (auto simp: mapped_of_def image_iff simp flip: word_eq_iff_unsigned [where 'a = nat])

text \<open>
  What the code relies on of \<^verbatim>\<open>mmap\<close> without an address, beside \<^const>\<open>mmap_ok\<close>: memory in use is left
  alone, and new memory starts at a page boundary.
\<close>

definition private_mmap :: "nat \<Rightarrow> 'k vmem os_api \<Rightarrow> bool" where
  "private_mmap k api \<longleftrightarrow> (\<forall>sz prot flags m a m'. os_mmap api 0 sz prot flags m = (a, m') \<longrightarrow>
    (\<forall>x. vm_prot m x \<noteq> None \<longrightarrow> vm_bytes m' x = vm_bytes m x \<and> vm_prot m' x = vm_prot m x) \<and> (a \<noteq> MAP_FAILED \<longrightarrow> take_bit k a = 0))"

lemma private_mmapD:
  assumes "private_mmap k api" "os_mmap api 0 sz prot flags m = (a, m')"
  shows "vm_prot m x \<noteq> None \<Longrightarrow> vm_bytes m' x = vm_bytes m x \<and> vm_prot m' x = vm_prot m x" "a \<noteq> MAP_FAILED \<Longrightarrow> take_bit k a = 0"
  using assms unfolding private_mmap_def by blast+

text \<open>
  The arena for code beside memory in use: its pages are aligned and do not meet the addresses \<open>P\<close>, which
  are mapped and have the contents and protections of \<open>m0\<close>.
\<close>

definition code_arena_ok :: "nat \<Rightarrow> 'k vmem os_api \<Rightarrow> nat set \<Rightarrow> 'k vmem \<Rightarrow> 'k vmem arena \<Rightarrow> bool" where
  "code_arena_ok k api P m0 s \<longleftrightarrow> arena_ok api mapped_of s \<and> private_mmap k api \<and>
    (\<forall>p \<in> set (map pg_page (pages_of s)). take_bit k (ck_address p) = 0 \<and> ck_address p \<noteq> 0 \<and> range_of p \<inter> P = {}) \<and>
    (\<forall>x. unat x \<in> P \<longrightarrow> vm_prot (snd s) x \<noteq> None \<and> vm_bytes (snd s) x = vm_bytes m0 x \<and> vm_prot (snd s) x = vm_prot m0 x)"

lemma carve_at_pages: "carve_at n i ps = (c, ps') \<Longrightarrow> i < length ps \<Longrightarrow> map pg_page ps' = map pg_page ps"
  by (auto simp: carve_at_def carve_def Let_def map_update list_update_same_conv)

lemma AllocateChunk_shape:
  assumes "AllocateChunk api n perm s = (r, s')"
  shows "snd s' = snd s \<and> map pg_page (pages_of s') = map pg_page (pages_of s) \<or>
    (\<exists>a prot flags. os_mmap api 0 (word_of_int (os_page_size api)) prot flags (snd s) = (a, snd s') \<and>
      (map pg_page (pages_of s') = map pg_page (pages_of s) \<or> a \<noteq> MAP_FAILED \<and>
       map pg_page (pages_of s') = map pg_page (pages_of s) @ [\<lparr>ck_address = a, ck_length = word_of_int (os_page_size api)\<rparr>]))"
proof (cases "find_page (page_fits n perm) (pages_of s)")
  case (Some i)
  obtain c ps where c: "carve_at n i (pages_of s) = (c, ps)" by fastforce
  then have "s' = (Some ps, snd s)"
    using assms Some by (auto simp: AllocateChunk_def pages_of_def split: prod.splits option.splits)
  then show ?thesis using carve_at_pages [OF c] find_page_Some [OF Some] by (simp add: pages_of_def)
next
  case None
  let ?prot = "GetProtectionFromMemoryPermission perm" and ?psz = "word_of_int (os_page_size api) :: u64"
  obtain a m' where a: "os_mmap api 0 ?psz ?prot (MAP_PRIVATE OR MAP_ANONYMOUS OR 0) (snd s) = (a, m')" by fastforce
  then have os: "OSMemory_Allocate api 0 (os_page_size api) perm (snd s) = (if a = MAP_FAILED then 0 else a, m')"
    by (simp add: OSMemory_Allocate_def Let_def)
  show ?thesis
  proof (cases "a = MAP_FAILED \<or> a = 0")
    case True
    then have "s' = (Some (pages_of s), m')"
      using assms None os by (auto simp: AllocateChunk_def pages_of_def PageSize_def split: prod.splits option.splits if_splits)
    then show ?thesis using a by (auto simp: pages_of_def)
  next
    case False
    let ?ps = "pages_of s @ [new_page a (os_page_size api) perm]"
    obtain c ps where c: "carve_at n (length (pages_of s)) ?ps = (c, ps)" by fastforce
    then have "s' = (Some ps, m')"
      using assms None os False by (auto simp: AllocateChunk_def pages_of_def PageSize_def split: prod.splits option.splits if_splits)
    then show ?thesis using a False carve_at_pages [OF c] by (auto simp: pages_of_def new_page_def)
  qed
qed

lemma code_arena_alloc:
  assumes I: "code_arena_ok k api P m0 s" and n: "0 < n" "n \<le> os_page_size api" and run: "AllocateCodeChunk api n s = (c, s')"
  shows "code_arena_ok k api P m0 s' \<and> (\<forall>ch. c = Some ch \<longrightarrow> (\<exists>p \<in> set (map pg_page (pages_of s')). range_of ch \<subseteq> range_of p))"
proof -
  have ok: "arena_ok api mapped_of s" "private_mmap k api" "mmap_ok api mapped_of" using I by (auto simp: code_arena_ok_def arena_ok_def)
  have run': "AllocateChunk api n kReadExecute s = (c, s')" using run by (simp add: AllocateCodeChunk_def)
  note cases = AllocateChunk_cases [OF ok(1) n run']
  have old: "unat x \<in> P \<Longrightarrow> vm_prot (snd s) x \<noteq> None \<and> vm_bytes (snd s) x = vm_bytes m0 x \<and> vm_prot (snd s) x = vm_prot m0 x" for x
    using I unfolding code_arena_ok_def by blast
  have pages: "\<forall>p \<in> set (map pg_page (pages_of s)). take_bit k (ck_address p) = 0 \<and> ck_address p \<noteq> 0 \<and> range_of p \<inter> P = {}"
    using I by (simp add: code_arena_ok_def)
  have fresh: "range_of p \<inter> P = {}" "take_bit k a = 0" "a \<noteq> 0"
    if mm: "os_mmap api 0 (word_of_int (os_page_size api)) prot flags (snd s) = (a, snd s')" "a \<noteq> MAP_FAILED"
      and p: "p = \<lparr>ck_address = a, ck_length = word_of_int (os_page_size api)\<rparr>" for a prot flags p
  proof -
    note new = mmap_okD(2) [OF ok(3) mm]
    have "range_of p \<inter> P \<subseteq> mapped_of (snd s)"
    proof
      fix x assume x: "x \<in> range_of p \<inter> P"
      then have "unat (word_of_nat x :: u64) = x" using new p by (auto simp: range_of_def unat_of_nat)
      then show "x \<in> mapped_of (snd s)" using old [of "word_of_nat x"] x unfolding mapped_of_def by force
    qed
    then show "range_of p \<inter> P = {}" using new p by (auto simp: range_of_def)
    show "take_bit k a = 0" by (rule private_mmapD(2) [OF ok(2) mm])
    show "a \<noteq> 0" using new by blast
  qed
  have "take_bit k (ck_address p) = 0 \<and> ck_address p \<noteq> 0 \<and> range_of p \<inter> P = {}" if mem: "p \<in> set (map pg_page (pages_of s'))" for p
  proof -
    consider "p \<in> set (map pg_page (pages_of s))"
      | a prot flags where "os_mmap api 0 (word_of_int (os_page_size api)) prot flags (snd s) = (a, snd s')" "a \<noteq> MAP_FAILED"
          "p = \<lparr>ck_address = a, ck_length = word_of_int (os_page_size api)\<rparr>"
      using AllocateChunk_shape [OF run'] mem by (elim disjE exE conjE) auto
    then show ?thesis
    proof cases
      case 1
      then show ?thesis using pages by blast
    next
      case 2
      then show ?thesis using fresh [OF 2] by simp
    qed
  qed
  moreover have "vm_prot (snd s') x \<noteq> None \<and> vm_bytes (snd s') x = vm_bytes m0 x \<and> vm_prot (snd s') x = vm_prot m0 x" if "unat x \<in> P" for x
    using AllocateChunk_shape [OF run'] old [OF that] private_mmapD(1) [OF ok(2)] by metis
  ultimately have "code_arena_ok k api P m0 s'" using cases ok(2) unfolding code_arena_ok_def by blast
  then show ?thesis using cases by (auto split: option.splits)
qed

lemma span_range:
  assumes "unat a + n \<le> 2 ^ 64"
  shows "x \<in> span a n \<longleftrightarrow> unat a \<le> unat x \<and> unat x < unat a + n"
proof (cases "unat a \<le> unat x")
  case True
  then show ?thesis by (auto simp: span_def unat_sub word_le_nat_alt)
next
  case False
  then have "unat (x - a) = unat x + 2 ^ 64 - unat a"
    by (simp add: unat_sub_if_size word_size)
  then show ?thesis using False assms by (simp add: span_def)
qed

lemma aligned_page:
  assumes "take_bit k (pg :: u64) = 0" "unat pg \<le> unat a" "unat a < unat pg + 2 ^ k"
  shows "page_of k a = pg" "unat (take_bit k a) = unat a - unat pg"
proof -
  have t: "unat (take_bit k w) = unat w mod 2 ^ k" for w :: u64
    unfolding unsigned_take_bit_eq by (simp add: take_bit_eq_mod)
  have "unat pg mod 2 ^ k = 0" using t [of pg] assms(1) by simp
  then obtain q where q: "unat pg = 2 ^ k * q" by (auto elim: dvdE)
  define d where "d = unat a - unat pg"
  have "unat a = 2 ^ k * q + d" "d < 2 ^ k" using assms(2,3) q by (auto simp: d_def)
  then have "unat a mod 2 ^ k = d" by simp
  then show u: "unat (take_bit k a) = unat a - unat pg" using t [of a] by (simp add: d_def)
  have "unat (page_of k a) = unat pg" unfolding unat_ALIGN_FLOOR_pow2 using t [of a] u assms(2) by simp
  then show "page_of k a = pg" by (simp add: word_eq_iff_unsigned [where 'a = nat])
qed

lemma patch_chunk:
  assumes I: "code_arena_ok k api P m0 s" and psz: "os_page_size api = 2 ^ k" and mp: "mprotect_ok k mprotect"
    and p: "p \<in> set (map pg_page (pages_of s))" "range_of ch \<subseteq> range_of p" and code: "code \<noteq> []" "length code \<le> unat (ck_length ch)"
  shows "\<exists>m'. CodePatch (2 ^ k) mprotect (ck_address ch) code (snd s) = Inr m' \<and>
    vm_bytes m' = image_at (ck_address ch) code (vm_bytes (snd s)) \<and> code_arena_ok k api P m0 (fst s, m') \<and>
    (\<forall>x. unat x \<in> P \<longrightarrow> x \<notin> span (ck_address ch) (length code))"
proof -
  have k: "k \<le> 30" using mp by (simp add: mprotect_ok_def)
  let ?a = "ck_address ch" and ?p = "ck_address p"
  obtain pg where pg: "pg \<in> set (pages_of s)" "p = pg_page pg" using p(1) by auto
  then have pok: "page_ok (2 ^ k) pg" "range_of p \<subseteq> mapped_of (snd s)" and al: "take_bit k ?p = 0" "range_of p \<inter> P = {}"
    using I psz by (auto simp: code_arena_ok_def arena_ok_def)
  have npow: "nat (2 ^ k) = 2 ^ k" by (simp add: nat_power_eq)
  have len: "unat (ck_length p) = 2 ^ k" "unat ?p + 2 ^ k < 2 ^ 63"
    using pok(1) pg pow2_word [OF k] unfolding page_ok_def npow by simp_all
  have pos: "0 < length code" using code(1) by simp
  then have "unat ?p \<le> unat ?a" "unat ?a + unat (ck_length ch) \<le> unat ?p + unat (ck_length p)"
    using p(2) code(2) by (auto simp: range_of_def)
  then have in_p: "unat ?p \<le> unat ?a" "unat ?a + length code \<le> unat ?p + 2 ^ k" "unat ?a < unat ?p + 2 ^ k"
    using len(1) code(2) pos by linarith+
  note page = aligned_page [OF al(1) in_p(1,3)]
  have sp: "x \<in> span ?p (2 ^ k) \<longleftrightarrow> unat x \<in> range_of p" for x
    using len span_range [of ?p "2 ^ k" x] by (simp add: range_of_def)
  have mapped: "\<forall>x \<in> span (page_of k ?a) (2 ^ k). vm_prot (snd s) x \<noteq> None"
    using pok(2) mapped_of_iff unfolding page by (metis sp subsetD)
  have fits: "unat (take_bit k ?a) + length code \<le> 2 ^ k" unfolding page using in_p by simp
  obtain m' where m': "CodePatch (2 ^ k) mprotect ?a code (snd s) = Inr m'" "vm_bytes m' = image_at ?a code (vm_bytes (snd s))"
    "\<forall>x. vm_prot m' x = (if x \<in> span ?p (2 ^ k) then Some (PROT_READ OR PROT_EXEC) else vm_prot (snd s) x)"
    using CodePatch_page [OF mp fits mapped] unfolding page by blast
  have sub: "span ?a (length code) \<subseteq> span ?p (2 ^ k)" using span_in_page [OF fits k] unfolding page .
  have out: "x \<notin> span ?p (2 ^ k)" "x \<notin> span ?a (length code)" if "unat x \<in> P" for x
    using that al(2) sub sp by blast+
  have "vm_prot m' x \<noteq> None \<longleftrightarrow> vm_prot (snd s) x \<noteq> None" for x using m'(3) mapped unfolding page by simp
  then have "mapped_of m' = mapped_of (snd s)" by (simp add: mapped_of_def)
  then have "code_arena_ok k api P m0 (fst s, m')"
    using I m' out image_at_outside unfolding code_arena_ok_def arena_ok_def pages_of_def by auto
  then show ?thesis using m'(1,2) out by blast
qed

section \<open>One hook, step by step\<close>

text \<open>
  A stub is at hand when a page of the near arena has room; then no memory is mapped for it.
\<close>

definition stub_ready :: "'k dobby \<Rightarrow> u64 \<Rightarrow> u64 \<Rightarrow> bool" where
  "stub_ready st a stub \<longleftrightarrow> (\<exists>i. find_page (page_near a (2 * 1024 * 1024 * 1024) 8 kReadWrite) (pages_of (near_pages st, memory st)) = Some i \<and>
     pg_cursor (pages_of (near_pages st, memory st) ! i) = stub) \<and> (\<forall>x \<in> span stub 8. writable (memory st) x) \<and>
     - (2 ^ 31) \<le> sint (stub - (a + 6)) \<and> sint (stub - (a + 6)) < 2 ^ 31"

abbreviation trampoline_code :: "u64 \<Rightarrow> u64 \<Rightarrow> bytes" where
  "trampoline_code a stub \<equiv> [0xff, 0x25] @ le_bytes 4 (ucast (stub - (a + 6)) :: u32)"

lemma normal_trampoline_ready:
  assumes "stub_ready st a stub"
  shows "\<exists>ps. normal_trampoline sys a t st = Some (Inr (trampoline_code a stub,
     st\<lparr>near_pages := ps, memory := (memory st)\<lparr>vm_bytes := image_at stub (le_bytes 8 t) (vm_bytes (memory st))\<rparr>\<rparr>))"
proof -
  let ?ps = "pages_of (near_pages st, memory st)"
  obtain i where i: "find_page (page_near a (2 * 1024 * 1024 * 1024) 8 kReadWrite) ?ps = Some i" "pg_cursor (?ps ! i) = stub"
    and w: "\<forall>x \<in> span stub 8. writable (memory st) x"
    using assms by (auto simp: stub_ready_def)
  obtain c ps' where c: "search_once_more False sys a (2 * 1024 * 1024 * 1024) 8 kReadWrite ?ps (memory st) = Some (Inr (Some c, ps', memory st))"
    "carve_at 8 i ?ps = (c, ps')"
    using search_found [OF i(1)] by blast
  have "ck_address c = stub" using c(2) i(2) by (auto simp: carve_at_def carve_def Let_def)
  moreover have "near_AllocateDataChunk False sys a (2 * 1024 * 1024 * 1024) 8 (near_pages st, memory st) = Some (Inr (Some c, (Some ps', memory st)))"
    using c(1) by (simp add: near_AllocateDataChunk_def near_AllocateChunk_def pages_of_def)
  moreover have "vm_memcpy stub (le_bytes 8 t) (memory st) = Inr ((memory st)\<lparr>vm_bytes := image_at stub (le_bytes 8 t) (vm_bytes (memory st))\<rparr>)"
    using w by (intro memcpy_ok) simp_all
  ultimately show ?thesis
    by (intro exI [of _ "Some ps'"]) (simp add: normal_trampoline_def x64_GenerateNormalTrampolineBuffer_def AllocIndirectStub_def JmpNearIndirect_bytes
        CurrentIP_def ip_offset_def x64_TurboAssembler_def)
qed

lemma GenerateTrampolineBuffer_ready:
  assumes "stub_ready st a stub" "rt_trampoline_buffer route = None"
  shows "\<exists>ps. GenerateTrampolineBuffer sys a t route st = Some (Inr (route\<lparr>rt_trampoline_buffer := Some (trampoline_code a stub)\<rparr>,
     st\<lparr>near_pages := ps, memory := (memory st)\<lparr>vm_bytes := image_at stub (le_bytes 8 t) (vm_bytes (memory st))\<rparr>\<rparr>))"
proof -
  have "(if near_branch_trampoline st \<noteq> 0 then snd (plugin_GenerateTrampolineBuffer a t route) else route) = route"
    by (simp add: plugin_GenerateTrampolineBuffer_def x64_GenerateNearTrampolineBuffer_def)
  then show ?thesis
    using normal_trampoline_ready [OF assms(1), of sys t] assms(2) by (auto simp: GenerateTrampolineBuffer_def)
qed

text \<open>
  \<open>hook_env\<close>: the page of the hooked code is mapped, the code to be saved stays inside it, and neither it nor
  the stub meets a page of the code arena.
\<close>

definition hook_env :: "nat \<Rightarrow> 'k sys \<Rightarrow> u64 \<Rightarrow> u64 \<Rightarrow> 'k dobby \<Rightarrow> bool" where
  "hook_env k sys a stub st \<longleftrightarrow> 11 \<le> k \<and> os_page_size (sys_api sys) = 2 ^ k \<and> mprotect_ok k (sys_mprotect sys) \<and>
    a \<noteq> 0 \<and> unat (take_bit k a) + 26 \<le> 2 ^ k \<and> span stub 8 \<inter> span (page_of k a) (2 ^ k) = {} \<and>
    code_arena_ok k (sys_api sys) (unat ` (span (page_of k a) (2 ^ k) \<union> span stub 8)) (memory st) (code_pages st, memory st)"

lemma relocate_total:
  assumes I: "code_arena_ok k (sys_api sys) P m0 (code_pages st, memory st)"
    and psz: "os_page_size (sys_api sys) = 2 ^ k" "11 \<le> k" and mp: "mprotect_ok k (sys_mprotect sys)"
    and rel: "relocatable (vm_bytes (memory st)) a \<lparr>ck_address = a, ck_length = 6\<rparr> n i"
  shows "\<exists>origin relocated ps m. relocate sys a \<lparr>ck_address = a, ck_length = 6\<rparr> \<lparr>ck_address = 0, ck_length = 0\<rparr> st =
      Some (Inr (origin, relocated, st\<lparr>code_pages := ps, memory := m\<rparr>)) \<and> ck_address origin = a \<and>
    code_arena_ok k (sys_api sys) P m0 (ps, m) \<and>
    (ck_address relocated \<noteq> 0 \<longrightarrow> ck_length origin = word_of_nat i \<and>
      (\<exists>o1 code. x64_GenRelocateCodeFixed (vm_bytes (memory st)) a o1 relocated = Inr (origin, Some code) \<and> unat (ck_length o1) \<le> 2 ^ 20 \<and>
        ck_address o1 = a \<and> loaded (vm_bytes m) (ck_address relocated) code \<and>
        (\<forall>x. unat x \<in> P \<longrightarrow> x \<notin> span (ck_address relocated) (length code)))) \<and>
    (n \<le> 18 \<and> fst (AllocateCodeChunk (sys_api sys) 32 (code_pages st, memory st)) \<noteq> None \<longrightarrow> ck_address relocated \<noteq> 0) \<and>
    (fst (AllocateCodeChunk (sys_api sys) 32 (code_pages st, memory st)) = None \<longrightarrow> ck_address relocated = 0)"
proof -
  let ?api = "sys_api sys" and ?o = "\<lparr>ck_address = a, ck_length = 6\<rparr> :: MemoryChunk" and ?m = "vm_bytes (memory st)"
  let ?J = "\<lambda>ch s'. \<exists>p \<in> set (pages_of s'). range_of ch \<subseteq> range_of (pg_page p)"
  have k: "k \<le> 30" using mp by (simp add: mprotect_ok_def)
  have kp: "(2 :: int) ^ 11 \<le> 2 ^ k" "(2 :: int) ^ k \<le> 2 ^ 30"
    using power_increasing [OF psz(2), of "2 :: int"] power_increasing [OF k, of "2 :: int"] by simp_all
  have n: "n \<le> 279 * 6"
  proof -
    obtain ip t where "fixed_loop ?m a a 6 0 = Inr (i, ip, t)" "length (x64_buf t) = n" using rel by (auto simp: relocatable_def)
    then show ?thesis using loop_bound [of ?m a 0 6] by (fastforce simp: fixed_loop_def x64_TurboAssembler_def)
  qed
  have "relocated_in (code_arena_ok k ?api P m0) ?J ?m a (ck_address ?o) n i
      (x64_try_again ?api ?m a 32 ?o (re_init_region_range 0 0) (code_pages st, memory st))"
  proof (rule try_again_total [where psz = "2 ^ k"])
    show "int n + 30 \<le> 2 ^ k" "(2 :: int) ^ k < 2 ^ 31" "(32 :: int) \<le> 2 ^ k" using n kp by auto
  next
    fix sz s c s' assume run: "code_arena_ok k ?api P m0 s" "0 < sz" "sz \<le> 2 ^ k" "AllocateCodeChunk ?api sz s = (c, s')"
    then have "sz \<le> os_page_size ?api" using psz(1) by simp
    from code_arena_alloc [OF run(1,2) this run(4)]
    show "code_arena_ok k ?api P m0 s' \<and> (\<forall>ch. c = Some ch \<longrightarrow> ?J ch s')" by simp
  qed (use rel I in simp_all)
  then obtain origin relocated code ps m where run: "x64_GenRelocateCodeAndBranch ?api ?m a ?o \<lparr>ck_address = 0, ck_length = 0\<rparr> (code_pages st, memory st) =
      Some (Inr (origin, relocated, code, ps, m))" "ck_address origin = a" "code_arena_ok k ?api P m0 (ps, m)"
    and res: "case code of None \<Rightarrow> ck_address relocated = 0
     | Some bs \<Rightarrow> ?J relocated (ps, m) \<and> length bs \<le> unat (ck_length relocated) \<and> ck_length origin = word_of_nat i \<and>
         (\<exists>o1. relocatable ?m a o1 n i \<and> ck_address o1 = a \<and> x64_GenRelocateCodeFixed ?m a o1 relocated = Inr (origin, Some bs))"
    by (auto simp: relocated_in_def x64_GenRelocateCodeAndBranch_def re_init_region_range_def init_region_range_def)
  have first: "code \<noteq> None" if small: "n \<le> 18" and room: "fst (AllocateCodeChunk ?api 32 (code_pages st, memory st)) \<noteq> None"
  proof -
    obtain ch s' where "AllocateCodeChunk ?api 32 (code_pages st, memory st) = (Some ch, s')" using room by (metis option.exhaust prod.collapse)
    moreover have "n + 14 \<le> nat 32" using small by simp
    ultimately have "\<exists>bs o'. x64_try_again ?api ?m a 32 ?o (re_init_region_range 0 0) (code_pages st, memory st) = Some (Inr (o', ch, Some bs, s'))"
      using try_again_fits [OF rel, of 32] by fastforce
    then show ?thesis using run(1) by (auto simp: x64_GenRelocateCodeAndBranch_def re_init_region_range_def init_region_range_def)
  qed
  have none: "code = None" if full: "fst (AllocateCodeChunk ?api 32 (code_pages st, memory st)) = None"
  proof -
    obtain s' where "AllocateCodeChunk ?api 32 (code_pages st, memory st) = (None, s')" using full by (metis prod.collapse)
    then have "x64_try_again ?api ?m a 32 ?o (re_init_region_range 0 0) (code_pages st, memory st) = Some (Inr (?o, re_init_region_range 0 0, None, s'))"
      by (subst x64_try_again.simps) (simp add: raw_instruction_start_def re_init_region_range_def init_region_range_def)
    then show ?thesis using run(1) by (auto simp: x64_GenRelocateCodeAndBranch_def re_init_region_range_def init_region_range_def)
  qed
  show ?thesis
  proof (cases code)
    case None
    then have "relocate sys a ?o \<lparr>ck_address = 0, ck_length = 0\<rparr> st = Some (Inr (origin, relocated, st\<lparr>code_pages := ps, memory := m\<rparr>))"
      using run by (simp add: relocate_def)
    moreover have "\<not> (n \<le> 18 \<and> fst (AllocateCodeChunk ?api 32 (code_pages st, memory st)) \<noteq> None)" using first None by blast
    moreover have "ck_address relocated = 0" using res None by simp
    ultimately show ?thesis using run(2,3) by blast
  next
    case (Some bs)
    obtain o1 where o1: "relocatable ?m a o1 n i" "ck_address o1 = a" "x64_GenRelocateCodeFixed ?m a o1 relocated = Inr (origin, Some bs)"
      using res Some by auto
    obtain pg where pg: "pg \<in> set (map pg_page (pages_of (ps, m)))" "range_of relocated \<subseteq> range_of pg" using res Some by auto
    have len: "length bs = n + 14" using fixed_relocatable [OF o1(1), of relocated] o1(3) by (auto split: if_splits)
    then have ne: "bs \<noteq> []" "length bs \<le> unat (ck_length relocated)" using res Some by auto
    obtain m' where m': "CodePatch (2 ^ k) (sys_mprotect sys) (ck_address relocated) bs m = Inr m'"
      "vm_bytes m' = image_at (ck_address relocated) bs (vm_bytes m)" "code_arena_ok k ?api P m0 (ps, m')"
      "\<forall>x. unat x \<in> P \<longrightarrow> x \<notin> span (ck_address relocated) (length bs)"
      using patch_chunk [OF run(3) psz(1) mp pg ne] by auto
    have "ck_address pg \<noteq> 0" using run(3) pg(1) by (auto simp: code_arena_ok_def)
    moreover have "0 < unat (ck_length relocated)" using ne by (cases bs) auto
    then have "unat (ck_address relocated) \<in> range_of pg" using pg(2) by (auto simp: range_of_def)
    ultimately have nz: "ck_address relocated \<noteq> 0" by (auto simp: range_of_def unat_gt_0 unat_eq_zero)
    have "loaded (vm_bytes m') (ck_address relocated) bs" unfolding m'(2) using len n by (intro loaded_image_at) simp
    moreover have "relocate sys a ?o \<lparr>ck_address = 0, ck_length = 0\<rparr> st = Some (Inr (origin, relocated, st\<lparr>code_pages := ps, memory := m'\<rparr>))"
      using run(1) Some m'(1) nz psz(1) by (simp add: relocate_def FinalizeFromTurboAssembler_def raw_instruction_start_def)
    moreover have "unat (ck_length o1) \<le> 2 ^ 20" using o1(1) by (simp add: relocatable_def)
    ultimately show ?thesis using run(2) m'(3,4) o1(2,3) res Some nz none by auto
  qed
qed

lemma code_arena_ok_bytes:
  assumes "code_arena_ok k api P m0 (ps, m)"
  shows "code_arena_ok k api P (m\<lparr>vm_bytes := f\<rparr>) (ps, m\<lparr>vm_bytes := f\<rparr>)"
proof -
  have "mapped_of (m\<lparr>vm_bytes := f\<rparr>) = mapped_of m" by (simp add: mapped_of_def)
  then show ?thesis using assms by (auto simp: code_arena_ok_def arena_ok_def pages_of_def)
qed

text \<open>The registry depends on the lists and entries in use only.\<close>

lemma registry_rep_extend:
  assumes "registry_rep st es" "heads st' = heads st" "nodes st' = nodes st" "priv_interceptor st' = priv_interceptor st"
    and "hook_entries st' = (hook_entries st)(e \<mapsto> h)" "e \<notin> dom (hook_entries st)"
  shows "registry_rep st' es"
proof -
  obtain ps where ps: "registry_ok st ps" "es = map (node_hook st) ps" using assms(1) by (auto simp: registry_rep_def)
  have "node_ok st' p \<and> node_hook st' p = node_hook st p" if "p \<in> set ps" for p
    using ps(1) that assms(3,5,6) by (fastforce simp: registry_ok_def node_ok_def node_hook_def)
  then have "registry_ok st' ps" "es = map (node_hook st') ps" using ps assms(2,4) by (auto simp: registry_ok_def)
  then show ?thesis by (auto simp: registry_rep_def)
qed

text \<open>The memory after the stub was filled, and the addresses the hook relies on.\<close>

abbreviation stub_filled :: "u64 \<Rightarrow> u64 \<Rightarrow> 'k vmem \<Rightarrow> 'k vmem" where
  "stub_filled stub t m \<equiv> m\<lparr>vm_bytes := image_at stub (le_bytes 8 t) (vm_bytes m)\<rparr>"

abbreviation hook_span :: "nat \<Rightarrow> u64 \<Rightarrow> u64 \<Rightarrow> u64 set" where
  "hook_span k a stub \<equiv> span (page_of k a) (2 ^ k) \<union> span stub 8"

text \<open>
  What the building of a hook leaves: the trampoline, the saved bytes and, when there was memory for it, the
  relocated code, outside the page of the hooked code and the stub.
\<close>

definition relocated_ok :: "nat \<Rightarrow> u64 \<Rightarrow> u64 \<Rightarrow> nat \<Rightarrow> HookEntry \<Rightarrow> 'k vmem \<Rightarrow> 'k vmem \<Rightarrow> bool" where
  "relocated_ok k a stub i entry m1 m2 \<longleftrightarrow> (he_relocated entry \<noteq> 0 \<longrightarrow>
    he_chunk entry = \<lparr>ck_address = a, ck_length = word_of_nat i\<rparr> \<and> take i (he_chunk_buffer entry) = ld i (vm_bytes m1) a \<and>
    length (he_chunk_buffer entry) = 64 \<and>
    (\<exists>o1 relocated code. ck_address relocated = he_relocated entry \<and> unat (ck_length o1) \<le> 2 ^ 20 \<and> ck_address o1 = a \<and>
      x64_GenRelocateCodeFixed (vm_bytes m1) a o1 relocated = Inr (\<lparr>ck_address = a, ck_length = word_of_nat i\<rparr>, Some code) \<and>
      loaded (vm_bytes m2) (he_relocated entry) code \<and> span (he_relocated entry) (length code) \<inter> hook_span k a stub = {})) \<and>
    (he_relocated entry = 0 \<longrightarrow> he_chunk entry = \<lparr>ck_address = 0, ck_length = 0\<rparr>)"

lemma relocatable_size:
  assumes "relocatable m a \<lparr>ck_address = a, ck_length = 6\<rparr> n i"
  shows "6 \<le> i" "i < 26"
  using assms x64_reloc_loop_result [of m a 0 6 a 0] by (fastforce simp: relocatable_def fixed_loop_def)+

lemma hook_env_page:
  assumes "hook_env k sys a stub st" "j < 26"
  shows "a + word_of_nat j \<in> span (page_of k a) (2 ^ k)"
proof -
  have k: "unat (take_bit k a) + 26 \<le> 2 ^ k" "k \<le> 30" using assms(1) by (auto simp: hook_env_def mprotect_ok_def)
  have "a + word_of_nat j \<in> span a 26" using assms(2) by (simp add: span_def unat_of_nat)
  then show ?thesis using span_in_page [OF k] by blast
qed

lemma DispatchRouting_total:
  assumes env: "hook_env k sys a stub st" and stub: "stub_ready st a stub"
    and entry: "he_address entry = a" "length (he_chunk_buffer entry) = 64" "he_relocated entry = 0" "he_chunk entry = \<lparr>ck_address = 0, ck_length = 0\<rparr>"
    and route: "rt_trampoline_buffer route = None" "rt_replace_call route = t"
    and rel: "relocatable (vm_bytes (stub_filled stub t (memory st))) a \<lparr>ck_address = a, ck_length = 6\<rparr> n i"
  shows "\<exists>entry' route' st' ps cps m2. DispatchRouting sys entry route st = Some (Inr (entry', route', st')) \<and>
    st' = st\<lparr>near_pages := ps, code_pages := cps, memory := m2\<rparr> \<and>
    he_address entry' = a \<and> he_route entry' = he_route entry \<and> rt_trampoline_target route' = t \<and> (\<exists>o2. rt_origin route' = Some o2 \<and> ck_address o2 = a) \<and> rt_trampoline_buffer route' = Some (trampoline_code a stub) \<and>
    code_arena_ok k (sys_api sys) (unat ` hook_span k a stub) (stub_filled stub t (memory st)) (cps, m2) \<and>
    relocated_ok k a stub i entry' (stub_filled stub t (memory st)) m2 \<and>
    (n \<le> 18 \<and> fst (AllocateCodeChunk (sys_api sys) 32 (code_pages st, stub_filled stub t (memory st))) \<noteq> None \<longrightarrow> he_relocated entry' \<noteq> 0) \<and>
    (fst (AllocateCodeChunk (sys_api sys) 32 (code_pages st, stub_filled stub t (memory st))) = None \<longrightarrow> he_relocated entry' = 0)"
proof -
  let ?m1 = "stub_filled stub t (memory st)" and ?P = "unat ` hook_span k a stub"
  let ?route = "route\<lparr>rt_trampoline_target := rt_replace_call route\<rparr>"
  let ?route1 = "?route\<lparr>rt_trampoline_buffer := Some (trampoline_code a stub)\<rparr>"
  have buf: "rt_trampoline_buffer ?route = None" using route(1) by simp
  obtain ps where tramp: "BuildReplaceRouting sys entry route st = Some (Inr (?route1, st\<lparr>near_pages := ps, memory := ?m1\<rparr>))"
    using GenerateTrampolineBuffer_ready [OF stub buf, of sys t] route(2) entry(1) by (auto simp: BuildReplaceRouting_def)
  let ?st1 = "st\<lparr>near_pages := ps, memory := ?m1\<rparr>"
  have I: "code_arena_ok k (sys_api sys) ?P ?m1 (code_pages ?st1, memory ?st1)"
    using code_arena_ok_bytes env by (auto simp: hook_env_def)
  have psz: "os_page_size (sys_api sys) = 2 ^ k" "11 \<le> k" "mprotect_ok k (sys_mprotect sys)" using env by (auto simp: hook_env_def)
  have rel1: "relocatable (vm_bytes (memory ?st1)) a \<lparr>ck_address = a, ck_length = 6\<rparr> n i" using rel by simp
  obtain origin relocated cps m2 where r: "relocate sys a \<lparr>ck_address = a, ck_length = 6\<rparr> \<lparr>ck_address = 0, ck_length = 0\<rparr> ?st1 =
      Some (Inr (origin, relocated, ?st1\<lparr>code_pages := cps, memory := m2\<rparr>))" "ck_address origin = a"
    "code_arena_ok k (sys_api sys) ?P ?m1 (cps, m2)"
    and nz: "ck_address relocated \<noteq> 0 \<longrightarrow> ck_length origin = word_of_nat i \<and>
      (\<exists>o1 code. x64_GenRelocateCodeFixed (vm_bytes (memory ?st1)) a o1 relocated = Inr (origin, Some code) \<and> unat (ck_length o1) \<le> 2 ^ 20 \<and>
        ck_address o1 = a \<and> loaded (vm_bytes m2) (ck_address relocated) code \<and>
        (\<forall>x. unat x \<in> ?P \<longrightarrow> x \<notin> span (ck_address relocated) (length code)))"
    and first: "n \<le> 18 \<and> fst (AllocateCodeChunk (sys_api sys) 32 (code_pages ?st1, memory ?st1)) \<noteq> None \<longrightarrow> ck_address relocated \<noteq> 0"
    "fst (AllocateCodeChunk (sys_api sys) 32 (code_pages ?st1, memory ?st1)) = None \<longrightarrow> ck_address relocated = 0"
    using relocate_total [OF I psz rel1] by (elim exE conjE) (rule that, assumption+)
  have fin: "FinalizeFromAddress (he_address entry) (int (length (trampoline_code a stub))) = \<lparr>ck_address = a, ck_length = 6\<rparr>"
    "FinalizeFromAddress 0 0 = \<lparr>ck_address = 0, ck_length = 0\<rparr>"
    using entry(1) by (simp_all add: FinalizeFromAddress_def init_region_range_def)
  let ?st2 = "?st1\<lparr>code_pages := cps, memory := m2\<rparr>"
  have st2: "?st2 = st\<lparr>near_pages := ps, code_pages := cps, memory := m2\<rparr>" by simp
  show ?thesis
  proof (cases "ck_address relocated = 0")
    case True
    then have "GenerateRelocatedCode sys (int (length (trampoline_code a stub))) entry ?route1 ?st1 =
        Some (Inr (False, entry, ?route1\<lparr>rt_origin := Some origin\<rparr>, ?st2))"
      using r(1) entry(1) unfolding GenerateRelocatedCode_def fin by (simp add: raw_instruction_start_def)
    then have "DispatchRouting sys entry route st = Some (Inr (entry, ?route1\<lparr>rt_origin := Some origin\<rparr>, ?st2))"
      using tramp by (simp add: DispatchRouting_def)
    then show ?thesis
      by - (rule exI [of _ entry], rule exI [of _ "?route1\<lparr>rt_origin := Some origin\<rparr>"], rule exI [of _ ?st2], rule exI [of _ ps],
          rule exI [of _ cps], rule exI [of _ m2], use r(2,3) entry route first True in \<open>simp add: relocated_ok_def\<close>)
  next
    case False
    note i = relocatable_size [OF rel]
    have ui: "unat (word_of_nat i :: u64) = i" using i by (simp add: unat_of_nat)
    obtain o1 code where c: "ck_length origin = word_of_nat i" "x64_GenRelocateCodeFixed (vm_bytes ?m1) a o1 relocated = Inr (origin, Some code)"
      "unat (ck_length o1) \<le> 2 ^ 20" "ck_address o1 = a" "loaded (vm_bytes m2) (ck_address relocated) code"
      "\<forall>x. unat x \<in> ?P \<longrightarrow> x \<notin> span (ck_address relocated) (length code)"
      using nz False by auto
    have o: "origin = \<lparr>ck_address = a, ck_length = word_of_nat i\<rparr>" using c(1) r(2) by simp
    let ?saved = "ld i (vm_bytes m2) a"
    let ?entry = "entry\<lparr>he_relocated := ck_address relocated, he_chunk_buffer := ?saved @ drop i (he_chunk_buffer entry), he_chunk := origin\<rparr>"
    have "GenerateRelocatedCode sys (int (length (trampoline_code a stub))) entry ?route1 ?st1 =
        Some (Inr (True, ?entry, ?route1\<lparr>rt_origin := Some origin\<rparr>, ?st2))"
      using r(1) entry(1) False i unfolding GenerateRelocatedCode_def fin
      by (simp add: raw_instruction_start_def raw_instruction_size_def init_region_range_def o ui word_less_nat_alt)
    then have run: "DispatchRouting sys entry route st = Some (Inr (?entry, ?route1\<lparr>rt_origin := Some origin\<rparr>, ?st2))"
      using tramp by (simp add: DispatchRouting_def)
    have "vm_bytes m2 (a + word_of_nat j) = vm_bytes ?m1 (a + word_of_nat j)" if "j < i" for j
      using hook_env_page [OF env, of j] that i(2) r(3) unfolding code_arena_ok_def by simp
    then have "?saved = ld i (vm_bytes ?m1) a" by (simp add: ld_def)
    moreover have "span (ck_address relocated) (length code) \<inter> hook_span k a stub = {}" using c(6) by blast
    ultimately have "relocated_ok k a stub i ?entry ?m1 m2"
      using c o i entry(2) False unfolding relocated_ok_def by auto
    then show ?thesis
      by - (rule exI [of _ ?entry], rule exI [of _ "?route1\<lparr>rt_origin := Some origin\<rparr>"], rule exI [of _ ?st2], rule exI [of _ ps],
          rule exI [of _ cps], rule exI [of _ m2], use run r(2,3) entry route False first(2) in simp)
  qed
qed

text \<open>
  What a call needs: the interceptor exists, no hook of the address yet, new objects at unused addresses, a mapped
  page, a near page with room for a stub within reach, and code that can be relocated, \<open>i\<close> bytes of it to \<open>n\<close>
  bytes. The very first hook of a process, which makes the interceptor and looks for the near page, is not covered.
\<close>

definition hookable ::
  "nat \<Rightarrow> 'k sys \<Rightarrow> new_objects \<Rightarrow> u64 \<Rightarrow> u64 \<Rightarrow> u64 \<Rightarrow> nat \<Rightarrow> nat \<Rightarrow> (u64 \<times> u64) list \<Rightarrow> 'k dobby \<Rightarrow> bool" where
  "hookable k sys new a t stub n i es st \<longleftrightarrow> registry_rep st es \<and> top_hook a es = 0 \<and>
    new_entry new \<noteq> 0 \<and> new_entry new \<notin> dom (hook_entries st) \<and> new_node new \<noteq> 0 \<and> new_node new \<notin> dom (heads st) \<and>
    new_route new \<noteq> 0 \<and> hook_env k sys a stub st \<and> stub_ready st a stub \<and>
    relocatable (vm_bytes (stub_filled stub t (memory st))) a \<lparr>ck_address = a, ck_length = 6\<rparr> n i"

text \<open>The whole call: the state it leaves in terms of the memory \<open>m2\<close> before the last patch.\<close>

lemma DobbyHook_effect:
  assumes "hookable k sys new a t stub n i es st"
  shows "\<exists>entry st' m2. DobbyHook sys new a t st = Some (Inr (RS_SUCCESS, Some (he_relocated entry), st')) \<and>
    registry_rep st' ((a, new_entry new) # es) \<and> priv_interceptor st' = priv_interceptor st \<and> priv_interceptor st \<noteq> 0 \<and>
    hook_entries st' (new_entry new) = Some entry \<and> already_hooked (new_entry new) t st' = Inr True \<and>
    relocated_ok k a stub i entry (stub_filled stub t (memory st)) m2 \<and>
    (n \<le> 18 \<and> fst (AllocateCodeChunk (sys_api sys) 32 (code_pages st, stub_filled stub t (memory st))) \<noteq> None \<longrightarrow> he_relocated entry \<noteq> 0) \<and>
    (fst (AllocateCodeChunk (sys_api sys) 32 (code_pages st, stub_filled stub t (memory st))) = None \<longrightarrow> he_relocated entry = 0) \<and>
    (\<forall>x \<in> hook_span k a stub. vm_bytes m2 x = vm_bytes (stub_filled stub t (memory st)) x) \<and>
    vm_bytes (memory st') = image_at a (trampoline_code a stub) (vm_bytes m2) \<and>
    (\<forall>x \<in> span (page_of k a) (2 ^ k). vm_prot (memory st') x \<noteq> None)"
proof -
  have reg: "registry_rep st es" "top_hook a es = 0"
    and fresh: "new_entry new \<noteq> 0" "new_entry new \<notin> dom (hook_entries st)" "new_node new \<noteq> 0" "new_node new \<notin> dom (heads st)"
    and nr: "new_route new \<noteq> 0" and env: "hook_env k sys a stub st" and stub: "stub_ready st a stub"
    and rel: "relocatable (vm_bytes (stub_filled stub t (memory st))) a \<lparr>ck_address = a, ck_length = 6\<rparr> n i"
    using assms by (auto simp: hookable_def)
  let ?m1 = "stub_filled stub t (memory st)" and ?icp = "priv_interceptor st" and ?code = "trampoline_code a stub"
  have icp: "?icp \<noteq> 0" using reg(1) by (auto simp: registry_rep_def registry_ok_def ring_def)
  have e: "a \<noteq> 0" "mprotect_ok k (sys_mprotect sys)" "os_page_size (sys_api sys) = 2 ^ k" "unat (take_bit k a) + 26 \<le> 2 ^ k"
    using env by (auto simp: hook_env_def)
  let ?entry0 = "new_hook_entry (word_of_nat (length es)) a (new_route new)" and ?route0 = "FunctionInlineReplaceRouting (new_entry new) t"
  have ent: "he_address ?entry0 = a" "length (he_chunk_buffer ?entry0) = 64" "he_relocated ?entry0 = 0" "he_chunk ?entry0 = \<lparr>ck_address = 0, ck_length = 0\<rparr>"
    by (simp_all add: new_hook_entry_def)
  have rt: "rt_trampoline_buffer ?route0 = None" "rt_replace_call ?route0 = t"
    by (simp_all add: FunctionInlineReplaceRouting_def)
  from DispatchRouting_total [OF env stub ent rt rel]
  obtain entry route st1 ps cps m2 o2 where d: "DispatchRouting sys ?entry0 ?route0 st = Some (Inr (entry, route, st1))"
    "st1 = st\<lparr>near_pages := ps, code_pages := cps, memory := m2\<rparr>" "he_address entry = a"
    "he_route entry = he_route ?entry0" "rt_trampoline_target route = t" "rt_origin route = Some o2" "ck_address o2 = a"
    "rt_trampoline_buffer route = Some ?code" "code_arena_ok k (sys_api sys) (unat ` hook_span k a stub) ?m1 (cps, m2)"
    "relocated_ok k a stub i entry ?m1 m2"
    "n \<le> 18 \<and> fst (AllocateCodeChunk (sys_api sys) 32 (code_pages st, ?m1)) \<noteq> None \<longrightarrow> he_relocated entry \<noteq> 0"
    "fst (AllocateCodeChunk (sys_api sys) 32 (code_pages st, ?m1)) = None \<longrightarrow> he_relocated entry = 0"
    by (elim exE conjE) (rule that, assumption+)
  let ?st2 = "st1\<lparr>hook_entries := (hook_entries st1)(new_entry new \<mapsto> entry), routes := (routes st1)(new_route new \<mapsto> route)\<rparr>"
  have rep2: "registry_rep ?st2 es"
    using fresh(2) by (intro registry_rep_extend [OF reg(1), where e = "new_entry new" and h = entry]) (simp_all add: d(2))
  have he2: "hook_entries ?st2 (new_entry new) = Some entry" "new_node new \<notin> dom (heads ?st2)" "priv_interceptor ?st2 = ?icp"
    using fresh(4) by (simp_all add: d(2))
  obtain st3 where st3: "AddHookEntry ?icp (new_node new) (new_entry new) ?st2 = Inr st3" "registry_rep st3 ((a, new_entry new) # es)"
    "st3 = ?st2\<lparr>heads := heads st3, nodes := (nodes ?st2)(new_node new \<mapsto> new_entry new)\<rparr>"
    using AddHookEntry_push [OF rep2 fresh(3) he2(2) fresh(1) he2(1)] d(3) unfolding he2(3) by auto
  have mem3: "memory st3 = m2" "hook_entries st3 = (hook_entries st)(new_entry new \<mapsto> entry)" "priv_interceptor st3 = ?icp"
    by (subst st3(3), simp add: d(2))+
  have mapped: "\<forall>x \<in> span (page_of k a) (2 ^ k). vm_prot m2 x \<noteq> None" "\<forall>x \<in> hook_span k a stub. vm_bytes m2 x = vm_bytes ?m1 x"
    using d(9) unfolding code_arena_ok_def by auto
  have "unat (take_bit k a) + length ?code \<le> 2 ^ k" using e(4) by simp
  from CodePatch_page [OF e(2) this mapped(1)]
  obtain m3 where m3: "CodePatch (2 ^ k) (sys_mprotect sys) a ?code m2 = Inr m3" "vm_bytes m3 = image_at a ?code (vm_bytes m2)"
    "\<forall>x \<in> span (page_of k a) (2 ^ k). vm_prot m3 x \<noteq> None"
    by auto
  let ?st4 = "st3\<lparr>memory := m3\<rparr>"
  have "Commit sys route st3 = Inr ?st4"
    using m3(1) d(6-8) e(3) mem3(1) by (simp add: Commit_def Active_def raw_instruction_start_def)
  moreover have "already_hooked (top_hook a es) t st = Inr False" using reg(2) by (simp add: already_hooked_def)
  ultimately have "DobbyHook sys new a t st = Some (Inr (RS_SUCCESS, Some (he_relocated entry), ?st4))"
    using e(1) SharedInstance_later [OF icp] FindHookEntry_top [OF reg(1)] GetHookEntryCount_rep [OF reg(1)] d(1) st3(1)
    by (simp add: DobbyHook_def Let_def)
  moreover have "registry_rep ?st4 ((a, new_entry new) # es)"
  proof -
    have "registry_ok ?st4 qs = registry_ok st3 qs" "node_hook ?st4 = node_hook st3" for qs
      by (simp_all add: registry_ok_def node_ok_def node_hook_def fun_eq_iff)
    then show ?thesis using st3(2) by (simp add: registry_rep_def)
  qed
  moreover have hooked: "already_hooked (new_entry new) t ?st4 = Inr True"
  proof -
    have "routes st3 = (routes st)(new_route new \<mapsto> route)" by (subst st3(3), simp add: d(2))
    then show ?thesis using fresh(1) nr mem3(2) d(4,5) by (simp add: already_hooked_def deref_def new_hook_entry_def)
  qed
  ultimately show ?thesis
    by - (rule exI [of _ entry], rule exI [of _ ?st4], rule exI [of _ m2], use mem3 icp d(10-12) mapped m3 hooked in simp)
qed

text \<open>The places of the trampoline and of the stub in the memory a hook leaves.\<close>

lemma hook_span_sub:
  assumes "hook_env k sys a stub st"
  shows "span a 6 \<subseteq> span (page_of k a) (2 ^ k)" "span stub 8 \<inter> span a 6 = {}"
proof -
  have k: "unat (take_bit k a) + 6 \<le> 2 ^ k" "k \<le> 30" using assms by (auto simp: hook_env_def mprotect_ok_def)
  show "span a 6 \<subseteq> span (page_of k a) (2 ^ k)" by (rule span_in_page [OF k])
  then show "span stub 8 \<inter> span a 6 = {}" using assms by (auto simp: hook_env_def)
qed

lemma loaded_cong: "loaded m a bs \<Longrightarrow> \<forall>x \<in> span a (length bs). m' x = m x \<Longrightarrow> length bs < 2 ^ 64 \<Longrightarrow> loaded m' a bs"
  by (auto simp: loaded_def span_def unat_of_nat)

lemma loaded_image_outside:
  assumes "loaded m a bs" "span a (length bs) \<inter> span b (length cs) = {}" "length bs < 2 ^ 64"
  shows "loaded (image_at b cs m) a bs"
  using assms(1) by (rule loaded_cong) (use assms(2,3) image_at_outside in blast)+

lemma DobbyDestroy_effect:
  assumes reg: "registry_rep st ((a, e) # es)" and ent: "e \<noteq> 0" "hook_entries st e = Some entry" and icp: "priv_interceptor st \<noteq> 0"
    and size: "unat (ck_length (he_chunk entry)) = j" "j \<le> 26" "j \<le> length (he_chunk_buffer entry)"
    and mp: "mprotect_ok k (sys_mprotect sys)" "os_page_size (sys_api sys) = 2 ^ k" "unat (take_bit k a) + 26 \<le> 2 ^ k"
    and mapped: "\<forall>x \<in> span (page_of k a) (2 ^ k). vm_prot (memory st) x \<noteq> None"
  shows "\<exists>st'. DobbyDestroy sys p a st = Some (Inr (RS_SUCCESS, st')) \<and> registry_rep st' es \<and> priv_interceptor st' = priv_interceptor st \<and>
    vm_bytes (memory st') = image_at a (take j (he_chunk_buffer entry)) (vm_bytes (memory st))"
proof -
  let ?bs = "take j (he_chunk_buffer entry)"
  have sz: "unat (ucast (ck_length (he_chunk entry)) :: u32) = j"
    using size(1,2) by (simp add: unsigned_ucast_eq unsigned_take_bit_eq take_bit_nat_eq_self)
  have top: "top_hook a ((a, e) # es) = e" by (simp add: top_hook_def)
  have "unat (take_bit k a) + length ?bs \<le> 2 ^ k" using mp(3) size(2) by simp
  from CodePatch_page [OF mp(1) this mapped]
  obtain m where m: "CodePatch (2 ^ k) (sys_mprotect sys) a ?bs (memory st) = Inr m" "vm_bytes m = image_at a ?bs (vm_bytes (memory st))"
    by blast
  let ?st1 = "st\<lparr>memory := m\<rparr>"
  have "registry_ok ?st1 qs = registry_ok st qs" "node_hook ?st1 = node_hook st" for qs
    by (simp_all add: registry_ok_def node_ok_def node_hook_def fun_eq_iff)
  then have "registry_rep ?st1 ((a, e) # es)" using reg by (simp add: registry_rep_def)
  from RemoveHookEntry_pop [OF this, of a]
  obtain st' where st': "RemoveHookEntry (priv_interceptor st) a ?st1 = Some (Inr st')" "registry_rep st' es" "st' = ?st1\<lparr>heads := heads st'\<rparr>"
    by auto
  have "DobbyDestroy sys p a st = Some (Inr (RS_SUCCESS, st'))"
    using SharedInstance_later [OF icp] FindHookEntry_top [OF reg] top ent sz size(3) m(1) mp(2) st'(1)
    by (simp add: DobbyDestroy_def Let_def deref_def)
  moreover have "memory st' = m" "priv_interceptor st' = priv_interceptor st" by (subst st'(3), simp)+
  ultimately show ?thesis using st'(2) m(2) by auto
qed

lemma DobbyHook_origin:
  assumes "hookable k sys new a t stub n i es st" "n \<le> 18"
    and "fst (AllocateCodeChunk (sys_api sys) 32 (code_pages st, stub_filled stub t (memory st))) \<noteq> None"
  shows "\<exists>orig st1. DobbyHook sys new a t st = Some (Inr (RS_SUCCESS, Some orig, st1)) \<and> orig \<noteq> 0"
  using DobbyHook_effect [OF assms(1)] assms(2,3) by blast

lemma patch_back: "j \<le> length bs \<Longrightarrow> take j bs = ld j f a \<Longrightarrow> j < 2 ^ 64 \<Longrightarrow>
    image_at a (take j bs) g x = (if x \<in> span a j then f x else g x)"
  by (auto simp: image_at_def span_def ld_def)

section \<open>Properties\<close>

text \<open>
  A process with a page of \<^verbatim>\<open>add eax, 0x05050505\<close> instructions, a page of the near arena, no hooks, and a kernel that
  has one more region to give, or none.
\<close>

definition wit_hook_sys :: "bool \<Rightarrow> unit sys" where
  "wit_hook_sys free = \<lparr>sys_api = \<lparr>os_mmap = (\<lambda>a sz prot flags m.
       if free \<and> a = 0 \<and> unat sz \<le> 2 ^ 20 \<and> (\<forall>x \<in> span 0x40000000 (unat sz). vm_prot m x = None)
       then (0x40000000, m\<lparr>vm_prot := (\<lambda>x. if x \<in> span 0x40000000 (unat sz) then Some prot else vm_prot m x)\<rparr>)
       else (MAP_FAILED, m)), os_page_size = 4096\<rparr>,
     sys_mprotect = wit_mprotect, sys_maps = (\<lambda>m. None), sys_uninit = id\<rparr>"

definition wit_dobby :: "unit dobby" where
  "wit_dobby = \<lparr>heads = [0x10 \<mapsto> \<lparr>lh_next = 0x10, lh_prev = 0x10\<rparr>], nodes = Map.empty, hook_entries = Map.empty, priv_interceptor = 0x10,
     routes = Map.empty, code_pages = None, near_pages = Some [new_page 0x20000 4096 kReadWrite], near_branch_trampoline = 0, plugins = None,
     memory = \<lparr>vm_bytes = (\<lambda>_. 5), vm_prot = (\<lambda>x. if x \<in> span 0x10000 4096 then Some (PROT_READ OR PROT_EXEC)
       else if x \<in> span 0x20000 4096 then Some (PROT_READ OR PROT_WRITE) else None), vm_kernel = ()\<rparr>\<rparr>"

definition wit_new :: new_objects where
  "wit_new = \<lparr>new_interceptor = 0x10, new_entry = 0x100, new_route = 0x200, new_node = 0x300\<rparr>"

lemma wit_mmap: "os_mmap (sys_api (wit_hook_sys free)) 0 sz prot flags m = (a, m') \<Longrightarrow>
    (\<forall>x. vm_prot m x \<noteq> None \<longrightarrow> vm_bytes m' x = vm_bytes m x \<and> vm_prot m' x = vm_prot m x) \<and>
    (a \<noteq> MAP_FAILED \<longrightarrow> a = 0x40000000 \<and> unat sz \<le> 2 ^ 20 \<and>
       (\<forall>x \<in> span a (unat sz). vm_prot m x = None \<and> vm_prot m' x \<noteq> None))"
  by (auto simp: wit_hook_sys_def split: if_splits)

lemma range_span: "unat a + n < 2 ^ 63 \<Longrightarrow> {unat a ..< unat a + n} = unat ` span a n"
proof -
  assume n: "unat a + n < 2 ^ 63"
  have "x \<in> unat ` span a n" if "unat a \<le> x" "x < unat a + n" for x
  proof -
    have "x = unat (word_of_nat x :: u64)" using that n by (simp add: unat_of_nat)
    moreover have "(word_of_nat x :: u64) \<in> span a n" using that n calculation span_range [of a n "word_of_nat x"] by simp
    ultimately show ?thesis by blast
  qed
  then show ?thesis using n span_range [of a n] by auto
qed

lemma wit_hook_mmap_ok: "mmap_ok (sys_api (wit_hook_sys free)) mapped_of" "private_mmap 12 (sys_api (wit_hook_sys free))"
proof -
  have al: "take_bit 12 (0x40000000 :: u64) = 0" by (simp add: take_bit_eq_mask mask_eq_exp_minus_1)
  then show "private_mmap 12 (sys_api (wit_hook_sys free))" using wit_mmap unfolding private_mmap_def by blast
  have "0 < os_page_size (sys_api (wit_hook_sys free)) \<and> os_page_size (sys_api (wit_hook_sys free)) < 2 ^ 31" by (simp add: wit_hook_sys_def)
  moreover have "mapped_of m \<subseteq> mapped_of m' \<and>
       (a \<noteq> MAP_FAILED \<longrightarrow> a \<noteq> 0 \<and> unat a + unat sz < 2 ^ 63 \<and> {unat a ..< unat a + unat sz} \<inter> mapped_of m = {} \<and>
          {unat a ..< unat a + unat sz} \<subseteq> mapped_of m')"
    if mm: "os_mmap (sys_api (wit_hook_sys free)) 0 sz prot flags m = (a, m')" for sz prot flags m a m'
  proof -
    note w = wit_mmap [OF mm]
    have "mapped_of m \<subseteq> mapped_of m'" using w unfolding mapped_of_def by auto
    moreover have "a \<noteq> 0 \<and> unat a + unat sz < 2 ^ 63 \<and> {unat a ..< unat a + unat sz} \<inter> mapped_of m = {} \<and>
          {unat a ..< unat a + unat sz} \<subseteq> mapped_of m'" if "a \<noteq> MAP_FAILED"
    proof -
      have a: "a = 0x40000000" "unat sz \<le> 2 ^ 20" "\<forall>x \<in> span a (unat sz). vm_prot m x = None \<and> vm_prot m' x \<noteq> None" using w that by auto
      then have lt: "unat a + unat sz < 2 ^ 63" by simp
      have "unat ` span a (unat sz) \<inter> mapped_of m = {}" "unat ` span a (unat sz) \<subseteq> mapped_of m'"
        using a(3) mapped_of_iff by (blast, blast)
      then show ?thesis using a(1) lt unfolding range_span [OF lt] by simp
    qed
    ultimately show ?thesis by blast
  qed
  ultimately show "mmap_ok (sys_api (wit_hook_sys free)) mapped_of" unfolding mmap_ok_def by blast
qed

lemma wit_spans: "x \<in> span 0x10000 4096 \<longleftrightarrow> 0x10000 \<le> unat x \<and> unat x < 0x11000" "x \<in> span 0x20000 8 \<longleftrightarrow> 0x20000 \<le> unat x \<and> unat x < 0x20008"
    "x \<in> span 0x20000 4096 \<longleftrightarrow> 0x20000 \<le> unat x \<and> unat x < 0x21000" "x \<in> span 0x40000000 4096 \<longleftrightarrow> 0x40000000 \<le> unat x \<and> unat x < 0x40001000"
  using span_range [of "0x10000" 4096 x] span_range [of "0x20000" 8 x] span_range [of "0x20000" 4096 x] span_range [of "0x40000000" 4096 x]
  by simp_all

lemma wit_hookable: "hookable 12 (wit_hook_sys free) wit_new 0x10100 0x0505050505050505 0x20000 10 10 [] wit_dobby"
proof -
  have tb: "take_bit 12 (0x10100 :: u64) = 0x100" by (simp add: take_bit_eq_mask mask_eq_exp_minus_1)
  have pg: "page_of 12 (0x10100 :: u64) = 0x10000" by (simp add: ALIGN_FLOOR_def)
  have reg: "registry_rep wit_dobby []"
    by (simp add: registry_rep_def registry_ok_def ring_def link_def next_of_def prev_of_def wit_dobby_def)
  have arena: "code_arena_ok 12 (sys_api (wit_hook_sys free)) (unat ` (span 0x10000 4096 \<union> span 0x20000 8)) (memory wit_dobby)
      (code_pages wit_dobby, memory wit_dobby)"
    using wit_hook_mmap_ok unfolding code_arena_ok_def
    by (auto simp: arena_ok_def pages_of_def wit_dobby_def wit_spans inj_image_mem_iff [OF inj_unsigned])
  have env: "hook_env 12 (wit_hook_sys free) 0x10100 0x20000 wit_dobby"
    using arena wit_mprotect_ok unfolding hook_env_def pg tb by (auto simp: wit_hook_sys_def wit_spans)
  have stub: "stub_ready wit_dobby 0x10100 0x20000"
    by (auto simp: stub_ready_def wit_dobby_def pages_of_def new_page_def page_near_def llabs_def writable_def wit_spans)
  have le: "le_bytes 8 (0x0505050505050505 :: u64) = replicate 8 5" by code_simp
  have bytes: "vm_bytes (stub_filled 0x20000 0x0505050505050505 (memory wit_dobby)) = (\<lambda>_. 5)"
    unfolding le by (simp add: wit_dobby_def image_at_def fun_eq_iff del: replicate.simps)
  have "case fixed_loop (\<lambda>_. 5) 0x10100 0x10100 6 0 of Inr (i, ip, s) \<Rightarrow> i = 10 \<and> length (x64_buf s) = 10 | _ \<Rightarrow> False"
    by code_simp
  then have rel: "relocatable (vm_bytes (stub_filled 0x20000 0x0505050505050505 (memory wit_dobby))) 0x10100 \<lparr>ck_address = 0x10100, ck_length = 6\<rparr> 10 10"
    unfolding bytes by (auto simp: relocatable_def split: sum.splits prod.splits)
  show ?thesis unfolding hookable_def using reg env stub rel by (auto simp: top_hook_def wit_new_def wit_dobby_def)
qed

lemma wit_room: "fst (AllocateCodeChunk (sys_api (wit_hook_sys free)) 32 (code_pages wit_dobby, stub_filled 0x20000 0x0505050505050505 (memory wit_dobby))) = None \<longleftrightarrow> \<not> free"
proof -
  have "vm_prot (memory wit_dobby) x = None" if "x \<in> span 0x40000000 4096" for x
    using that by (simp add: wit_dobby_def wit_spans)
  then show ?thesis
    by (simp add: AllocateCodeChunk_def AllocateChunk_def wit_hook_sys_def PageSize_def OSMemory_Allocate_def carve_at_def carve_def Let_def wit_dobby_def)
qed

text \<open>
  C1. Hooking a function works: for every function whose first instructions can be relocated, \<^verbatim>\<open>DobbyHook\<close>
  returns \<^verbatim>\<open>RS_SUCCESS\<close>, the address is found in the registry with the new entry, a thread that arrives at
  the function is at the replacement after one instruction, and, when the call stores a pointer to the
  original, the relocated code of the function is at that pointer and ends with a jump to the first
  instruction that was not relocated. The pointer is stored whenever there is a chunk for code of up to
  32 bytes, and is null when there is no memory.
\<close>

theorem DobbyHook_installs:
  assumes "hookable k sys new a t stub n i es st"
  shows "\<exists>orig st'. DobbyHook sys new a t st = Some (Inr (RS_SUCCESS, Some orig, st')) \<and>
    FindHookEntry (priv_interceptor st') a st' = Some (Inr (new_entry new)) \<and>
    (\<forall>M. xmem M = vm_bytes (memory st') \<and> rip M = a \<longrightarrow> x64_step M = Some (M\<lparr>rip := t\<rparr>)) \<and>
    (orig \<noteq> 0 \<longrightarrow> (\<exists>o1 chunk code. ck_address chunk = orig \<and>
       x64_GenRelocateCodeFixed (image_at stub (le_bytes 8 t) (vm_bytes (memory st))) a o1 chunk =
         Inr (\<lparr>ck_address = a, ck_length = word_of_nat i\<rparr>, Some code) \<and> 14 \<le> length code \<and>
       loaded (vm_bytes (memory st')) orig code \<and>
       (\<forall>M. xmem M = vm_bytes (memory st') \<and> rip M = orig + word_of_nat (length code - 14) \<longrightarrow>
          x64_step M = Some (M\<lparr>rip := a + word_of_nat i\<rparr>)))) \<and>
    (n \<le> 18 \<and> fst (AllocateCodeChunk (sys_api sys) 32 (code_pages st, stub_filled stub t (memory st))) \<noteq> None \<longrightarrow> orig \<noteq> 0) \<and>
    (fst (AllocateCodeChunk (sys_api sys) 32 (code_pages st, stub_filled stub t (memory st))) = None \<longrightarrow> orig = 0)"
proof -
  have env: "hook_env k sys a stub st" and stub: "stub_ready st a stub" using assms by (auto simp: hookable_def)
  let ?m1 = "stub_filled stub t (memory st)" and ?tr = "trampoline_code a stub"
  obtain entry st' m2 where r: "DobbyHook sys new a t st = Some (Inr (RS_SUCCESS, Some (he_relocated entry), st'))"
    "registry_rep st' ((a, new_entry new) # es)" "priv_interceptor st' = priv_interceptor st" "priv_interceptor st \<noteq> 0"
    "hook_entries st' (new_entry new) = Some entry" "already_hooked (new_entry new) t st' = Inr True" "relocated_ok k a stub i entry ?m1 m2"
    "n \<le> 18 \<and> fst (AllocateCodeChunk (sys_api sys) 32 (code_pages st, ?m1)) \<noteq> None \<longrightarrow> he_relocated entry \<noteq> 0"
    "fst (AllocateCodeChunk (sys_api sys) 32 (code_pages st, ?m1)) = None \<longrightarrow> he_relocated entry = 0"
    "\<forall>x \<in> hook_span k a stub. vm_bytes m2 x = vm_bytes ?m1 x"
    "vm_bytes (memory st') = image_at a ?tr (vm_bytes m2)"
    "\<forall>x \<in> span (page_of k a) (2 ^ k). vm_prot (memory st') x \<noteq> None"
    using DobbyHook_effect [OF assms] by (elim exE conjE) (rule that, assumption+)
  note sp = hook_span_sub [OF env]
  have "loaded (vm_bytes ?m1) stub (le_bytes 8 t)" by (simp add: loaded_image_at)
  then have "loaded (vm_bytes m2) stub (le_bytes 8 t)" by (rule loaded_cong) (use r(10) in auto)
  then have s: "loaded (vm_bytes (memory st')) stub (le_bytes 8 t)" unfolding r(11) by (rule loaded_image_outside) (use sp(2) in auto)
  have tr: "loaded (vm_bytes (memory st')) a ?tr" unfolding r(11) by (simp add: loaded_image_at)
  have "x64_step M = Some (M\<lparr>rip := t\<rparr>)" if "xmem M = vm_bytes (memory st') \<and> rip M = a" for M
    using jmp_indirect_step [of M stub t] tr s stub that by (simp add: stub_ready_def)
  moreover have "\<exists>o1 chunk code. ck_address chunk = he_relocated entry \<and>
       x64_GenRelocateCodeFixed (image_at stub (le_bytes 8 t) (vm_bytes (memory st))) a o1 chunk =
         Inr (\<lparr>ck_address = a, ck_length = word_of_nat i\<rparr>, Some code) \<and> 14 \<le> length code \<and>
       loaded (vm_bytes (memory st')) (he_relocated entry) code \<and>
       (\<forall>M. xmem M = vm_bytes (memory st') \<and> rip M = he_relocated entry + word_of_nat (length code - 14) \<longrightarrow>
          x64_step M = Some (M\<lparr>rip := a + word_of_nat i\<rparr>))" if nz: "he_relocated entry \<noteq> 0"
  proof -
    obtain o1 chunk code where c: "ck_address chunk = he_relocated entry" "unat (ck_length o1) \<le> 2 ^ 20" "ck_address o1 = a"
      "x64_GenRelocateCodeFixed (vm_bytes ?m1) a o1 chunk = Inr (\<lparr>ck_address = a, ck_length = word_of_nat i\<rparr>, Some code)"
      "loaded (vm_bytes m2) (he_relocated entry) code" "span (he_relocated entry) (length code) \<inter> hook_span k a stub = {}"
      using r(7) nz unfolding relocated_ok_def by blast
    have ret: "14 \<le> length code" "\<forall>M. loaded (xmem M) (ck_address chunk) code \<and> rip M = ck_address chunk + word_of_nat (length code - 14) \<longrightarrow>
       x64_step M = Some (M\<lparr>rip := ck_address o1 + word_of_nat i\<rparr>)"
      using fixed_returns [OF c(4)] c(2) by auto
    have "length code < 2 ^ 64" using fixed_code_length [OF c(4)] c(2) by simp
    then have "loaded (vm_bytes (memory st')) (he_relocated entry) code"
      unfolding r(11) using sp(1) c(5,6) by (intro loaded_image_outside) auto
    then show ?thesis using c ret by (intro exI [of _ o1] exI [of _ chunk] exI [of _ code]) auto
  qed
  moreover have "FindHookEntry (priv_interceptor st') a st' = Some (Inr (new_entry new))"
    using FindHookEntry_top [OF r(2)] by (simp add: top_hook_def)
  ultimately show ?thesis using r(1,8,9) by (intro exI [of _ "he_relocated entry"] exI [of _ st']) blast
qed

theorem DobbyHook_installs_witness:
  "\<exists>orig st'. DobbyHook (wit_hook_sys True) wit_new 0x10100 0x0505050505050505 wit_dobby = Some (Inr (RS_SUCCESS, Some orig, st')) \<and> orig \<noteq> 0 \<and>
     (\<forall>M. xmem M = vm_bytes (memory st') \<and> rip M = 0x10100 \<longrightarrow> x64_step M = Some (M\<lparr>rip := 0x0505050505050505\<rparr>))"
  using DobbyHook_installs [OF wit_hookable] wit_room [of True] by fastforce

text \<open>
  C2. A hook comes off without a trace: after \<^verbatim>\<open>DobbyHook\<close>, when there was memory for the relocated
  code, \<^verbatim>\<open>DobbyDestroy\<close> of the address returns \<^verbatim>\<open>RS_SUCCESS\<close>, every byte of the page of the function is
  what it was before the hook, and every lookup in the registry returns what it returned before.
\<close>

theorem DobbyDestroy_restores:
  assumes "hookable k sys new a t stub n i es st" "DobbyHook sys new a t st = Some (Inr (RS_SUCCESS, Some orig, st1))" "orig \<noteq> 0"
  shows "\<exists>st2. DobbyDestroy sys p a st1 = Some (Inr (RS_SUCCESS, st2)) \<and>
    (\<forall>x \<in> span (page_of k a) (2 ^ k). vm_bytes (memory st2) x = vm_bytes (memory st) x) \<and>
    (\<forall>b. FindHookEntry (priv_interceptor st2) b st2 = FindHookEntry (priv_interceptor st) b st)"
proof -
  have env: "hook_env k sys a stub st" and reg: "registry_rep st es" and ne: "new_entry new \<noteq> 0"
    and rel: "relocatable (vm_bytes (stub_filled stub t (memory st))) a \<lparr>ck_address = a, ck_length = 6\<rparr> n i"
    using assms(1) by (auto simp: hookable_def)
  let ?m1 = "stub_filled stub t (memory st)" and ?tr = "trampoline_code a stub"
  obtain entry m2 where r: "orig = he_relocated entry" "registry_rep st1 ((a, new_entry new) # es)"
    "priv_interceptor st1 = priv_interceptor st" "priv_interceptor st \<noteq> 0"
    "hook_entries st1 (new_entry new) = Some entry" "relocated_ok k a stub i entry ?m1 m2"
    "\<forall>x \<in> hook_span k a stub. vm_bytes m2 x = vm_bytes ?m1 x"
    "vm_bytes (memory st1) = image_at a ?tr (vm_bytes m2)"
    "\<forall>x \<in> span (page_of k a) (2 ^ k). vm_prot (memory st1) x \<noteq> None"
    using DobbyHook_effect [OF assms(1)] assms(2) by auto
  note i = relocatable_size [OF rel]
  have mp: "mprotect_ok k (sys_mprotect sys)" "os_page_size (sys_api sys) = 2 ^ k" "unat (take_bit k a) + 26 \<le> 2 ^ k"
    and apart: "span stub 8 \<inter> span (page_of k a) (2 ^ k) = {}"
    using env by (auto simp: hook_env_def)
  have c: "he_chunk entry = \<lparr>ck_address = a, ck_length = word_of_nat i\<rparr>" "take i (he_chunk_buffer entry) = ld i (vm_bytes ?m1) a"
    "length (he_chunk_buffer entry) = 64"
    using r(1,6) assms(3) unfolding relocated_ok_def by auto
  have "unat (ck_length (he_chunk entry)) = i" "i \<le> 26" "i \<le> length (he_chunk_buffer entry)"
    using c i by (simp_all add: unat_of_nat)
  from DobbyDestroy_effect [OF r(2) ne r(5) r(4) [folded r(3)] this mp r(9), of p]
  obtain st2 where st2: "DobbyDestroy sys p a st1 = Some (Inr (RS_SUCCESS, st2))" "registry_rep st2 es" "priv_interceptor st2 = priv_interceptor st1"
    "vm_bytes (memory st2) = image_at a (take i (he_chunk_buffer entry)) (vm_bytes (memory st1))"
    by blast
  have "vm_bytes (memory st2) x = vm_bytes (memory st) x" if x: "x \<in> span (page_of k a) (2 ^ k)" for x
  proof -
    have "vm_bytes ?m1 x = vm_bytes (memory st) x" using apart x by (simp, intro image_at_outside) auto
    moreover have "x \<notin> span a i \<Longrightarrow> x \<notin> span a (length ?tr)" using i(1) by (simp add: span_def)
    ultimately show ?thesis
      using patch_back [of i "he_chunk_buffer entry" "vm_bytes ?m1" a "vm_bytes (memory st1)" x] c(2,3) i(2) x r(7)
      unfolding st2(4) r(8) by (auto simp: image_at_outside simp del: image_at_Cons)
  qed
  then show ?thesis using st2(1) FindHookEntry_top [OF st2(2)] FindHookEntry_top [OF reg] by auto
qed

theorem DobbyDestroy_restores_witness:
  "\<exists>orig st1 st2. DobbyHook (wit_hook_sys True) wit_new 0x10100 0x0505050505050505 wit_dobby = Some (Inr (RS_SUCCESS, Some orig, st1)) \<and>
     DobbyDestroy (wit_hook_sys True) 0 0x10100 st1 = Some (Inr (RS_SUCCESS, st2)) \<and> vm_bytes (memory st2) 0x10100 = 5"
proof -
  have "fst (AllocateCodeChunk (sys_api (wit_hook_sys True)) 32 (code_pages wit_dobby, stub_filled 0x20000 0x0505050505050505 (memory wit_dobby))) \<noteq> None"
    using wit_room [of True] by simp
  from DobbyHook_origin [OF wit_hookable _ this]
  obtain orig st1 where "DobbyHook (wit_hook_sys True) wit_new 0x10100 0x0505050505050505 wit_dobby = Some (Inr (RS_SUCCESS, Some orig, st1))" "orig \<noteq> 0"
    by auto
  moreover have "0x10100 \<in> span (page_of 12 0x10100) (2 ^ 12)" by (rule in_page_of) simp
  moreover have "vm_bytes (memory wit_dobby) 0x10100 = 5" by (simp add: wit_dobby_def)
  ultimately show ?thesis using DobbyDestroy_restores [OF wit_hookable, of True _ st1 0] by metis
qed

text \<open>
  C39. Without memory for the relocated code the hook cannot be taken off: \<^verbatim>\<open>DobbyHook\<close> still patches the
  function and returns \<^verbatim>\<open>RS_SUCCESS\<close>, with a null pointer to the original; \<^verbatim>\<open>DobbyDestroy\<close> then returns
  \<^verbatim>\<open>RS_SUCCESS\<close> and the registry forgets the hook, but the trampoline stays in the function.
\<close>

theorem DobbyDestroy_leaves_trampoline:
  assumes "hookable k sys new a t stub n i es st"
    and "fst (AllocateCodeChunk (sys_api sys) 32 (code_pages st, stub_filled stub t (memory st))) = None"
  shows "\<exists>st1 st2. DobbyHook sys new a t st = Some (Inr (RS_SUCCESS, Some 0, st1)) \<and>
    DobbyDestroy sys p a st1 = Some (Inr (RS_SUCCESS, st2)) \<and>
    loaded (vm_bytes (memory st2)) a (trampoline_code a stub) \<and> FindHookEntry (priv_interceptor st2) a st2 = Some (Inr 0)"
proof -
  have env: "hook_env k sys a stub st" and reg: "registry_rep st es" "top_hook a es = 0" and ne: "new_entry new \<noteq> 0"
    using assms(1) by (auto simp: hookable_def)
  let ?m1 = "stub_filled stub t (memory st)" and ?tr = "trampoline_code a stub"
  obtain entry st1 m2 where e: "he_relocated entry = 0" "relocated_ok k a stub i entry ?m1 m2"
    and r: "DobbyHook sys new a t st = Some (Inr (RS_SUCCESS, Some (he_relocated entry), st1))" "registry_rep st1 ((a, new_entry new) # es)"
    "priv_interceptor st1 = priv_interceptor st" "priv_interceptor st \<noteq> 0" "hook_entries st1 (new_entry new) = Some entry"
    "vm_bytes (memory st1) = image_at a ?tr (vm_bytes m2)" "\<forall>x \<in> span (page_of k a) (2 ^ k). vm_prot (memory st1) x \<noteq> None"
    using DobbyHook_effect [OF assms(1)] assms(2) by blast
  have mp: "mprotect_ok k (sys_mprotect sys)" "os_page_size (sys_api sys) = 2 ^ k" "unat (take_bit k a) + 26 \<le> 2 ^ k"
    using env by (auto simp: hook_env_def)
  have "unat (ck_length (he_chunk entry)) = 0" "0 \<le> (26 :: nat)" "0 \<le> length (he_chunk_buffer entry)" using e by (simp_all add: relocated_ok_def)
  from DobbyDestroy_effect [OF r(2) ne r(5) r(4) [folded r(3)] this mp r(7), of p]
  obtain st2 where st2: "DobbyDestroy sys p a st1 = Some (Inr (RS_SUCCESS, st2))" "registry_rep st2 es"
    "vm_bytes (memory st2) = image_at a [] (vm_bytes (memory st1))"
    by auto
  have "image_at a [] f = f" for f :: "u64 \<Rightarrow> u8" by (simp add: image_at_def fun_eq_iff)
  then have "loaded (vm_bytes (memory st2)) a ?tr" unfolding st2(3) r(6) by (simp add: loaded_image_at)
  then show ?thesis using r(1) e(1) st2(1) FindHookEntry_top [OF st2(2)] reg(2) by auto
qed

theorem DobbyDestroy_leaves_trampoline_witness:
  "\<exists>st1 st2. DobbyHook (wit_hook_sys False) wit_new 0x10100 0x0505050505050505 wit_dobby = Some (Inr (RS_SUCCESS, Some 0, st1)) \<and>
     DobbyDestroy (wit_hook_sys False) 0 0x10100 st1 = Some (Inr (RS_SUCCESS, st2)) \<and>
     loaded (vm_bytes (memory st2)) 0x10100 (trampoline_code 0x10100 0x20000)"
  using DobbyDestroy_leaves_trampoline [OF wit_hookable] wit_room [of False] by blast

text \<open>
  C40. Hooking twice with the same replacement is refused, and removing a hook that is not there too: the
  second call of \<^verbatim>\<open>DobbyHook\<close> with the same replacement, whatever \<^verbatim>\<open>new\<close> would return, fails
  with \<^verbatim>\<open>RS_FAILED\<close> and changes nothing; so does \<^verbatim>\<open>DobbyDestroy\<close> before the hook.
\<close>

theorem DobbyHook_twice_refused:
  assumes "hookable k sys new a t stub n i es st"
  shows "\<exists>orig st1. DobbyHook sys new a t st = Some (Inr (RS_SUCCESS, Some orig, st1)) \<and>
    DobbyHook sys new' a t st1 = Some (Inr (RS_FAILED, None, st1)) \<and> DobbyDestroy sys p a st = Some (Inr (RS_FAILED, st))"
proof -
  have reg: "registry_rep st es" "top_hook a es = 0" and a: "a \<noteq> 0" using assms by (auto simp: hookable_def hook_env_def)
  obtain orig st1 where r: "DobbyHook sys new a t st = Some (Inr (RS_SUCCESS, Some orig, st1))" "registry_rep st1 ((a, new_entry new) # es)"
    "priv_interceptor st1 = priv_interceptor st" "priv_interceptor st \<noteq> 0" "already_hooked (new_entry new) t st1 = Inr True"
    using DobbyHook_effect [OF assms] by blast
  have "top_hook a ((a, new_entry new) # es) = new_entry new" by (simp add: top_hook_def)
  then have "DobbyHook sys new' a t st1 = Some (Inr (RS_FAILED, None, st1))"
    using a r SharedInstance_later [of st1] FindHookEntry_top [OF r(2), of a] by (simp add: DobbyHook_def)
  moreover have "DobbyDestroy sys p a st = Some (Inr (RS_FAILED, st))"
    using reg SharedInstance_later [OF r(4)] FindHookEntry_top [OF reg(1), of a] by (simp add: DobbyDestroy_def)
  ultimately show ?thesis using r(1) by blast
qed

theorem DobbyHook_twice_refused_witness:
  "\<exists>orig st1. DobbyHook (wit_hook_sys True) wit_new 0x10100 0x0505050505050505 wit_dobby = Some (Inr (RS_SUCCESS, Some orig, st1)) \<and>
     DobbyHook (wit_hook_sys True) wit_new 0x10100 0x0505050505050505 st1 = Some (Inr (RS_FAILED, None, st1))"
  using DobbyHook_twice_refused [OF wit_hookable] by blast

end
