(* ===== verification/Spec2Isabelle.thy ===== *)
theory Spec2Isabelle
  imports Arm64_Relocation Arm64_Near_Trampoline Lite_Containers Code_Buffer X86_Length X86_Bounds X64_Relocation Hook_Engine
begin

text \<open>
  A verification of the inline-hook engine in \<^verbatim>\<open>src/app/src/main/cpp/Dobby\<close> (paths below are relative to
  it), the native part of the application.

  \<^bold>\<open>The program.\<close> \<^verbatim>\<open>DobbyHook(address, replace_call, &origin_call)\<close> redirects a function: the registry of hooks
  is searched for the address; a trampoline to the replacement is generated; as many whole instructions
  as the trampoline covers are relocated to new executable memory, followed by a jump back behind them;
  the entry is registered and the trampoline is written over the function. \<^verbatim>\<open>DobbyDestroy\<close> writes the saved
  bytes back and takes the entry out of the registry. The parts of this are assemblers and code
  generators for each architecture, the relocation of instructions with operands relative to the
  program counter, an instruction decoder for x86, allocators for executable memory anywhere and near an
  address, a parser of the memory map of the process, the patching of pages that are not writable, and
  small container and list libraries.

  \<^bold>\<open>The theories\<close>, in the order of their dependencies:
  \<^item> \<^verbatim>\<open>Dobby_Prelude\<close>: the macros of \<^verbatim>\<open>source/include/utility_macro.h\<close>, memory as a function from 64-bit addresses
    to bytes, little-endian encoding, results (\<open>res\<close>: \<open>Inl\<close> is an access outside an object, a null
    pointer, an unimplemented case; \<open>Inr\<close> the value), the collections of simplification rules.
  \<^item> \<^verbatim>\<open>Lite_Containers\<close>: \<^verbatim>\<open>external/xnucxx\<close>. Arrays and buffers with their capacities; the allocator is a parameter.
  \<^item> \<^verbatim>\<open>Code_Buffer\<close>, \<^verbatim>\<open>Assembler_Label\<close>: \<^verbatim>\<open>source/MemoryAllocator/CodeBuffer\<close> and the labels of
    \<^verbatim>\<open>source/core/modules/assembler/assembler.h\<close>. Under scripts of its emitting and
    overwriting functions the buffer refines a list of bytes (\<^verbatim>\<open>code_buffer_refines_list\<close>).
  \<^item> \<^verbatim>\<open>Arm64_Constants\<close>, \<^verbatim>\<open>Arm64_Assembler\<close>, \<^verbatim>\<open>Arm64_Codegen\<close>: \<^verbatim>\<open>source/core/arch/arm64\<close>, \<^verbatim>\<open>assembler-arm64\<close>, \<^verbatim>\<open>codegen-arm64\<close>.
    \<^verbatim>\<open>Arm64_Isa\<close> is the meaning of the instructions that occur, as a step function on machine states, from
    the architecture manual and independent of the code.
  \<^item> \<^verbatim>\<open>Arm64_Relocation\<close>, \<^verbatim>\<open>Arm64_Trampoline\<close>: \<^verbatim>\<open>ARM64InstructionRelocation.cc\<close> and \<^verbatim>\<open>trampoline-arm64.cc\<close>. The one-pass
    routine with its literal pool equals a two-pass reference; the relocated instructions of the classes that are
    rewritten correctly simulate their originals; trampolines reach their targets.
  \<^item> \<^verbatim>\<open>Arm64_Near_Trampoline\<close>: the rest of \<^verbatim>\<open>trampoline-arm64.cc\<close>, the single branch and its forwarding chunk, over the
    near arena of \<^verbatim>\<open>Near_Arena\<close>, which is shown to answer in the range of the branch.
  \<^item> \<^verbatim>\<open>X86_Opcode_Map\<close>, \<^verbatim>\<open>X86_Decoder\<close>: the tables and stages of \<^verbatim>\<open>x86_insn_decode\<close>. \<^verbatim>\<open>X86_Length\<close> shows what it computes
    for the encodings it handles, \<^verbatim>\<open>X86_Bounds\<close> that it stays inside its buffer and always advances.
  \<^item> \<^verbatim>\<open>X64_Assembler\<close>, \<^verbatim>\<open>X64_Codegen\<close>, \<^verbatim>\<open>X64_Isa\<close>: the same for \<^verbatim>\<open>assembler-x64\<close>, \<^verbatim>\<open>codegen-x64\<close>, \<^verbatim>\<open>trampoline-x64.cc\<close>.
  \<^item> \<^verbatim>\<open>Memory_Arena\<close>: \<^verbatim>\<open>MemoryArena.cc\<close> and \<^verbatim>\<open>OSMemory\<close> of \<^verbatim>\<open>platform-posix.cc\<close>, a locale for allocators and its interpretation.
  \<^item> \<^verbatim>\<open>X64_Relocation\<close>: \<^verbatim>\<open>X64InstructionRelocation.cc\<close>, instruction by instruction, its loop, and the retry with larger
    chunks from the arena.
  \<^item> \<^verbatim>\<open>Hook_Registry\<close>: \<^verbatim>\<open>list_structure.h\<close> and \<^verbatim>\<open>Interceptor.cpp\<close> over a heap of list nodes; the circular list implements
    a stack of hooks per address (locale \<^verbatim>\<open>hook_stack\<close>, interpreted by the interceptor).
  \<^item> \<^verbatim>\<open>Code_Patch\<close>: pages with protections, \<^verbatim>\<open>code-patch-tool-posix.cc\<close>, \<^verbatim>\<open>SetPermission\<close>, \<^verbatim>\<open>AssemblyCodeBuilder.cc\<close>.
  \<^item> \<^verbatim>\<open>Process_Layout\<close>, \<^verbatim>\<open>Near_Arena\<close>: the parser of \<^verbatim>\<open>/proc/self/maps\<close> and \<^verbatim>\<open>NearMemoryArena.cc\<close>, which searches the map
    for a page in range.
  \<^item> \<^verbatim>\<open>Hook_Engine\<close>: \<^verbatim>\<open>InterceptRouting.cpp\<close>, \<^verbatim>\<open>function-inline-replace.cc\<close>, \<^verbatim>\<open>FunctionInlineReplaceExport.cc\<close>, \<^verbatim>\<open>dobby.cpp\<close>
    and the plugins, composed on x64 from the theories above. The state is the record \<open>dobby\<close>: the registry, the
    routings, both arenas, the plugins and the memory of the process. A hook works, comes off without a
    trace when there was memory for its relocated code, and does not come off when there was not.

  \<^bold>\<open>Conventions.\<close> Machine integers are words of their width, with the casts of the code; \<^verbatim>\<open>int\<close> sizes are \<open>int\<close> where the
  code cannot overflow under the bounds stated, else words. Pointers are 64-bit words, null is 0. Functions that
  can fault return \<open>res\<close>; a loop that may not end is a \<^theory_text>\<open>partial_function\<close> into \<open>option\<close>, where
  \<open>None\<close> is a run that does not end, and theorems that the code returns say that the value is \<open>Some\<close>.
  The operating system (\<^verbatim>\<open>mmap\<close>, \<^verbatim>\<open>mprotect\<close>, the text of the memory map), \<^verbatim>\<open>malloc\<close> and \<^verbatim>\<open>new\<close> are parameters; what is relied
  on of them is stated by \<open>mmap_ok\<close>, \<open>private_mmap\<close>, \<open>mprotect_ok\<close> and \<open>near_sys_ok\<close>, documented
  behaviour each, and every property with such a hypothesis has a witness on a concrete system.

  \<^bold>\<open>Bounds.\<close> The x64 retry loop is shown to end for chunks of up to \<open>2 ^ 20\<close> bytes: each original byte gives
  at most 279 bytes of code, so the size needed fits an \<^verbatim>\<open>int\<close>, and the chunk grows by 16 in every round. Pages have
  \<open>2 ^ k\<close> bytes, with \<open>k \<le> 30\<close> so that page sizes are positive \<^verbatim>\<open>int\<close>s, and \<open>11 \<le> k\<close> where the code
  relocated for a six-byte trampoline, at most 25 original bytes, must fit one page. Memory that \<^verbatim>\<open>mmap\<close> returns lies in the
  lower half of the address space. Lines of the memory map are shorter than \<^verbatim>\<open>LINE_MAX\<close>.

  \<^bold>\<open>Not modelled.\<close> The 32-bit targets (\<^verbatim>\<open>assembler-arm.h\<close>, \<^verbatim>\<open>ARMInstructionRelocation.cc\<close>, \<^verbatim>\<open>assembler-ia32.h\<close>,
  \<^verbatim>\<open>X86InstructionRelocation.cc\<close> and their trampolines) and the closure bridges with the function wrappers and the dynamic
  instrumentation on top of them, whose code is assembly text and calls through it; other operating systems
  (Darwin, Windows); threads and semaphores; cache maintenance, which has no effect on a model without caches; logging and
  helpers; the plugins under \<^verbatim>\<open>builtin-plugin\<close>, which are clients of the interface or Mach headers generated by
  other tools; code that no build uses (\<^verbatim>\<open>assembler-x86-shared\<close>, \<^verbatim>\<open>InstructionRelocation/x86/deprecated\<close>); the libraries of the
  application, tests and examples. Instructions of other threads between the steps of a hook are not
  considered: the code takes no lock.
\<close>

end
